(* ===== verification/WP_Crates.thy ===== *)
theory WP_Crates
  imports WP_Prelude
begin

text \<open>
  The third-party crates the sources call. None of them is under \<^verbatim>\<open>src/\<close>, so each is a
  field of a record of functions that the definitions take as an argument, and what the
  sources rely on is a locale: the documented behaviour of the \<^verbatim>\<open>hex\<close>, \<^verbatim>\<open>bytes\<close> and
  \<^verbatim>\<open>sha2\<close> crates. The last section gives functions that satisfy the documentation, on
  which the locales are interpreted and the witnesses evaluate.
\<close>

section \<open>The crates as records of functions\<close>

record hex_crate =
  hex_encode :: "bytes \<Rightarrow> string"
  hex_decode :: "string \<Rightarrow> (bytes, string) result"

text \<open>
  \<^verbatim>\<open>bytes::BufMut\<close> (writing at the end of a buffer) and \<^verbatim>\<open>bytes::Buf\<close> for \<^verbatim>\<open>&[u8]\<close>
  (reading from the front and advancing). A read past the end panics, which is \<open>None\<close>.
\<close>

record bytes_crate = hex_crate +
  put_u8 :: "bytes \<Rightarrow> u8 \<Rightarrow> bytes"
  put_u32_le :: "bytes \<Rightarrow> u32 \<Rightarrow> bytes"
  put_u64_le :: "bytes \<Rightarrow> u64 \<Rightarrow> bytes"
  put_slice :: "bytes \<Rightarrow> bytes \<Rightarrow> bytes"
  remaining :: "bytes \<Rightarrow> nat"
  get_u8 :: "bytes \<Rightarrow> (u8 \<times> bytes) option"
  get_u32_le :: "bytes \<Rightarrow> (u32 \<times> bytes) option"
  get_u64_le :: "bytes \<Rightarrow> (u64 \<times> bytes) option"
  copy_to_slice :: "nat \<Rightarrow> bytes \<Rightarrow> (bytes \<times> bytes) option"
  copy_to_bytes :: "nat \<Rightarrow> bytes \<Rightarrow> (bytes \<times> bytes) option"

record wp_crates = bytes_crate +
  sha256 :: "bytes \<Rightarrow> bytes"

section \<open>Hexadecimal digits\<close>

text \<open>The lower-case hexadecimal digit of a nibble, and the two digits of a byte.\<close>

definition hex_digit :: "nat \<Rightarrow> char" where
  "hex_digit d = (if d < 10 then char_of (48 + d) else char_of (87 + d))"

definition hex_pair :: "byte \<Rightarrow> string" where
  "hex_pair b = [hex_digit (unat b div 16), hex_digit (unat b mod 16)]"

definition ascii_lower :: "char \<Rightarrow> char" where
  "ascii_lower c = (let n = (of_char c :: nat) in if 65 \<le> n \<and> n \<le> 90 then char_of (n + 32) else c)"

definition ascii_upper :: "char \<Rightarrow> char" where
  "ascii_upper c = (let n = (of_char c :: nat) in if 97 \<le> n \<and> n \<le> 122 then char_of (n - 32) else c)"

lemma of_char_hex_digit:
  "d < 16 \<Longrightarrow> (of_char (hex_digit d) :: nat) = (if d < 10 then 48 + d else 87 + d)"
  by (simp add: hex_digit_def)

lemma hex_digit_ascii: "d < 16 \<Longrightarrow> (of_char (hex_digit d) :: nat) < 128"
  by (simp add: of_char_hex_digit)

lemma hex_digit_inj: "d < 16 \<Longrightarrow> e < 16 \<Longrightarrow> hex_digit d = hex_digit e \<longleftrightarrow> d = e"
proof -
  assume d: "d < 16" and e: "e < 16"
  have "d = e" if "hex_digit d = hex_digit e"
  proof -
    from that d e have "(if d < 10 then 48 + d else 87 + d) = (if e < 10 then 48 + e else 87 + e)"
      by (metis of_char_hex_digit)
    with d e show ?thesis by (simp split: if_splits)
  qed
  then show ?thesis by auto
qed

lemma nibbles: "unat (b :: byte) div 16 < 16" "unat (b :: byte) mod 16 < 16"
  using unat_byte_less [of b] by (simp_all add: less_mult_imp_div_less del: unat_byte_less)

lemma hex_pair_inj: "hex_pair a = hex_pair b \<longleftrightarrow> a = b"
proof
  assume "hex_pair a = hex_pair b"
  then have "unat a div 16 = unat b div 16" and "unat a mod 16 = unat b mod 16"
    by (simp_all add: hex_pair_def hex_digit_inj nibbles)
  then have "unat a = unat b"
    by (metis div_mod_decomp)
  then show "a = b" by (rule unsigned_word_eqI)
qed simp

lemma hex_pair_zero [simp]: "hex_pair 0 = ''00''"
  by code_simp

lemma length_hex_pair [simp]: "length (hex_pair b) = 2"
  by (simp add: hex_pair_def)

lemma ascii_lower_hex_digit [simp]: "d < 16 \<Longrightarrow> ascii_lower (hex_digit d) = hex_digit d"
  by (simp add: ascii_lower_def of_char_hex_digit Let_def)

lemma length_concat_hex_pairs: "length (concat (map hex_pair bs)) = 2 * length bs"
  by (induction bs) auto

lemma hex_pairs_inj: "concat (map hex_pair as) = concat (map hex_pair bs) \<longleftrightarrow> as = bs"
proof (induction as arbitrary: bs)
  case Nil
  show ?case using length_concat_hex_pairs [of bs] by (cases bs) (auto simp: hex_pair_def)
next
  case (Cons a as)
  show ?case
  proof (cases bs)
    case Nil
    then show ?thesis by (simp add: hex_pair_def)
  next
    case bs: (Cons b bs')
    have "concat (map hex_pair (a # as)) = concat (map hex_pair (b # bs'))
            \<longleftrightarrow> hex_pair a = hex_pair b \<and> concat (map hex_pair as) = concat (map hex_pair bs')"
      by (auto simp: hex_pair_def)
    then show ?thesis by (simp add: bs Cons.IH hex_pair_inj)
  qed
qed

lemma lower_hex_pairs [simp]: "map ascii_lower (concat (map hex_pair bs)) = concat (map hex_pair bs)"
  by (induction bs) (auto simp: hex_pair_def nibbles)

section \<open>What the sources rely on\<close>

text \<open>
  \<^verbatim>\<open>hex\<close>: \<^verbatim>\<open>encode\<close> writes two lower-case digits per byte; \<^verbatim>\<open>decode\<close> accepts exactly the
  spellings of an encoding, in either case.
\<close>

locale hex_laws =
  fixes E :: "'z hex_crate_scheme"
  assumes hex_encode_pairs: "hex_encode E bs = concat (map hex_pair bs)"
    and hex_decode_iff: "hex_decode E s = Ok bs \<longleftrightarrow> map ascii_lower s = hex_encode E bs"
begin

lemma length_hex_encode: "length (hex_encode E bs) = 2 * length bs"
  by (simp add: hex_encode_pairs length_concat_hex_pairs)

lemma hex_encode_append: "hex_encode E (as @ bs) = hex_encode E as @ hex_encode E bs"
  by (simp add: hex_encode_pairs)

lemma hex_encode_zeros: "hex_encode E (replicate n 0) = replicate (2 * n) (CHR ''0'')"
  by (induction n) (simp_all add: hex_encode_pairs hex_pair_zero)

lemma hex_encode_inj: "hex_encode E as = hex_encode E bs \<longleftrightarrow> as = bs"
  by (simp add: hex_encode_pairs hex_pairs_inj)

lemma hex_decode_encode: "hex_decode E (hex_encode E bs) = Ok bs"
  by (simp add: hex_decode_iff hex_encode_pairs)

lemma hex_decode_length: "hex_decode E s = Ok bs \<Longrightarrow> length s = 2 * length bs"
  by (metis hex_decode_iff length_hex_encode length_map)

lemma hex_decode_lower: "hex_decode E s = Ok bs \<Longrightarrow> hex_decode E (map ascii_lower s) = Ok bs"
  by (metis hex_decode_iff hex_encode_pairs lower_hex_pairs)

text \<open>Two spellings that agree up to case decode alike.\<close>

lemma hex_decode_case_insensitive:
  "map ascii_lower s = map ascii_lower t \<Longrightarrow> hex_decode E s = Ok bs \<longleftrightarrow> hex_decode E t = Ok bs"
  by (simp add: hex_decode_iff)

lemma hex_encode_ascii: "c \<in> set (hex_encode E bs) \<Longrightarrow> (of_char c :: nat) < 128"
  by (auto simp: hex_encode_pairs hex_pair_def intro: hex_digit_ascii nibbles)

end

text \<open>
  \<^verbatim>\<open>bytes\<close>: the \<^verbatim>\<open>put\<close> methods append, the \<^verbatim>\<open>get\<close> methods read and advance, in
  little-endian order where the name says so, and panic when too few bytes remain.
\<close>

locale bytes_laws = hex_laws E for E :: "'z bytes_crate_scheme" +
  assumes put_u8: "put_u8 E b x = b @ [x]"
    and put_u32_le: "put_u32_le E b w = b @ u32_to_le_bytes w"
    and put_u64_le: "put_u64_le E b v = b @ u64_to_le_bytes v"
    and put_slice: "put_slice E b s = b @ s"
    and remaining: "remaining E b = length b"
    and get_u8: "get_u8 E b = (case b of [] \<Rightarrow> None | x # r \<Rightarrow> Some (x, r))"
    and get_u32_le: "get_u32_le E b =
          (if 4 \<le> length b then Some (u32_from_le_bytes (take 4 b), drop 4 b) else None)"
    and get_u64_le: "get_u64_le E b =
          (if 8 \<le> length b then Some (u64_from_le_bytes (take 8 b), drop 8 b) else None)"
    and copy_to_slice: "copy_to_slice E n b = (if n \<le> length b then Some (take n b, drop n b) else None)"
    and copy_to_bytes: "copy_to_bytes E n b = (if n \<le> length b then Some (take n b, drop n b) else None)"
begin

lemmas buf_laws [wire_simps] =
  put_u8 put_u32_le put_u64_le put_slice remaining get_u8 get_u32_le get_u64_le
  copy_to_slice copy_to_bytes

end

text \<open>\<^verbatim>\<open>sha2\<close>: a SHA-256 digest is 32 bytes long.\<close>

locale crate_laws = bytes_laws E for E :: "'z wp_crates_scheme" +
  assumes length_sha256: "length (sha256 E m) = 32"

section \<open>Functions that satisfy the documentation\<close>

definition hex_encode_impl :: "bytes \<Rightarrow> string" where
  "hex_encode_impl bs = concat (map hex_pair bs)"

definition hex_val :: "char \<Rightarrow> nat option" where
  "hex_val c = (let n = of_char (ascii_lower c) :: nat in
     if 48 \<le> n \<and> n \<le> 57 then Some (n - 48) else if 97 \<le> n \<and> n \<le> 102 then Some (n - 87) else None)"

definition byte_of_nibbles :: "nat \<Rightarrow> nat \<Rightarrow> byte" where
  "byte_of_nibbles h l = of_nat (16 * h + l)"

fun hex_decode_impl :: "string \<Rightarrow> (bytes, string) result" where
  "hex_decode_impl [] = Ok []"
| "hex_decode_impl [c] = Err ''Odd number of digits''"
| "hex_decode_impl (c # d # s) =
     (case (hex_val c, hex_val d, hex_decode_impl s) of
        (Some h, Some l, Inr bs) \<Rightarrow> Ok (byte_of_nibbles h l # bs)
      | (Some h, Some l, Inl e) \<Rightarrow> Err e
      | _ \<Rightarrow> Err ''Invalid character'')"

lemma hex_val_iff: "hex_val c = Some d \<longleftrightarrow> d < 16 \<and> ascii_lower c = hex_digit d"
proof
  assume "hex_val c = Some d"
  then show "d < 16 \<and> ascii_lower c = hex_digit d"
    by (auto simp: hex_val_def hex_digit_def Let_def split: if_splits)
next
  assume "d < 16 \<and> ascii_lower c = hex_digit d"
  then show "hex_val c = Some d"
    by (simp add: hex_val_def of_char_hex_digit Let_def)
qed

lemma byte_of_nibbles_unat: "byte_of_nibbles (unat b div 16) (unat b mod 16) = b"
proof -
  have "16 * (unat b div 16) + unat b mod 16 = unat b" by simp
  then show ?thesis unfolding byte_of_nibbles_def by (metis of_nat_unat ucast_id)
qed

lemma hex_val_pair_iff:
  "(\<exists>h l. hex_val c = Some h \<and> hex_val d = Some l \<and> byte_of_nibbles h l = b)
     \<longleftrightarrow> hex_val c = Some (unat b div 16) \<and> hex_val d = Some (unat b mod 16)"
proof
  assume "\<exists>h l. hex_val c = Some h \<and> hex_val d = Some l \<and> byte_of_nibbles h l = b"
  then obtain h l where hl: "hex_val c = Some h" "hex_val d = Some l" "byte_of_nibbles h l = b"
    by blast
  from hl have "h < 16" "l < 16" by (simp_all add: hex_val_iff)
  moreover from this hl(3) have "unat b = 16 * h + l"
    using unat_of_nat_byte [of "16 * h + l"] unfolding byte_of_nibbles_def by simp
  ultimately show "hex_val c = Some (unat b div 16) \<and> hex_val d = Some (unat b mod 16)"
    using hl(1,2) by simp
next
  assume "hex_val c = Some (unat b div 16) \<and> hex_val d = Some (unat b mod 16)"
  then show "\<exists>h l. hex_val c = Some h \<and> hex_val d = Some l \<and> byte_of_nibbles h l = b"
    using byte_of_nibbles_unat by blast
qed

lemma hex_decode_impl_iff: "hex_decode_impl s = Ok bs \<longleftrightarrow> map ascii_lower s = concat (map hex_pair bs)"
proof (induction s arbitrary: bs rule: hex_decode_impl.induct)
  case 1
  show ?case by (cases bs) (auto simp: hex_pair_def)
next
  case (2 c)
  show ?case by (cases bs) (auto simp: hex_pair_def)
next
  case (3 c d s)
  show ?case
  proof (cases bs)
    case Nil
    then show ?thesis by (auto split: option.splits sum.splits)
  next
    case (Cons b r)
    have "hex_decode_impl (c # d # s) = Ok (b # r) \<longleftrightarrow>
        (\<exists>h l. hex_val c = Some h \<and> hex_val d = Some l \<and> byte_of_nibbles h l = b
               \<and> hex_decode_impl s = Ok r)"
      by (auto split: option.splits sum.splits)
    also have "\<dots> \<longleftrightarrow> hex_val c = Some (unat b div 16) \<and> hex_val d = Some (unat b mod 16)
               \<and> hex_decode_impl s = Ok r"
      using hex_val_pair_iff [of c d b] by blast
    also have "\<dots> \<longleftrightarrow> map ascii_lower (c # d # s) = concat (map hex_pair (b # r))"
      unfolding "3.IH" hex_val_iff by (simp add: nibbles hex_pair_def)
    finally show ?thesis by (simp add: Cons)
  qed
qed

definition std_crates :: wp_crates where
  "std_crates =
     \<lparr>hex_encode = hex_encode_impl, hex_decode = hex_decode_impl,
      put_u8 = (\<lambda>b x. b @ [x]), put_u32_le = (\<lambda>b w. b @ u32_to_le_bytes w),
      put_u64_le = (\<lambda>b v. b @ u64_to_le_bytes v), put_slice = (\<lambda>b s. b @ s),
      remaining = length,
      get_u8 = (\<lambda>b. case b of [] \<Rightarrow> None | x # r \<Rightarrow> Some (x, r)),
      get_u32_le = (\<lambda>b. if 4 \<le> length b then Some (u32_from_le_bytes (take 4 b), drop 4 b) else None),
      get_u64_le = (\<lambda>b. if 8 \<le> length b then Some (u64_from_le_bytes (take 8 b), drop 8 b) else None),
      copy_to_slice = (\<lambda>n b. if n \<le> length b then Some (take n b, drop n b) else None),
      copy_to_bytes = (\<lambda>n b. if n \<le> length b then Some (take n b, drop n b) else None),
      sha256 = (\<lambda>m. take 32 (m @ replicate 32 0))\<rparr>"

interpretation std: crate_laws std_crates
  by unfold_locales (simp_all add: std_crates_def hex_encode_impl_def hex_decode_impl_iff)

end
