(* ===== verification/WP_Address.thy ===== *)
theory WP_Address
  imports WP_Crates
begin

text \<open>
  User addresses (\<^verbatim>\<open>crates/wpapi/src/address/user.rs\<close>): construction from time, room name
  and raw bytes, the 32-byte wire form, the 12-character short ID and the prefix match that
  resolves short IDs, with the round trip between an address and its wire form and the
  exact condition under which a short ID survives the wire.
\<close>

section \<open>Definitions\<close>

text \<open>\<^verbatim>\<open>struct UserAddress { id: String }\<close>.\<close>

record UserAddress =
  addr_id :: string

definition UserAddress_new :: "string \<Rightarrow> UserAddress" where
  "UserAddress_new i = \<lparr>addr_id = i\<rparr>"

text \<open>\<^verbatim>\<open>str::as_bytes\<close>.\<close>

definition as_bytes :: "string \<Rightarrow> bytes" where
  "as_bytes s = map of_char s"

text \<open>\<^verbatim>\<open>str::trim\<close>: the UTF-8 encodings of the characters with the White\_Space property.\<close>

definition white_space :: "nat list list" where
  "white_space =
     map (\<lambda>n. [n]) ([9..<14] @ [32]) @ [[0xC2, 0x85], [0xC2, 0xA0], [0xE1, 0x9A, 0x80]]
     @ map (\<lambda>n. [0xE2, 0x80, n]) ([0x80..<0x8B] @ [0xA8, 0xA9, 0xAF])
     @ [[0xE2, 0x81, 0x9F], [0xE3, 0x80, 0x80]]"

definition white_space_strings :: "string list" where
  "white_space_strings = map (map char_of) white_space"

function trim_start_by :: "string list \<Rightarrow> string \<Rightarrow> string" where
  "trim_start_by ws s =
     (case find (\<lambda>w. w \<noteq> [] \<and> starts_with s w) ws of
        None \<Rightarrow> s
      | Some w \<Rightarrow> trim_start_by ws (drop (length w) s))"
  by pat_completeness auto
termination
proof (relation "measure (\<lambda>(ws, s). length s)")
  fix ws s w
  assume "find (\<lambda>w. w \<noteq> [] \<and> starts_with s w) ws = Some w"
  then have "w \<noteq> []" and "starts_with s w"
    by (auto simp: find_Some_iff)
  then obtain t where "s = w @ t" "length w > 0"
    by (auto simp: starts_with_iff_prefix)
  then show "((ws, drop (length w) s), (ws, s)) \<in> measure (\<lambda>(ws, s). length s)"
    by simp
qed simp

declare trim_start_by.simps [simp del]

definition str_trim :: "string \<Rightarrow> string" where
  "str_trim s =
     rev (trim_start_by (map rev white_space_strings) (rev (trim_start_by white_space_strings s)))"

definition from_bytes :: "'z hex_crate_scheme \<Rightarrow> bytes \<Rightarrow> UserAddress" where
  "from_bytes E bs = \<lparr>addr_id = hex_encode E bs\<rparr>"

definition to_bytes :: "'z hex_crate_scheme \<Rightarrow> UserAddress \<Rightarrow> bytes" where
  "to_bytes E a =
     (let raw_buf = replicate 32 0 in
      case hex_decode E (addr_id a) of
        Inr decoded \<Rightarrow> (let len = min (length decoded) 32 in take len decoded @ drop len raw_buf)
      | Inl _ \<Rightarrow> raw_buf)"

text \<open>
  \<^verbatim>\<open>generate_from_time\<close> reads the clock (\<open>nanos\<close>) and post-increments the static
  \<^verbatim>\<open>TIME_COUNTER\<close>; the model takes both readings and returns the new counter.
\<close>

definition generate_from_time :: "'z wp_crates_scheme \<Rightarrow> nat \<Rightarrow> u64 \<Rightarrow> UserAddress \<times> u64" where
  "generate_from_time E nanos counter =
     (\<lparr>addr_id = hex_encode E (sha256 E (as_bytes (show_nat nanos @ ''-'' @ show_nat (unat counter))))\<rparr>,
      counter + 1)"

definition from_room_id :: "'z wp_crates_scheme \<Rightarrow> string \<Rightarrow> UserAddress" where
  "from_room_id E room_id =
     (let trimmed = str_trim room_id in
      if length trimmed = 64 \<and> \<not> isl (hex_decode E trimmed)
      then UserAddress_new trimmed
      else from_bytes E (sha256 E (as_bytes trimmed)))"

definition from_room_id_and_host :: "'z wp_crates_scheme \<Rightarrow> string \<Rightarrow> UserAddress \<Rightarrow> UserAddress" where
  "from_room_id_and_host E room_id host =
     from_bytes E (sha256 E (to_bytes E host @ as_bytes (str_trim room_id)))"

text \<open>
  \<^verbatim>\<open>&self.id[..12]\<close> panics (\<open>None\<close>) when byte 12 is inside a UTF-8 sequence, that is, when
  it is a continuation byte.
\<close>

definition is_char_boundary :: "string \<Rightarrow> nat \<Rightarrow> bool" where
  "is_char_boundary s i \<longleftrightarrow>
     i = 0 \<or> i = length s \<or> i < length s \<and> \<not> (128 \<le> (of_char (s ! i) :: nat) \<and> (of_char (s ! i) :: nat) < 192)"

definition short_id :: "UserAddress \<Rightarrow> string option" where
  "short_id a =
     (if 12 \<le> length (addr_id a)
      then (if is_char_boundary (addr_id a) 12 then Some (take 12 (addr_id a)) else None)
      else Some (addr_id a))"

definition matches_prefix :: "UserAddress \<Rightarrow> UserAddress \<Rightarrow> bool" where
  "matches_prefix a other \<longleftrightarrow> addr_id a = addr_id other"

definition matches_short_id_prefix :: "UserAddress \<Rightarrow> UserAddress \<Rightarrow> bool" where
  "matches_short_id_prefix a key =
     (if addr_id a = addr_id key then True
      else if 12 \<le> length (addr_id key) \<and> length (addr_id key) < 64 \<and> starts_with (addr_id a) (addr_id key)
      then True
      else if length (addr_id key) = 64 \<and> length (addr_id a) = 64
      then (let clean_key = trim_end_matches (CHR ''0'') (addr_id key) in
            12 \<le> length clean_key \<and> length clean_key < 64 \<and> starts_with (addr_id a) clean_key)
      else False)"

text \<open>An address as the wire carries it: the lower-case hexadecimal form of 32 bytes.\<close>

definition canonical :: "'z hex_crate_scheme \<Rightarrow> UserAddress \<Rightarrow> bool" where
  "canonical E a \<longleftrightarrow> hex_decode E (addr_id a) = Ok (to_bytes E a) \<and> map ascii_lower (addr_id a) = addr_id a"

section \<open>Lemmas\<close>

lemma addr_eq_iff: "a = (b :: UserAddress) \<longleftrightarrow> addr_id a = addr_id b"
  by (metis (full_types) UserAddress.equality old.unit.exhaust)

lemma matches_refl [simp]: "matches_short_id_prefix a a"
  by (simp add: matches_short_id_prefix_def)

lemma length_to_bytes [simp]: "length (to_bytes E a) = 32"
  by (auto simp: to_bytes_def Let_def split: sum.splits)

context hex_laws
begin

lemma length_addr_from_bytes: "length bs = 32 \<Longrightarrow> length (addr_id (from_bytes E bs)) = 64"
  by (simp add: from_bytes_def length_hex_encode)

lemma to_bytes_from_bytes: "length bs = 32 \<Longrightarrow> to_bytes E (from_bytes E bs) = bs"
  by (simp add: to_bytes_def from_bytes_def hex_decode_encode Let_def)

lemma from_bytes_inj: "from_bytes E as = from_bytes E bs \<longleftrightarrow> as = bs"
  by (simp add: from_bytes_def hex_encode_inj)

lemma canonical_from_bytes: "length bs = 32 \<Longrightarrow> canonical E (from_bytes E bs)"
  using hex_decode_encode [of bs]
  by (simp add: canonical_def to_bytes_from_bytes) (simp add: from_bytes_def hex_encode_pairs)

lemma from_bytes_to_bytes: "canonical E a \<Longrightarrow> from_bytes E (to_bytes E a) = a"
  by (auto simp: canonical_def from_bytes_def hex_decode_iff addr_eq_iff)

lemma length_addr_canonical: "canonical E a \<Longrightarrow> length (addr_id a) = 64"
  by (simp add: canonical_def hex_decode_length)

lemma canonical_iff: "canonical E a \<longleftrightarrow> (\<exists>bs. length bs = 32 \<and> a = from_bytes E bs)"
  by (metis canonical_from_bytes from_bytes_to_bytes length_to_bytes)

text \<open>The wire form of a short ID of \<open>2 * n\<close> digits is the ID padded with zeros.\<close>

lemma wire_short_id:
  assumes "hex_decode E s = Ok bs" and "length bs \<le> 32"
  shows "addr_id (from_bytes E (to_bytes E (UserAddress_new s))) =
           map ascii_lower s @ replicate (64 - length s) (CHR ''0'')"
proof -
  have "to_bytes E (UserAddress_new s) = bs @ replicate (32 - length bs) 0"
    using assms by (simp add: to_bytes_def UserAddress_new_def Let_def)
  then have "addr_id (from_bytes E (to_bytes E (UserAddress_new s)))
               = hex_encode E bs @ replicate (2 * (32 - length bs)) (CHR ''0'')"
    by (simp add: from_bytes_def hex_encode_append hex_encode_zeros)
  moreover have "hex_encode E bs = map ascii_lower s"
    using assms(1) by (simp add: hex_decode_iff)
  moreover have "2 * (32 - length bs) = 64 - length s"
    using hex_decode_length [OF assms(1)] by (simp add: diff_mult_distrib2)
  ultimately show ?thesis by simp
qed

text \<open>An ID that is not hexadecimal (or has an odd number of digits) is sent as zeros.\<close>

lemma wire_undecodable:
  "hex_decode E s = Err e \<Longrightarrow> to_bytes E (UserAddress_new s) = replicate 32 0"
  by (simp add: to_bytes_def UserAddress_new_def)

lemma hex_decode_odd: "odd (length s) \<Longrightarrow> \<exists>e. hex_decode E s = Err e"
  using hex_decode_length [of s] by (cases "hex_decode E s") auto

end

lemma trim_end_matches_replicate [simp]:
  "trim_end_matches c (s @ replicate n c) = trim_end_matches c s"
  by (induction n) (simp_all add: replicate_append_same [symmetric] flip: append_assoc)

section \<open>Properties\<close>

text \<open>an address and its 32-byte wire form determine each other: every 32-byte string is the
  wire form of exactly the address \<^verbatim>\<open>from_bytes\<close> gives, and a canonical address is
  recovered from its wire form.\<close>

theorem address_wire_roundtrip:
  assumes "hex_laws E"
  shows "(length bs = 32 \<longrightarrow> to_bytes E (from_bytes E bs) = bs \<and> canonical E (from_bytes E bs)) \<and>
         (canonical E a \<longrightarrow> from_bytes E (to_bytes E a) = a)"
  using hex_laws.to_bytes_from_bytes [OF assms] hex_laws.canonical_from_bytes [OF assms]
    hex_laws.from_bytes_to_bytes [OF assms]
  by blast

theorem address_wire_roundtrip_witness:
  "to_bytes std_crates (from_bytes std_crates (replicate 32 0xC4)) = replicate 32 0xC4
   \<and> from_bytes std_crates (to_bytes std_crates (from_bytes std_crates (replicate 32 7)))
       = from_bytes std_crates (replicate 32 7)"
  using address_wire_roundtrip [OF std.hex_laws_axioms, of "replicate 32 0xC4" "from_bytes std_crates (replicate 32 7)"]
  by (simp add: std.canonical_from_bytes)

text \<open>a short ID of at least 12 hexadecimal digits of a registered address resolves after it has
  travelled as a 32-byte field exactly when 12 of its digits are left once its trailing
  zeros are removed, or when the address itself is the ID padded with zeros. A 12-digit short
  ID that ends in \<^verbatim>\<open>0\<close> therefore never resolves over the wire.\<close>

theorem short_id_over_wire:
  assumes "hex_laws E" and "canonical E a" and "hex_decode E s = Ok bs"
    and "12 \<le> length s" and "length s < 64" and "starts_with (addr_id a) s"
  shows "matches_short_id_prefix a (from_bytes E (to_bytes E (UserAddress_new s))) \<longleftrightarrow>
           12 \<le> length (trim_end_matches (CHR ''0'') s) \<or> addr_id a = s @ replicate (64 - length s) (CHR ''0'')"
proof -
  obtain t where t: "addr_id a = s @ t"
    using assms(6) by (auto simp: starts_with_iff_prefix)
  have la: "length (addr_id a) = 64"
    by (rule hex_laws.length_addr_canonical [OF assms(1,2)])
  have low: "map ascii_lower s = s"
    using assms(2) t by (simp add: canonical_def)
  have wire: "addr_id (from_bytes E (to_bytes E (UserAddress_new s))) = s @ replicate (64 - length s) (CHR ''0'')"
    using hex_laws.wire_short_id [OF assms(1,3)] hex_laws.hex_decode_length [OF assms(1,3)] assms(5) low by simp
  have pre: "starts_with (addr_id a) (trim_end_matches (CHR ''0'') s)"
    using trim_end_matches_decomp [of s "CHR ''0''"] t
    unfolding starts_with_iff_prefix by (metis append_assoc)
  show ?thesis
    using la wire pre assms(4,5) length_trim_end_matches [of "CHR ''0''" s]
    by (auto simp: matches_short_id_prefix_def Let_def)
qed

text \<open>The two cases: \<^verbatim>\<open>abababababab\<close> resolves, \<^verbatim>\<open>ababababab00\<close> does not.\<close>

theorem short_id_over_wire_witness:
  "matches_short_id_prefix (from_bytes std_crates (replicate 32 0xAB))
     (from_bytes std_crates (to_bytes std_crates (UserAddress_new ''abababababab'')))
   \<and> \<not> matches_short_id_prefix (from_bytes std_crates (replicate 5 0xAB @ 0 # replicate 26 0xAB))
     (from_bytes std_crates (to_bytes std_crates (UserAddress_new ''ababababab00'')))"
proof (rule conjI)
  have d: "hex_decode std_crates ''abababababab'' = Ok (replicate 6 0xAB)" by code_simp
  have s: "starts_with (addr_id (from_bytes std_crates (replicate 32 0xAB))) ''abababababab''" by code_simp
  show "matches_short_id_prefix (from_bytes std_crates (replicate 32 0xAB))
     (from_bytes std_crates (to_bytes std_crates (UserAddress_new ''abababababab'')))"
    using short_id_over_wire [OF std.hex_laws_axioms std.canonical_from_bytes d _ _ s]
    by (simp add: trim_end_matches_def)
next
  have d: "hex_decode std_crates ''ababababab00'' = Ok (replicate 5 0xAB @ [0])" by code_simp
  have s: "starts_with (addr_id (from_bytes std_crates (replicate 5 0xAB @ 0 # replicate 26 0xAB))) ''ababababab00''"
    by code_simp
  have n: "addr_id (from_bytes std_crates (replicate 5 0xAB @ 0 # replicate 26 0xAB))
             \<noteq> ''ababababab00'' @ replicate (64 - length ''ababababab00'') (CHR ''0'')" by code_simp
  show "\<not> matches_short_id_prefix (from_bytes std_crates (replicate 5 0xAB @ 0 # replicate 26 0xAB))
     (from_bytes std_crates (to_bytes std_crates (UserAddress_new ''ababababab00'')))"
    using short_id_over_wire [OF std.hex_laws_axioms std.canonical_from_bytes d _ _ s] n
    by (simp add: trim_end_matches_def)
qed

end
