(* ===== verification/WP_Protocol.thy ===== *)
theory WP_Protocol
  imports WP_Address "HOL-Library.Monad_Syntax"
begin

text \<open>
  The DataChannel wire protocol (\<^verbatim>\<open>crates/wpapi/src/protocol/\<close>): the packet and error
  types and the size constants of \<^verbatim>\<open>packet.rs\<close>, the encoder of \<^verbatim>\<open>encoder.rs\<close> and the
  decoder of \<^verbatim>\<open>decoder.rs\<close>, one definition per function. The decoder returns
  \<open>Some (Ok p)\<close>, \<open>Some (Err e)\<close>, or \<open>None\<close> where the Rust code would panic (a slice or
  a \<^verbatim>\<open>Buf\<close> read past the end); that it never does is one of the theorems.
\<close>

section \<open>Constants (packet.rs)\<close>

definition CODEC_OPUS :: u8 where "CODEC_OPUS = 0x01"
definition CODEC_PCM_F32LE :: u8 where "CODEC_PCM_F32LE = 0x00"
definition CODEC_PCM_S16LE :: u8 where "CODEC_PCM_S16LE = 0x02"

definition MAX_PACKET_SIZE :: nat where "MAX_PACKET_SIZE = 1048576"
definition MAX_AUDIO_PAYLOAD_SIZE :: nat where "MAX_AUDIO_PAYLOAD_SIZE = 16384"
definition MAX_SPEAKER_ADDRESSES :: nat where "MAX_SPEAKER_ADDRESSES = 64"

definition OFFSET_MSG_TYPE :: nat where "OFFSET_MSG_TYPE = 0"
definition LEN_USER_ADDR :: nat where "LEN_USER_ADDR = 32"
definition LEN_CLIENT_ID :: nat where "LEN_CLIENT_ID = 8"
definition LEN_PARTICIPANT_COUNT :: nat where "LEN_PARTICIPANT_COUNT = 4"
definition LEN_TIMESTAMP :: nat where "LEN_TIMESTAMP = 8"

definition MIN_LEN_CLIENT_ASSIGNMENT :: nat where
  "MIN_LEN_CLIENT_ASSIGNMENT = 1 + LEN_CLIENT_ID"
definition FULL_LEN_CLIENT_ASSIGNMENT :: nat where
  "FULL_LEN_CLIENT_ASSIGNMENT = 1 + LEN_CLIENT_ID + LEN_USER_ADDR"
definition MIN_LEN_CLIENT_TARGETED_AUDIO :: nat where
  "MIN_LEN_CLIENT_TARGETED_AUDIO = 1 + LEN_USER_ADDR + 1"
definition MIN_LEN_SERVER_TARGETED_AUDIO :: nat where
  "MIN_LEN_SERVER_TARGETED_AUDIO = 1 + LEN_USER_ADDR + LEN_CLIENT_ID + LEN_USER_ADDR + 1"
definition MIN_LEN_PEER_TARGETED_AUDIO :: nat where
  "MIN_LEN_PEER_TARGETED_AUDIO = 1 + LEN_CLIENT_ID + LEN_CLIENT_ID + LEN_USER_ADDR + LEN_USER_ADDR + 1 + 1"
definition MIN_LEN_CALL_REQUEST :: nat where
  "MIN_LEN_CALL_REQUEST = 1 + LEN_CLIENT_ID + LEN_USER_ADDR"
definition MIN_LEN_ADDRESS_ONLY_PACKET :: nat where
  "MIN_LEN_ADDRESS_ONLY_PACKET = 1 + LEN_USER_ADDR"
definition MIN_LEN_ROOM_STATE_NOTIFICATION :: nat where
  "MIN_LEN_ROOM_STATE_NOTIFICATION = 1 + LEN_USER_ADDR + LEN_PARTICIPANT_COUNT"
definition MIN_LEN_PING_PONG :: nat where
  "MIN_LEN_PING_PONG = 1 + LEN_TIMESTAMP"
definition MIN_LEN_VIDEO_FRAME_DATA :: nat where
  "MIN_LEN_VIDEO_FRAME_DATA = 1 + LEN_USER_ADDR + 1"
definition MIN_LEN_ROOM_GROUP_AUDIO_E2EE :: nat where
  "MIN_LEN_ROOM_GROUP_AUDIO_E2EE = 1 + LEN_USER_ADDR + 1 + 1"

lemmas size_consts =
  MAX_PACKET_SIZE_def MAX_AUDIO_PAYLOAD_SIZE_def MAX_SPEAKER_ADDRESSES_def
  OFFSET_MSG_TYPE_def LEN_USER_ADDR_def LEN_CLIENT_ID_def LEN_PARTICIPANT_COUNT_def LEN_TIMESTAMP_def
  MIN_LEN_CLIENT_ASSIGNMENT_def FULL_LEN_CLIENT_ASSIGNMENT_def MIN_LEN_CLIENT_TARGETED_AUDIO_def
  MIN_LEN_SERVER_TARGETED_AUDIO_def MIN_LEN_PEER_TARGETED_AUDIO_def MIN_LEN_CALL_REQUEST_def
  MIN_LEN_ADDRESS_ONLY_PACKET_def MIN_LEN_ROOM_STATE_NOTIFICATION_def MIN_LEN_PING_PONG_def
  MIN_LEN_VIDEO_FRAME_DATA_def MIN_LEN_ROOM_GROUP_AUDIO_E2EE_def

section \<open>Errors and packets (packet.rs)\<close>

datatype ProtocolError =
    EmptyPacket
  | PacketTooLarge nat nat
  | AudioPayloadTooLarge nat nat
  | TooManySpeakers nat nat
  | UnknownPacketType u8
  | InsufficientLength u8 nat nat

datatype ProtocolPacket =
    ClientAssignment u64 UserAddress
  | ClientTargetedAudio UserAddress u8 bytes
  | ServerTargetedAudio UserAddress u64 UserAddress u8 bytes
  | PeerTargetedAudio u64 u64 UserAddress UserAddress u8 u8 bytes
  | CallRequest u64 UserAddress
  | CallAcceptResponse UserAddress
  | CallRejectResponse UserAddress
  | CallAcceptedNotification UserAddress
  | CallRejectedNotification UserAddress
  | ConnectionError UserAddress
  | CallHangup UserAddress
  | CallEndedNotification UserAddress
  | RoomJoinRequest UserAddress
  | RoomStateNotification UserAddress u32
  | RoomLeaveRequest UserAddress
  | RoomGroupAudio UserAddress u8 bytes
  | ActiveSpeakerNotice UserAddress "UserAddress list"
  | Ping u64
  | Pong u64
  | VideoFrameData UserAddress u8 bytes
  | RoomGroupAudioE2EE UserAddress u8 u8 bytes
  | BroadcastAudio u64 bytes

section \<open>Encoder (encoder.rs)\<close>

definition encode_address_packet :: "'z bytes_crate_scheme \<Rightarrow> u8 \<Rightarrow> UserAddress \<Rightarrow> bytes" where
  "encode_address_packet E msg_type address =
     (let b = put_u8 E [] msg_type; b = put_slice E b (to_bytes E address) in b)"

fun encode :: "'z bytes_crate_scheme \<Rightarrow> ProtocolPacket \<Rightarrow> bytes" where
  "encode E (ClientAssignment client_id user_address) =
     (let b = put_u8 E [] 0x01; b = put_u64_le E b client_id in put_slice E b (to_bytes E user_address))"
| "encode E (ClientTargetedAudio target_address codec_id audio_data) =
     (let b = put_u8 E [] 0x02; b = put_slice E b (to_bytes E target_address);
          b = put_u8 E b codec_id in put_slice E b audio_data)"
| "encode E (ServerTargetedAudio target_address sender_id sender_address codec_id audio_data) =
     (let b = put_u8 E [] 0x03; b = put_slice E b (to_bytes E target_address);
          b = put_u64_le E b sender_id; b = put_slice E b (to_bytes E sender_address);
          b = put_u8 E b codec_id in put_slice E b audio_data)"
| "encode E (PeerTargetedAudio sender_id origin_node target_address sender_address codec_id ttl audio_data) =
     (let b = put_u8 E [] 0x04; b = put_u64_le E b sender_id; b = put_u64_le E b origin_node;
          b = put_slice E b (to_bytes E target_address); b = put_slice E b (to_bytes E sender_address);
          b = put_u8 E b codec_id; b = put_u8 E b ttl in put_slice E b audio_data)"
| "encode E (CallRequest caller_id caller_address) =
     (let b = put_u8 E [] 0x05; b = put_u64_le E b caller_id in put_slice E b (to_bytes E caller_address))"
| "encode E (CallAcceptResponse caller_address) = encode_address_packet E 0x06 caller_address"
| "encode E (CallRejectResponse caller_address) = encode_address_packet E 0x07 caller_address"
| "encode E (CallAcceptedNotification target_address) = encode_address_packet E 0x08 target_address"
| "encode E (CallRejectedNotification target_address) = encode_address_packet E 0x09 target_address"
| "encode E (ConnectionError target_address) = encode_address_packet E 0x0A target_address"
| "encode E (CallHangup target_address) = encode_address_packet E 0x0B target_address"
| "encode E (CallEndedNotification target_address) = encode_address_packet E 0x0C target_address"
| "encode E (RoomJoinRequest room_address) = encode_address_packet E 0x0D room_address"
| "encode E (RoomStateNotification room_address participant_count) =
     (let b = put_u8 E [] 0x0E; b = put_slice E b (to_bytes E room_address)
      in put_u32_le E b participant_count)"
| "encode E (RoomLeaveRequest room_address) = encode_address_packet E 0x0F room_address"
| "encode E (RoomGroupAudio room_address codec_id audio_data) =
     (let b = put_u8 E [] 0x10; b = put_slice E b (to_bytes E room_address);
          b = put_u8 E b codec_id in put_slice E b audio_data)"
| "encode E (ActiveSpeakerNotice room_address speaker_addresses) =
     (let b = put_u8 E [] 0x11; b = put_slice E b (to_bytes E room_address)
      in fold (\<lambda>addr b. put_slice E b (to_bytes E addr)) speaker_addresses b)"
| "encode E (Ping timestamp) = (let b = put_u8 E [] 0x12 in put_u64_le E b timestamp)"
| "encode E (Pong timestamp) = (let b = put_u8 E [] 0x13 in put_u64_le E b timestamp)"
| "encode E (VideoFrameData target_address video_codec_id frame_data) =
     (let b = put_u8 E [] 0x14; b = put_slice E b (to_bytes E target_address);
          b = put_u8 E b video_codec_id in put_slice E b frame_data)"
| "encode E (RoomGroupAudioE2EE room_address codec_id audio_energy audio_data) =
     (let b = put_u8 E [] 0x15; b = put_slice E b (to_bytes E room_address);
          b = put_u8 E b codec_id; b = put_u8 E b audio_energy in put_slice E b audio_data)"
| "encode E (BroadcastAudio sender_id audio_data) =
     (let b = put_u8 E [] 0x00; b = put_u64_le E b sender_id in put_slice E b audio_data)"

section \<open>Decoder (decoder.rs)\<close>

type_synonym decoded = "(ProtocolPacket, ProtocolError) result option"

text \<open>\<^verbatim>\<open>&data[n..]\<close> and \<^verbatim>\<open>data[i]\<close>: out of range is a panic.\<close>

definition slice_from :: "nat \<Rightarrow> bytes \<Rightarrow> bytes option" where
  "slice_from n data = (if n \<le> length data then Some (drop n data) else None)"

definition index_byte :: "bytes \<Rightarrow> nat \<Rightarrow> u8 option" where
  "index_byte data i = (if i < length data then Some (data ! i) else None)"

definition parse_user_address :: "'z bytes_crate_scheme \<Rightarrow> bytes \<Rightarrow> (UserAddress \<times> bytes) option" where
  "parse_user_address E buf = do {
     (bs, buf) \<leftarrow> copy_to_slice E LEN_USER_ADDR buf;
     Some (from_bytes E bs, buf) }"

text \<open>\<^verbatim>\<open>buf.copy_to_bytes(buf.remaining()).to_vec()\<close>: what is left of the buffer.\<close>

definition rest_of :: "'z bytes_crate_scheme \<Rightarrow> bytes \<Rightarrow> bytes option" where
  "rest_of E buf = map_option fst (copy_to_bytes E (remaining E buf) buf)"

text \<open>
  \<open>nanos\<close> and \<open>counter\<close> are the readings \<^verbatim>\<open>generate_from_time\<close> makes where the decoder
  invents an address for a short \<^verbatim>\<open>ClientAssignment\<close>.
\<close>

definition decode_client_assignment ::
    "'z wp_crates_scheme \<Rightarrow> nat \<Rightarrow> u64 \<Rightarrow> bytes \<Rightarrow> u8 \<Rightarrow> decoded" where
  "decode_client_assignment E nanos counter data msg_type =
     (if msg_type = 0x00 \<and> 9 \<le> length data \<and> length data < FULL_LEN_CLIENT_ASSIGNMENT
      then do {
        buf \<leftarrow> slice_from 1 data;
        (sender_id, buf) \<leftarrow> get_u64_le E buf;
        audio_data \<leftarrow> rest_of E buf;
        Some (Ok (BroadcastAudio sender_id audio_data)) }
      else if length data < MIN_LEN_CLIENT_ASSIGNMENT
      then Some (Err (InsufficientLength msg_type (length data) MIN_LEN_CLIENT_ASSIGNMENT))
      else do {
        buf \<leftarrow> slice_from 1 data;
        (client_id, buf) \<leftarrow> get_u64_le E buf;
        if FULL_LEN_CLIENT_ASSIGNMENT \<le> length data
        then do {
          (user_address, buf) \<leftarrow> parse_user_address E buf;
          Some (Ok (ClientAssignment client_id user_address)) }
        else Some (Ok (ClientAssignment client_id (fst (generate_from_time E nanos counter)))) })"

definition decode_client_targeted_audio :: "'z bytes_crate_scheme \<Rightarrow> bytes \<Rightarrow> decoded" where
  "decode_client_targeted_audio E data =
     (if length data < MIN_LEN_CLIENT_TARGETED_AUDIO
      then Some (Err (InsufficientLength 0x02 (length data) MIN_LEN_CLIENT_TARGETED_AUDIO))
      else do {
        buf \<leftarrow> slice_from 1 data;
        (target_address, buf) \<leftarrow> parse_user_address E buf;
        (codec_id, buf) \<leftarrow> get_u8 E buf;
        audio_data \<leftarrow> rest_of E buf;
        if MAX_AUDIO_PAYLOAD_SIZE < length audio_data
        then Some (Err (AudioPayloadTooLarge (length audio_data) MAX_AUDIO_PAYLOAD_SIZE))
        else Some (Ok (ClientTargetedAudio target_address codec_id audio_data)) })"

definition decode_server_targeted_audio :: "'z bytes_crate_scheme \<Rightarrow> bytes \<Rightarrow> decoded" where
  "decode_server_targeted_audio E data =
     (if length data < MIN_LEN_CLIENT_TARGETED_AUDIO
      then Some (Err (InsufficientLength 0x03 (length data) MIN_LEN_CLIENT_TARGETED_AUDIO))
      else do {
        buf \<leftarrow> slice_from 1 data;
        (target_address, buf) \<leftarrow> parse_user_address E buf;
        if MIN_LEN_SERVER_TARGETED_AUDIO \<le> length data
        then do {
          (sender_id, buf) \<leftarrow> get_u64_le E buf;
          (sender_address, buf) \<leftarrow> parse_user_address E buf;
          (codec_id, buf) \<leftarrow> get_u8 E buf;
          audio_data \<leftarrow> rest_of E buf;
          if MAX_AUDIO_PAYLOAD_SIZE < length audio_data
          then Some (Err (AudioPayloadTooLarge (length audio_data) MAX_AUDIO_PAYLOAD_SIZE))
          else Some (Ok (ServerTargetedAudio target_address sender_id sender_address codec_id audio_data)) }
        else do {
          audio_data \<leftarrow> rest_of E buf;
          if MAX_AUDIO_PAYLOAD_SIZE < length audio_data
          then Some (Err (AudioPayloadTooLarge (length audio_data) MAX_AUDIO_PAYLOAD_SIZE))
          else Some (Ok (ClientTargetedAudio target_address CODEC_OPUS audio_data)) } })"

definition decode_peer_targeted_audio :: "'z bytes_crate_scheme \<Rightarrow> bytes \<Rightarrow> decoded" where
  "decode_peer_targeted_audio E data =
     (if length data < MIN_LEN_PEER_TARGETED_AUDIO
      then Some (Err (InsufficientLength 0x04 (length data) MIN_LEN_PEER_TARGETED_AUDIO))
      else do {
        buf \<leftarrow> slice_from 1 data;
        (sender_id, buf) \<leftarrow> get_u64_le E buf;
        (origin_node, buf) \<leftarrow> get_u64_le E buf;
        (target_address, buf) \<leftarrow> parse_user_address E buf;
        (sender_address, buf) \<leftarrow> parse_user_address E buf;
        (codec_id, buf) \<leftarrow> get_u8 E buf;
        (ttl, buf) \<leftarrow> get_u8 E buf;
        audio_data \<leftarrow> rest_of E buf;
        if MAX_AUDIO_PAYLOAD_SIZE < length audio_data
        then Some (Err (AudioPayloadTooLarge (length audio_data) MAX_AUDIO_PAYLOAD_SIZE))
        else Some (Ok (PeerTargetedAudio sender_id origin_node target_address sender_address
                         codec_id ttl audio_data)) })"

definition decode_call_request :: "'z bytes_crate_scheme \<Rightarrow> bytes \<Rightarrow> decoded" where
  "decode_call_request E data =
     (if length data < MIN_LEN_CALL_REQUEST
      then Some (Err (InsufficientLength 0x05 (length data) MIN_LEN_CALL_REQUEST))
      else do {
        buf \<leftarrow> slice_from 1 data;
        (caller_id, buf) \<leftarrow> get_u64_le E buf;
        (caller_address, buf) \<leftarrow> parse_user_address E buf;
        Some (Ok (CallRequest caller_id caller_address)) })"

definition decode_address_only_packet ::
    "'z bytes_crate_scheme \<Rightarrow> bytes \<Rightarrow> u8 \<Rightarrow> (UserAddress \<Rightarrow> ProtocolPacket) \<Rightarrow> decoded" where
  "decode_address_only_packet E data packet_type constructor =
     (if length data < MIN_LEN_ADDRESS_ONLY_PACKET
      then Some (Err (InsufficientLength packet_type (length data) MIN_LEN_ADDRESS_ONLY_PACKET))
      else do {
        buf \<leftarrow> slice_from 1 data;
        (address, buf) \<leftarrow> parse_user_address E buf;
        Some (Ok (constructor address)) })"

definition decode_call_accept_response :: "'z bytes_crate_scheme \<Rightarrow> bytes \<Rightarrow> decoded" where
  "decode_call_accept_response E data = decode_address_only_packet E data 0x06 CallAcceptResponse"

definition decode_call_reject_response :: "'z bytes_crate_scheme \<Rightarrow> bytes \<Rightarrow> decoded" where
  "decode_call_reject_response E data = decode_address_only_packet E data 0x07 CallRejectResponse"

definition decode_call_accepted_notification :: "'z bytes_crate_scheme \<Rightarrow> bytes \<Rightarrow> decoded" where
  "decode_call_accepted_notification E data =
     decode_address_only_packet E data 0x08 CallAcceptedNotification"

definition decode_call_rejected_notification :: "'z bytes_crate_scheme \<Rightarrow> bytes \<Rightarrow> decoded" where
  "decode_call_rejected_notification E data =
     decode_address_only_packet E data 0x09 CallRejectedNotification"

definition decode_connection_error :: "'z bytes_crate_scheme \<Rightarrow> bytes \<Rightarrow> u8 \<Rightarrow> decoded" where
  "decode_connection_error E data msg_type = decode_address_only_packet E data msg_type ConnectionError"

definition decode_call_hangup :: "'z bytes_crate_scheme \<Rightarrow> bytes \<Rightarrow> decoded" where
  "decode_call_hangup E data = decode_address_only_packet E data 0x0B CallHangup"

definition decode_call_ended_notification :: "'z bytes_crate_scheme \<Rightarrow> bytes \<Rightarrow> decoded" where
  "decode_call_ended_notification E data = decode_address_only_packet E data 0x0C CallEndedNotification"

definition decode_room_join_request :: "'z bytes_crate_scheme \<Rightarrow> bytes \<Rightarrow> decoded" where
  "decode_room_join_request E data = decode_address_only_packet E data 0x0D RoomJoinRequest"

definition decode_room_state_notification :: "'z bytes_crate_scheme \<Rightarrow> bytes \<Rightarrow> decoded" where
  "decode_room_state_notification E data =
     (if length data < MIN_LEN_ROOM_STATE_NOTIFICATION
      then Some (Err (InsufficientLength 0x0E (length data) MIN_LEN_ROOM_STATE_NOTIFICATION))
      else do {
        buf \<leftarrow> slice_from 1 data;
        (room_address, buf) \<leftarrow> parse_user_address E buf;
        (participant_count, buf) \<leftarrow> get_u32_le E buf;
        Some (Ok (RoomStateNotification room_address participant_count)) })"

definition decode_room_leave_request :: "'z bytes_crate_scheme \<Rightarrow> bytes \<Rightarrow> decoded" where
  "decode_room_leave_request E data = decode_address_only_packet E data 0x0F RoomLeaveRequest"

definition decode_room_group_audio :: "'z bytes_crate_scheme \<Rightarrow> bytes \<Rightarrow> decoded" where
  "decode_room_group_audio E data =
     (if length data < MIN_LEN_CLIENT_TARGETED_AUDIO
      then Some (Err (InsufficientLength 0x10 (length data) MIN_LEN_CLIENT_TARGETED_AUDIO))
      else do {
        buf \<leftarrow> slice_from 1 data;
        (room_address, buf) \<leftarrow> parse_user_address E buf;
        (codec_id, buf) \<leftarrow> get_u8 E buf;
        audio_data \<leftarrow> rest_of E buf;
        if MAX_AUDIO_PAYLOAD_SIZE < length audio_data
        then Some (Err (AudioPayloadTooLarge (length audio_data) MAX_AUDIO_PAYLOAD_SIZE))
        else Some (Ok (RoomGroupAudio room_address codec_id audio_data)) })"

text \<open>
  \<^verbatim>\<open>while buf.remaining() >= LEN_USER_ADDR { push(parse_user_address(&mut buf)) }\<close>. Whether
  the loop ends depends on the \<^verbatim>\<open>Buf\<close> implementation, so it is a partial function; that it
  returns is proved from the laws of the crate.
\<close>

partial_function (option) parse_speakers :: "'z bytes_crate_scheme \<Rightarrow> bytes \<Rightarrow> UserAddress list option" where
  "parse_speakers E buf =
     (if LEN_USER_ADDR \<le> remaining E buf
      then Option.bind (parse_user_address E buf) (\<lambda>r.
           Option.bind (parse_speakers E (snd r)) (\<lambda>as. Some (fst r # as)))
      else Some [])"

definition decode_active_speaker_notice :: "'z bytes_crate_scheme \<Rightarrow> bytes \<Rightarrow> decoded" where
  "decode_active_speaker_notice E data =
     (if length data < MIN_LEN_ADDRESS_ONLY_PACKET
      then Some (Err (InsufficientLength 0x11 (length data) MIN_LEN_ADDRESS_ONLY_PACKET))
      else do {
        buf \<leftarrow> slice_from 1 data;
        (room_address, buf) \<leftarrow> parse_user_address E buf;
        let speaker_count = remaining E buf div LEN_USER_ADDR;
        if MAX_SPEAKER_ADDRESSES < speaker_count
        then Some (Err (TooManySpeakers speaker_count MAX_SPEAKER_ADDRESSES))
        else do {
          speaker_addresses \<leftarrow> parse_speakers E buf;
          Some (Ok (ActiveSpeakerNotice room_address speaker_addresses)) } })"

definition decode_ping :: "'z bytes_crate_scheme \<Rightarrow> bytes \<Rightarrow> decoded" where
  "decode_ping E data =
     (if length data < MIN_LEN_PING_PONG
      then Some (Err (InsufficientLength 0x12 (length data) MIN_LEN_PING_PONG))
      else do {
        buf \<leftarrow> slice_from 1 data;
        (timestamp, buf) \<leftarrow> get_u64_le E buf;
        Some (Ok (Ping timestamp)) })"

definition decode_pong :: "'z bytes_crate_scheme \<Rightarrow> bytes \<Rightarrow> decoded" where
  "decode_pong E data =
     (if length data < MIN_LEN_PING_PONG
      then Some (Err (InsufficientLength 0x13 (length data) MIN_LEN_PING_PONG))
      else do {
        buf \<leftarrow> slice_from 1 data;
        (timestamp, buf) \<leftarrow> get_u64_le E buf;
        Some (Ok (Pong timestamp)) })"

definition decode_video_frame_data :: "'z bytes_crate_scheme \<Rightarrow> bytes \<Rightarrow> decoded" where
  "decode_video_frame_data E data =
     (if length data < MIN_LEN_VIDEO_FRAME_DATA
      then Some (Err (InsufficientLength 0x14 (length data) MIN_LEN_VIDEO_FRAME_DATA))
      else do {
        buf \<leftarrow> slice_from 1 data;
        (target_address, buf) \<leftarrow> parse_user_address E buf;
        (video_codec_id, buf) \<leftarrow> get_u8 E buf;
        frame_data \<leftarrow> rest_of E buf;
        Some (Ok (VideoFrameData target_address video_codec_id frame_data)) })"

definition decode_room_group_audio_e2ee :: "'z bytes_crate_scheme \<Rightarrow> bytes \<Rightarrow> decoded" where
  "decode_room_group_audio_e2ee E data =
     (if length data < MIN_LEN_ROOM_GROUP_AUDIO_E2EE
      then Some (Err (InsufficientLength 0x15 (length data) MIN_LEN_ROOM_GROUP_AUDIO_E2EE))
      else do {
        buf \<leftarrow> slice_from 1 data;
        (room_address, buf) \<leftarrow> parse_user_address E buf;
        (codec_id, buf) \<leftarrow> get_u8 E buf;
        (audio_energy, buf) \<leftarrow> get_u8 E buf;
        audio_data \<leftarrow> rest_of E buf;
        if MAX_AUDIO_PAYLOAD_SIZE < length audio_data
        then Some (Err (AudioPayloadTooLarge (length audio_data) MAX_AUDIO_PAYLOAD_SIZE))
        else Some (Ok (RoomGroupAudioE2EE room_address codec_id audio_energy audio_data)) })"

definition decode_dispatch :: "'z wp_crates_scheme \<Rightarrow> nat \<Rightarrow> u64 \<Rightarrow> bytes \<Rightarrow> u8 \<Rightarrow> decoded" where
  "decode_dispatch E nanos counter data msg_type =
     (if msg_type = 0x00 \<or> msg_type = 0x01 then decode_client_assignment E nanos counter data msg_type
      else if msg_type = 0x02 then decode_client_targeted_audio E data
      else if msg_type = 0x03 then decode_server_targeted_audio E data
      else if msg_type = 0x04 then decode_peer_targeted_audio E data
      else if msg_type = 0x05 then decode_call_request E data
      else if msg_type = 0x06 then decode_call_accept_response E data
      else if msg_type = 0x07 then decode_call_reject_response E data
      else if msg_type = 0x08 then decode_call_accepted_notification E data
      else if msg_type = 0x09 then decode_call_rejected_notification E data
      else if msg_type = 0x0A \<or> msg_type = 0xFF then decode_connection_error E data msg_type
      else if msg_type = 0x0B then decode_call_hangup E data
      else if msg_type = 0x0C then decode_call_ended_notification E data
      else if msg_type = 0x0D then decode_room_join_request E data
      else if msg_type = 0x0E then decode_room_state_notification E data
      else if msg_type = 0x0F then decode_room_leave_request E data
      else if msg_type = 0x10 then decode_room_group_audio E data
      else if msg_type = 0x11 then decode_active_speaker_notice E data
      else if msg_type = 0x12 then decode_ping E data
      else if msg_type = 0x13 then decode_pong E data
      else if msg_type = 0x14 then decode_video_frame_data E data
      else if msg_type = 0x15 then decode_room_group_audio_e2ee E data
      else Some (Err (UnknownPacketType msg_type)))"

definition decode :: "'z wp_crates_scheme \<Rightarrow> nat \<Rightarrow> u64 \<Rightarrow> bytes \<Rightarrow> decoded" where
  "decode E nanos counter data =
     (if data = [] then Some (Err EmptyPacket)
      else if MAX_PACKET_SIZE < length data
      then Some (Err (PacketTooLarge (length data) MAX_PACKET_SIZE))
      else do {
        msg_type \<leftarrow> index_byte data OFFSET_MSG_TYPE;
        decode_dispatch E nanos counter data msg_type })"

section \<open>Well-formed packets\<close>

text \<open>
  What a decoded packet satisfies: every address is the canonical form of 32 bytes, audio
  payloads respect the 16 KiB limit, a notice names at most 64 speakers, and the packet fits
  the 1 MB limit. A legacy broadcast carries less than 32 bytes of audio.
\<close>

fun wf_packet :: "'z hex_crate_scheme \<Rightarrow> ProtocolPacket \<Rightarrow> bool" where
  "wf_packet E (ClientAssignment cid a) = canonical E a"
| "wf_packet E (ClientTargetedAudio a c d) = (canonical E a \<and> length d \<le> MAX_AUDIO_PAYLOAD_SIZE)"
| "wf_packet E (ServerTargetedAudio a i s c d) =
     (canonical E a \<and> canonical E s \<and> length d \<le> MAX_AUDIO_PAYLOAD_SIZE)"
| "wf_packet E (PeerTargetedAudio i n a s c t d) =
     (canonical E a \<and> canonical E s \<and> length d \<le> MAX_AUDIO_PAYLOAD_SIZE)"
| "wf_packet E (CallRequest i a) = canonical E a"
| "wf_packet E (CallAcceptResponse a) = canonical E a"
| "wf_packet E (CallRejectResponse a) = canonical E a"
| "wf_packet E (CallAcceptedNotification a) = canonical E a"
| "wf_packet E (CallRejectedNotification a) = canonical E a"
| "wf_packet E (ConnectionError a) = canonical E a"
| "wf_packet E (CallHangup a) = canonical E a"
| "wf_packet E (CallEndedNotification a) = canonical E a"
| "wf_packet E (RoomJoinRequest a) = canonical E a"
| "wf_packet E (RoomStateNotification a n) = canonical E a"
| "wf_packet E (RoomLeaveRequest a) = canonical E a"
| "wf_packet E (RoomGroupAudio a c d) = (canonical E a \<and> length d \<le> MAX_AUDIO_PAYLOAD_SIZE)"
| "wf_packet E (ActiveSpeakerNotice a as) =
     (canonical E a \<and> list_all (canonical E) as \<and> length as \<le> MAX_SPEAKER_ADDRESSES)"
| "wf_packet E (Ping t) = True"
| "wf_packet E (Pong t) = True"
| "wf_packet E (VideoFrameData a c d) =
     (canonical E a \<and> length d + MIN_LEN_VIDEO_FRAME_DATA \<le> MAX_PACKET_SIZE)"
| "wf_packet E (RoomGroupAudioE2EE a c e d) = (canonical E a \<and> length d \<le> MAX_AUDIO_PAYLOAD_SIZE)"
| "wf_packet E (BroadcastAudio i d) = (length d < LEN_USER_ADDR)"

text \<open>A decoder result without panic whose packet, if any, is well-formed.\<close>

definition decodes_well :: "'z hex_crate_scheme \<Rightarrow> decoded \<Rightarrow> bool" where
  "decodes_well E r \<longleftrightarrow> (case r of None \<Rightarrow> False | Some (Inl _) \<Rightarrow> True | Some (Inr p) \<Rightarrow> wf_packet E p)"

section \<open>Reading and writing buffers\<close>

lemma slice_from_1_Cons [simp]: "slice_from 1 (x # xs) = Some xs" "slice_from (Suc 0) (x # xs) = Some xs"
  by (simp_all add: slice_from_def)

lemma slice_from_1: "1 \<le> length data \<Longrightarrow> slice_from 1 data = Some (drop 1 data)"
  by (simp add: slice_from_def)

lemma fold_append_addresses:
  "fold (\<lambda>addr b. b @ to_bytes E addr) as b = b @ concat (map (to_bytes E) as)"
  by (induction as arbitrary: b) simp_all

context bytes_laws
begin

lemma get_u8_Cons: "get_u8 E (x # r) = Some (x, r)"
  by (simp add: get_u8)

lemma get_u8_drop: "n < length b \<Longrightarrow> get_u8 E (drop n b) = Some (b ! n, drop (Suc n) b)"
  by (simp add: get_u8 Cons_nth_drop_Suc [symmetric])

lemma get_u64_append: "get_u64_le E (u64_to_le_bytes v @ r) = Some (v, r)"
  by (simp add: get_u64_le)

lemma get_u32_append: "get_u32_le E (u32_to_le_bytes v @ r) = Some (v, r)"
  by (simp add: get_u32_le)

lemma rest_of_all: "rest_of E b = Some b"
  by (simp add: rest_of_def remaining copy_to_bytes)

lemma parse_user_address_eq:
  "32 \<le> length b \<Longrightarrow> parse_user_address E b = Some (from_bytes E (take 32 b), drop 32 b)"
  by (simp add: parse_user_address_def copy_to_slice LEN_USER_ADDR_def)

lemma parse_to_bytes: "canonical E a \<Longrightarrow> parse_user_address E (to_bytes E a @ r) = Some (a, r)"
  by (simp add: parse_user_address_eq from_bytes_to_bytes)

lemma canonical_take: "32 \<le> length b \<Longrightarrow> canonical E (from_bytes E (take 32 b))"
  by (simp add: canonical_from_bytes)

text \<open>The speaker loop ends and reads every whole address.\<close>

lemma parse_speakers_total:
  "\<exists>as. parse_speakers E b = Some as \<and> length as = length b div 32 \<and> list_all (canonical E) as"
proof (induction "length b" arbitrary: b rule: less_induct)
  case less
  show ?case
  proof (cases "32 \<le> length b")
    case True
    then have "length (drop 32 b) < length b" by simp
    then obtain as where as: "parse_speakers E (drop 32 b) = Some as"
      "length as = length (drop 32 b) div 32" "list_all (canonical E) as"
      using less by blast
    have "parse_speakers E b = Some (from_bytes E (take 32 b) # as)"
      using True as(1) by (subst parse_speakers.simps) (simp add: remaining parse_user_address_eq LEN_USER_ADDR_def)
    moreover have "Suc ((length b - 32) div 32) = length b div 32"
      using True by (simp add: le_div_geq)
    ultimately show ?thesis
      using as True by (simp add: canonical_take)
  next
    case False
    then have "parse_speakers E b = Some []"
      by (subst parse_speakers.simps) (simp add: remaining LEN_USER_ADDR_def)
    with False show ?thesis by simp
  qed
qed

lemma parse_speakers_concat:
  "list_all (canonical E) as \<Longrightarrow> parse_speakers E (concat (map (to_bytes E) as)) = Some as"
proof (induction as)
  case Nil
  show ?case by (subst parse_speakers.simps) (simp add: remaining LEN_USER_ADDR_def)
next
  case (Cons a as)
  then show ?case
    by (subst parse_speakers.simps) (simp add: remaining LEN_USER_ADDR_def parse_to_bytes)
qed

text \<open>The layouts of WPIP-04.\<close>

lemma encode_layout:
  "encode E (ClientAssignment cid a) = 0x01 # u64_to_le_bytes cid @ to_bytes E a"
  "encode E (ClientTargetedAudio a c d) = 0x02 # to_bytes E a @ c # d"
  "encode E (ServerTargetedAudio a i s c d) =
     0x03 # to_bytes E a @ u64_to_le_bytes i @ to_bytes E s @ c # d"
  "encode E (PeerTargetedAudio i n a s c t d) =
     0x04 # u64_to_le_bytes i @ u64_to_le_bytes n @ to_bytes E a @ to_bytes E s @ c # t # d"
  "encode E (CallRequest i a) = 0x05 # u64_to_le_bytes i @ to_bytes E a"
  "encode E (CallAcceptResponse a) = 0x06 # to_bytes E a"
  "encode E (CallRejectResponse a) = 0x07 # to_bytes E a"
  "encode E (CallAcceptedNotification a) = 0x08 # to_bytes E a"
  "encode E (CallRejectedNotification a) = 0x09 # to_bytes E a"
  "encode E (ConnectionError a) = 0x0A # to_bytes E a"
  "encode E (CallHangup a) = 0x0B # to_bytes E a"
  "encode E (CallEndedNotification a) = 0x0C # to_bytes E a"
  "encode E (RoomJoinRequest a) = 0x0D # to_bytes E a"
  "encode E (RoomStateNotification a m) = 0x0E # to_bytes E a @ u32_to_le_bytes m"
  "encode E (RoomLeaveRequest a) = 0x0F # to_bytes E a"
  "encode E (RoomGroupAudio a c d) = 0x10 # to_bytes E a @ c # d"
  "encode E (ActiveSpeakerNotice a as) = 0x11 # to_bytes E a @ concat (map (to_bytes E) as)"
  "encode E (Ping ts) = 0x12 # u64_to_le_bytes ts"
  "encode E (Pong ts) = 0x13 # u64_to_le_bytes ts"
  "encode E (VideoFrameData a c d) = 0x14 # to_bytes E a @ c # d"
  "encode E (RoomGroupAudioE2EE a c e d) = 0x15 # to_bytes E a @ c # e # d"
  "encode E (BroadcastAudio i d) = 0x00 # u64_to_le_bytes i @ d"
  by (simp_all add: encode_address_packet_def fold_append_addresses buf_laws)

lemmas read_simps =
  get_u8_Cons get_u64_append get_u32_append rest_of_all parse_to_bytes

end

declare encode.simps [simp del]

lemma length_concat_to_bytes [simp]: "length (concat (map (to_bytes E) as)) = 32 * length as"
  by (induction as) simp_all

lemmas decoder_defs =
  decode_client_assignment_def decode_client_targeted_audio_def decode_server_targeted_audio_def
  decode_peer_targeted_audio_def decode_call_request_def decode_address_only_packet_def
  decode_call_accept_response_def decode_call_reject_response_def
  decode_call_accepted_notification_def decode_call_rejected_notification_def
  decode_connection_error_def decode_call_hangup_def decode_call_ended_notification_def
  decode_room_join_request_def decode_room_state_notification_def decode_room_leave_request_def
  decode_room_group_audio_def decode_active_speaker_notice_def decode_ping_def decode_pong_def
  decode_video_frame_data_def decode_room_group_audio_e2ee_def

text \<open>Dispatch on the tag byte.\<close>

lemma decode_Cons:
  "decode E nanos counter (t # r) =
     (if MAX_PACKET_SIZE < Suc (length r) then Some (Err (PacketTooLarge (Suc (length r)) MAX_PACKET_SIZE))
      else decode_dispatch E nanos counter (t # r) t)"
  by (simp add: decode_def index_byte_def OFFSET_MSG_TYPE_def)

context crate_laws
begin

lemma canonical_generate: "canonical E (fst (generate_from_time E nanos counter))"
  using canonical_from_bytes [OF length_sha256]
  by (simp add: generate_from_time_def from_bytes_def)

lemma decode_encode_packet:
  "wf_packet E p \<Longrightarrow> decode E nanos counter (encode E p) = Some (Ok p)"
  by (cases p)
     (simp_all add: encode_layout decode_Cons decode_dispatch_def decoder_defs size_consts
        read_simps remaining parse_to_bytes [where r = "[]", simplified]
        get_u64_append [where r = "[]", simplified] get_u32_append [where r = "[]", simplified]
        parse_speakers_concat)

lemmas total_simps =
  decodes_well_def slice_from_def rest_of_all parse_user_address_eq canonical_take get_u64_le get_u32_le
  get_u8_drop size_consts

lemma client_assignment_decodes_well: "decodes_well E (decode_client_assignment E nanos counter data t)"
  by (auto simp: decode_client_assignment_def total_simps canonical_generate)

lemma client_targeted_audio_decodes_well: "decodes_well E (decode_client_targeted_audio E data)"
  by (auto simp: decode_client_targeted_audio_def total_simps)

lemma server_targeted_audio_decodes_well: "decodes_well E (decode_server_targeted_audio E data)"
  by (auto simp: decode_server_targeted_audio_def total_simps)

lemma peer_targeted_audio_decodes_well: "decodes_well E (decode_peer_targeted_audio E data)"
  by (auto simp: decode_peer_targeted_audio_def total_simps)

lemma call_request_decodes_well: "decodes_well E (decode_call_request E data)"
  by (auto simp: decode_call_request_def total_simps)

lemma address_only_decodes_well:
  "(\<And>a. canonical E a \<Longrightarrow> wf_packet E (c a)) \<Longrightarrow> decodes_well E (decode_address_only_packet E data t c)"
  by (auto simp: decode_address_only_packet_def total_simps)

lemma room_state_decodes_well: "decodes_well E (decode_room_state_notification E data)"
  by (auto simp: decode_room_state_notification_def total_simps)

lemma room_group_audio_decodes_well: "decodes_well E (decode_room_group_audio E data)"
  by (auto simp: decode_room_group_audio_def total_simps)

lemma active_speaker_decodes_well: "decodes_well E (decode_active_speaker_notice E data)"
  using parse_speakers_total [of "drop 33 data"]
  by (auto simp: decode_active_speaker_notice_def total_simps remaining Let_def)

lemma ping_pong_decode_well: "decodes_well E (decode_ping E data)" "decodes_well E (decode_pong E data)"
  by (auto simp: decode_ping_def decode_pong_def total_simps)

lemma video_frame_decodes_well:
  "length data \<le> MAX_PACKET_SIZE \<Longrightarrow> decodes_well E (decode_video_frame_data E data)"
  by (auto simp: decode_video_frame_data_def total_simps)

lemma room_group_audio_e2ee_decodes_well: "decodes_well E (decode_room_group_audio_e2ee E data)"
  by (auto simp: decode_room_group_audio_e2ee_def total_simps)

lemmas all_decode_well =
  client_assignment_decodes_well client_targeted_audio_decodes_well server_targeted_audio_decodes_well
  peer_targeted_audio_decodes_well call_request_decodes_well room_state_decodes_well
  room_group_audio_decodes_well active_speaker_decodes_well ping_pong_decode_well
  video_frame_decodes_well room_group_audio_e2ee_decodes_well

lemma decode_dispatch_decodes_well:
  assumes "length data \<le> MAX_PACKET_SIZE"
  shows "decodes_well E (decode_dispatch E nanos counter data t)"
proof -
  have err: "decodes_well E (Some (Err e))" for e by (simp add: decodes_well_def)
  show ?thesis
    using assms
    by (simp add: decode_dispatch_def all_decode_well address_only_decodes_well err
          decode_call_accept_response_def decode_call_reject_response_def
          decode_call_accepted_notification_def decode_call_rejected_notification_def
          decode_connection_error_def decode_call_hangup_def decode_call_ended_notification_def
          decode_room_join_request_def decode_room_leave_request_def)
qed

lemma decode_decodes_well: "decodes_well E (decode E nanos counter data)"
proof (cases data)
  case Nil
  then show ?thesis by (simp add: decode_def decodes_well_def)
next
  case (Cons t r)
  then show ?thesis
    using decode_dispatch_decodes_well [of "t # r"]
    by (simp add: decode_Cons) (simp add: decodes_well_def)
qed

end

section \<open>Properties\<close>

text \<open>C2: decoding the encoding of any well-formed packet gives that packet back, for all 22
  packet types.\<close>

theorem packet_roundtrip:
  assumes "crate_laws E" and "wf_packet E p"
  shows "decode E nanos counter (encode E p) = Some (Ok p)"
  using crate_laws.decode_encode_packet [OF assms] .

theorem packet_roundtrip_witness:
  "decode std_crates 7 0 (encode std_crates
       (ServerTargetedAudio (from_bytes std_crates (replicate 32 0xAB)) 42
          (from_bytes std_crates (replicate 32 0x0F)) CODEC_OPUS [1, 2, 3]))
   = Some (Ok (ServerTargetedAudio (from_bytes std_crates (replicate 32 0xAB)) 42
          (from_bytes std_crates (replicate 32 0x0F)) CODEC_OPUS [1, 2, 3]))"
  by (rule packet_roundtrip [OF std.crate_laws_axioms])
     (simp add: std.canonical_from_bytes size_consts)

text \<open>C3: the decoder never panics, whatever bytes arrive: it returns an error or a packet, and
  a packet it returns is well-formed (32-byte canonical addresses, bounded payloads and
  speaker lists).\<close>

theorem decode_total:
  assumes "crate_laws E"
  shows "\<exists>r. decode E nanos counter data = Some r \<and> (case r of Inl _ \<Rightarrow> True | Inr p \<Rightarrow> wf_packet E p)"
  using crate_laws.decode_decodes_well [OF assms, of nanos counter data]
  by (auto simp: decodes_well_def split: option.splits sum.splits)

theorem decode_total_witness:
  "\<exists>r. decode std_crates 0 0 [0x04, 1, 2, 3] = Some r \<and> (case r of Inl _ \<Rightarrow> True | Inr p \<Rightarrow> wf_packet std_crates p)"
  by (rule decode_total [OF std.crate_laws_axioms])

text \<open>distinct well-formed packets have distinct encodings.\<close>

theorem encode_injective:
  assumes "crate_laws E" and "wf_packet E p" and "wf_packet E q"
  shows "encode E p = encode E q \<longleftrightarrow> p = q"
  using crate_laws.decode_encode_packet [OF assms(1,2), of 0 0]
    crate_laws.decode_encode_packet [OF assms(1,3), of 0 0]
  by (metis option.inject sum.inject(2))

theorem encode_injective_witness:
  "encode std_crates (CallHangup (from_bytes std_crates (replicate 32 1)))
     \<noteq> encode std_crates (CallHangup (from_bytes std_crates (replicate 32 2)))"
  using encode_injective [OF std.crate_laws_axioms, of "CallHangup (from_bytes std_crates (replicate 32 1))"
      "CallHangup (from_bytes std_crates (replicate 32 2))"]
  by (simp add: std.canonical_from_bytes std.from_bytes_inj)

text \<open>The fixed header length of each packet type and its variable part (WPIP-04, section 3).\<close>

fun packet_length :: "ProtocolPacket \<Rightarrow> nat" where
  "packet_length (ClientAssignment _ _) = 41"
| "packet_length (ClientTargetedAudio _ _ d) = 34 + length d"
| "packet_length (ServerTargetedAudio _ _ _ _ d) = 74 + length d"
| "packet_length (PeerTargetedAudio _ _ _ _ _ _ d) = 83 + length d"
| "packet_length (CallRequest _ _) = 41"
| "packet_length (RoomStateNotification _ _) = 37"
| "packet_length (RoomGroupAudio _ _ d) = 34 + length d"
| "packet_length (ActiveSpeakerNotice _ as) = 33 + 32 * length as"
| "packet_length (Ping _) = 9"
| "packet_length (Pong _) = 9"
| "packet_length (VideoFrameData _ _ d) = 34 + length d"
| "packet_length (RoomGroupAudioE2EE _ _ _ d) = 35 + length d"
| "packet_length (BroadcastAudio _ d) = 9 + length d"
| "packet_length _ = 33"

text \<open>an encoded packet has the length WPIP-04 tabulates, and a well-formed packet never
  exceeds the 1 MB limit that the decoder enforces.\<close>

theorem encode_length:
  assumes "bytes_laws E"
  shows "length (encode E p) = packet_length p \<and> (wf_packet E p \<longrightarrow> packet_length p \<le> MAX_PACKET_SIZE)"
  by (cases p) (simp_all add: bytes_laws.encode_layout [OF assms] size_consts)

theorem encode_length_witness:
  "length (encode std_crates (RoomGroupAudioE2EE (from_bytes std_crates (replicate 32 1)) CODEC_OPUS 200 [1, 2])) = 37"
  using encode_length [OF std.bytes_laws_axioms,
      of "RoomGroupAudioE2EE (from_bytes std_crates (replicate 32 1)) CODEC_OPUS 200 [1, 2]"]
  by simp

text \<open>The tags of the protocol, with the legacy broadcast (0x00) and error (0xFF) tags.\<close>

definition known_tags :: "u8 list" where
  "known_tags = [0x00, 0x01, 0x02, 0x03, 0x04, 0x05, 0x06, 0x07, 0x08, 0x09, 0x0A, 0x0B, 0x0C,
     0x0D, 0x0E, 0x0F, 0x10, 0x11, 0x12, 0x13, 0x14, 0x15, 0xFF]"

text \<open>No decoder of a known tag reports an unknown tag.\<close>

definition not_unknown :: "decoded \<Rightarrow> bool" where
  "not_unknown r \<longleftrightarrow> (case r of Some (Inl (UnknownPacketType _)) \<Rightarrow> False | _ \<Rightarrow> True)"

lemma not_unknown_simps [simp]:
  "not_unknown None" "not_unknown (Some (Ok p))"
  "not_unknown (Some (Err (InsufficientLength a b c)))"
  "not_unknown (Some (Err (AudioPayloadTooLarge b c)))"
  "not_unknown (Some (Err (TooManySpeakers b c)))"
  "\<not> not_unknown (Some (Err (UnknownPacketType t)))"
  by (simp_all add: not_unknown_def)

lemma not_unknown_bind: "(\<And>x. m = Some x \<Longrightarrow> not_unknown (f x)) \<Longrightarrow> not_unknown (Option.bind m f)"
  by (cases m) simp_all

lemma not_unknown_decoders:
  "not_unknown (decode_client_assignment E nanos counter data t)"
  "not_unknown (decode_client_targeted_audio E data)" "not_unknown (decode_server_targeted_audio E data)"
  "not_unknown (decode_peer_targeted_audio E data)" "not_unknown (decode_call_request E data)"
  "not_unknown (decode_address_only_packet E data t c)"
  "not_unknown (decode_room_state_notification E data)" "not_unknown (decode_room_group_audio E data)"
  "not_unknown (decode_active_speaker_notice E data)" "not_unknown (decode_ping E data)"
  "not_unknown (decode_pong E data)" "not_unknown (decode_video_frame_data E data)"
  "not_unknown (decode_room_group_audio_e2ee E data)"
  by (auto simp: decoder_defs Let_def intro!: not_unknown_bind)

lemma dispatch_unknown_iff:
  "decode_dispatch E nanos counter data h = Some (Err (UnknownPacketType t)) \<longleftrightarrow> h = t \<and> t \<notin> set known_tags"
proof (cases "h \<in> set known_tags")
  case True
  then have "not_unknown (decode_dispatch E nanos counter data h)"
    by (auto simp: decode_dispatch_def known_tags_def not_unknown_decoders
          decode_call_accept_response_def decode_call_reject_response_def
          decode_call_accepted_notification_def decode_call_rejected_notification_def
          decode_connection_error_def decode_call_hangup_def decode_call_ended_notification_def
          decode_room_join_request_def decode_room_leave_request_def)
  with True show ?thesis by auto
next
  case False
  then have "decode_dispatch E nanos counter data h = Some (Err (UnknownPacketType h))"
    by (simp add: decode_dispatch_def known_tags_def)
  with False show ?thesis by auto
qed

text \<open>the decoder answers \<^verbatim>\<open>UnknownPacketType\<close> exactly for a packet within the size limit
  whose tag byte is none of the protocol's.\<close>

theorem unknown_tag_iff:
  "decode E nanos counter data = Some (Err (UnknownPacketType t)) \<longleftrightarrow>
           (\<exists>r. data = t # r) \<and> length data \<le> MAX_PACKET_SIZE \<and> t \<notin> set known_tags"
proof (cases data)
  case Nil
  then show ?thesis by (simp add: decode_def)
next
  case (Cons h r)
  then show ?thesis
    using dispatch_unknown_iff [of E nanos counter data h t]
    by (auto simp: decode_Cons)
qed

theorem unknown_tag_iff_witness:
  "decode std_crates 0 0 [0x99] = Some (Err (UnknownPacketType 0x99))"
  using unknown_tag_iff [of std_crates 0 0 "[0x99]" "0x99"]
  by (simp add: known_tags_def size_consts)

text \<open>the legacy broadcast (tag 0x00) shares its decoder with the client assignment, so a
  broadcast whose payload has 32 bytes or more is decoded as an assignment of the address
  spelled by its first 32 payload bytes; only shorter ones come back as broadcasts.\<close>

theorem broadcast_decoded_as_assignment:
  assumes "crate_laws E" and "length audio \<le> MAX_AUDIO_PAYLOAD_SIZE"
  shows "decode E nanos counter (encode E (BroadcastAudio sender audio)) =
           Some (Ok (if 32 \<le> length audio then ClientAssignment sender (from_bytes E (take 32 audio))
                     else BroadcastAudio sender audio))"
proof -
  have b: "bytes_laws E" using assms(1) by (simp add: crate_laws_def)
  show ?thesis
    using assms(2)
    by (simp add: bytes_laws.encode_layout [OF b] decode_Cons decode_dispatch_def
          decode_client_assignment_def size_consts bytes_laws.get_u64_append [OF b]
          bytes_laws.rest_of_all [OF b] bytes_laws.parse_user_address_eq [OF b])
qed

theorem broadcast_decoded_as_assignment_witness:
  "decode std_crates 0 0 (encode std_crates (BroadcastAudio 5 (replicate 40 9)))
     = Some (Ok (ClientAssignment 5 (from_bytes std_crates (replicate 32 9))))"
  using broadcast_decoded_as_assignment [OF std.crate_laws_axioms, of "replicate 40 9" 0 0 5]
  by (simp add: size_consts)

end
