(* ===== verification/WP_HashMap.thy ===== *)
theory WP_HashMap
  imports WP_Prelude "HOL-Library.Multiset"
begin

text \<open>
  \<^verbatim>\<open>std::collections::HashMap\<close>. A map is its list of entries with distinct keys; the order
  of the list is the order in which the map iterates. Rust's order is arbitrary and may
  change with every mutation, so no theorem of the development constrains the order of a
  map it starts from: a statement about every entry list is a statement about every order
  the hasher may choose, and \<open>hm_eqv\<close> relates the maps that differ in their order only.

  The locale \<open>hash_map\<close> is the interface the components rely on (what a lookup returns
  after each mutation, and that the keys stay distinct); it is interpreted on the entry
  lists below.
\<close>

section \<open>Operations\<close>

type_synonym ('k, 'v) hmap = "('k \<times> 'v) list"

definition hm_wf :: "('k, 'v) hmap \<Rightarrow> bool" where
  "hm_wf m \<longleftrightarrow> distinct (map fst m)"

definition hm_new :: "('k, 'v) hmap" where
  "hm_new = []"

definition hm_get :: "('k, 'v) hmap \<Rightarrow> 'k \<Rightarrow> 'v option" where
  "hm_get m k = map_of m k"

definition hm_contains_key :: "('k, 'v) hmap \<Rightarrow> 'k \<Rightarrow> bool" where
  "hm_contains_key m k \<longleftrightarrow> hm_get m k \<noteq> None"

definition hm_len :: "('k, 'v) hmap \<Rightarrow> nat" where
  "hm_len m = length m"

fun hm_insert :: "'k \<Rightarrow> 'v \<Rightarrow> ('k, 'v) hmap \<Rightarrow> ('k, 'v) hmap" where
  "hm_insert k v [] = [(k, v)]"
| "hm_insert k v ((k', v') # m) = (if k' = k then (k, v) # m else (k', v') # hm_insert k v m)"

definition hm_remove :: "'k \<Rightarrow> ('k, 'v) hmap \<Rightarrow> ('k, 'v) hmap" where
  "hm_remove k m = filter (\<lambda>(k', _). k' \<noteq> k) m"

text \<open>\<^verbatim>\<open>retain\<close>: keep the entries the closure accepts.\<close>

definition hm_retain :: "('k \<Rightarrow> 'v \<Rightarrow> bool) \<Rightarrow> ('k, 'v) hmap \<Rightarrow> ('k, 'v) hmap" where
  "hm_retain P m = filter (\<lambda>(k, v). P k v) m"

text \<open>\<^verbatim>\<open>values_mut\<close>: update every value in place.\<close>

definition hm_map_values :: "('v \<Rightarrow> 'v) \<Rightarrow> ('k, 'v) hmap \<Rightarrow> ('k, 'v) hmap" where
  "hm_map_values f m = map (\<lambda>(k, v). (k, f v)) m"

text \<open>\<^verbatim>\<open>if let Some(v) = m.get_mut(k) { .. }\<close>: update one value in place when it is there.\<close>

definition hm_modify :: "'k \<Rightarrow> ('v \<Rightarrow> 'v) \<Rightarrow> ('k, 'v) hmap \<Rightarrow> ('k, 'v) hmap" where
  "hm_modify k f m = map (\<lambda>(k', v). (k', if k' = k then f v else v)) m"

text \<open>\<^verbatim>\<open>entry(k).or_insert(d)\<close> / \<^verbatim>\<open>or_default\<close>: make sure the key has a value.\<close>

definition hm_or_insert :: "'k \<Rightarrow> 'v \<Rightarrow> ('k, 'v) hmap \<Rightarrow> ('k, 'v) hmap" where
  "hm_or_insert k d m = (if hm_contains_key m k then m else hm_insert k d m)"

definition hm_keys :: "('k, 'v) hmap \<Rightarrow> 'k list" where
  "hm_keys m = map fst m"

definition hm_values :: "('k, 'v) hmap \<Rightarrow> 'v list" where
  "hm_values m = map snd m"

text \<open>Two maps with the same entries, possibly in another iteration order.\<close>

definition hm_eqv :: "('k, 'v) hmap \<Rightarrow> ('k, 'v) hmap \<Rightarrow> bool" where
  "hm_eqv m m' \<longleftrightarrow> mset m = mset m'"

section \<open>Lookup after mutation\<close>

lemma hm_get_new [hm_simps]: "hm_get hm_new k = None"
  by (simp add: hm_get_def hm_new_def)

lemma hm_get_insert [hm_simps]: "hm_get (hm_insert k v m) k' = (if k' = k then Some v else hm_get m k')"
  by (induction m) (auto simp: hm_get_def)

lemma hm_get_retain_None: "hm_get m k = None \<Longrightarrow> hm_get (hm_retain P m) k = None"
  by (auto simp: hm_get_def hm_retain_def map_of_eq_None_iff)

lemma hm_get_retain [hm_simps]:
  "hm_wf m \<Longrightarrow> hm_get (hm_retain P m) k =
     (case hm_get m k of None \<Rightarrow> None | Some v \<Rightarrow> if P k v then Some v else None)"
  unfolding hm_wf_def hm_get_def hm_retain_def
  by (induction m) (auto simp: map_of_eq_None_iff split: option.splits)

lemma hm_remove_retain: "hm_remove k m = hm_retain (\<lambda>k' _. k' \<noteq> k) m"
  by (simp add: hm_remove_def hm_retain_def)

lemma hm_get_remove [hm_simps]: "hm_get (hm_remove k m) k' = (if k' = k then None else hm_get m k')"
  unfolding hm_get_def hm_remove_def by (induction m) auto

lemma hm_get_map_values [hm_simps]: "hm_get (hm_map_values f m) k = map_option f (hm_get m k)"
  unfolding hm_get_def hm_map_values_def by (induction m) auto

lemma hm_get_modify [hm_simps]:
  "hm_get (hm_modify k f m) k' = (if k' = k then map_option f (hm_get m k) else hm_get m k')"
  unfolding hm_get_def hm_modify_def by (induction m) auto

lemma hm_get_or_insert [hm_simps]:
  "hm_get (hm_or_insert k d m) k' =
     (if k' = k then Some (case hm_get m k of None \<Rightarrow> d | Some v \<Rightarrow> v) else hm_get m k')"
  by (auto simp: hm_or_insert_def hm_contains_key_def hm_get_insert split: option.splits)

section \<open>Distinct keys\<close>

lemma hm_wf_new [simp]: "hm_wf hm_new"
  by (simp add: hm_wf_def hm_new_def)

lemma hm_insert_keys: "fst ` set (hm_insert k v m) = insert k (fst ` set m)"
  by (induction k v m rule: hm_insert.induct) (simp_all add: insert_commute)

lemma hm_wf_insert [simp]: "hm_wf m \<Longrightarrow> hm_wf (hm_insert k v m)"
  unfolding hm_wf_def
  by (induction m) (auto simp: hm_insert_keys image_iff)

lemma hm_wf_retain [simp]: "hm_wf m \<Longrightarrow> hm_wf (hm_retain P m)"
  by (simp add: hm_wf_def hm_retain_def distinct_map_filter)

lemma hm_wf_remove [simp]: "hm_wf m \<Longrightarrow> hm_wf (hm_remove k m)"
  by (simp add: hm_remove_retain)

lemma hm_wf_map_values [simp]: "hm_wf (hm_map_values f m) = hm_wf m"
  by (simp add: hm_wf_def hm_map_values_def comp_def case_prod_beta)

lemma hm_wf_modify [simp]: "hm_wf (hm_modify k f m) = hm_wf m"
  by (simp add: hm_wf_def hm_modify_def comp_def case_prod_beta)

lemma hm_wf_or_insert [simp]: "hm_wf m \<Longrightarrow> hm_wf (hm_or_insert k d m)"
  by (simp add: hm_or_insert_def)

section \<open>Entries\<close>

lemma hm_get_Some_in: "hm_get m k = Some v \<Longrightarrow> (k, v) \<in> set m"
  by (simp add: hm_get_def map_of_SomeD)

lemma hm_in_get: "hm_wf m \<Longrightarrow> (k, v) \<in> set m \<longleftrightarrow> hm_get m k = Some v"
  by (simp add: hm_wf_def hm_get_def)

lemma hm_keys_iff: "k \<in> set (hm_keys m) \<longleftrightarrow> hm_get m k \<noteq> None"
  by (simp add: hm_keys_def hm_get_def map_of_eq_None_iff)

lemma hm_len_insert:
  "hm_len (hm_insert k v m) = (if hm_get m k = None then Suc (hm_len m) else hm_len m)"
  unfolding hm_len_def hm_get_def by (induction m) auto

lemma hm_len_retain_le: "hm_len (hm_retain P m) \<le> hm_len m"
  by (simp add: hm_len_def hm_retain_def)

lemma hm_len_remove_le: "hm_len (hm_remove k m) \<le> hm_len m"
  by (simp add: hm_remove_retain hm_len_retain_le)

lemma hm_set_insert: "(k', v') \<in> set (hm_insert k v m) \<Longrightarrow> (k', v') = (k, v) \<or> (k', v') \<in> set m"
  by (induction m) (auto split: if_splits)

lemma hm_set_retain: "(k, v) \<in> set (hm_retain P m) \<longleftrightarrow> (k, v) \<in> set m \<and> P k v"
  by (auto simp: hm_retain_def)

text \<open>A property of every entry, kept by the mutations.\<close>

definition hm_all :: "('k \<Rightarrow> 'v \<Rightarrow> bool) \<Rightarrow> ('k, 'v) hmap \<Rightarrow> bool" where
  "hm_all P m \<longleftrightarrow> list_all (\<lambda>(k, v). P k v) m"

lemma hm_all_iff: "hm_wf m \<Longrightarrow> hm_all P m \<longleftrightarrow> (\<forall>k v. hm_get m k = Some v \<longrightarrow> P k v)"
  by (auto simp: hm_all_def list_all_iff hm_in_get)

lemma hm_all_get: "hm_all P m \<Longrightarrow> hm_get m k = Some v \<Longrightarrow> P k v"
  by (auto simp: hm_all_def list_all_iff dest: hm_get_Some_in)

lemma hm_all_new [simp]: "hm_all P hm_new"
  by (simp add: hm_all_def hm_new_def)

lemma hm_all_insert [intro]: "hm_all P m \<Longrightarrow> P k v \<Longrightarrow> hm_all P (hm_insert k v m)"
  by (auto simp: hm_all_def list_all_iff dest: hm_set_insert)

lemma hm_all_retain [intro]: "hm_all P m \<Longrightarrow> hm_all P (hm_retain Q m)"
  by (auto simp: hm_all_def list_all_iff hm_retain_def)

lemma hm_all_remove [intro]: "hm_all P m \<Longrightarrow> hm_all P (hm_remove k m)"
  by (auto simp: hm_remove_retain)

lemma hm_all_or_insert [intro]: "hm_all P m \<Longrightarrow> P k d \<Longrightarrow> hm_all P (hm_or_insert k d m)"
  by (auto simp: hm_or_insert_def)

lemma hm_all_modify [intro]:
  "hm_all P m \<Longrightarrow> (\<And>v. P k v \<Longrightarrow> P k (f v)) \<Longrightarrow> hm_all P (hm_modify k f m)"
  by (fastforce simp: hm_all_def list_all_iff hm_modify_def)

lemma hm_all_map_values [intro]:
  "hm_all P m \<Longrightarrow> (\<And>k v. P k v \<Longrightarrow> P k (f v)) \<Longrightarrow> hm_all P (hm_map_values f m)"
  by (fastforce simp: hm_all_def list_all_iff hm_map_values_def)

text \<open>A reordering of the entries changes no lookup.\<close>

lemma hm_eqv_get: "hm_wf m \<Longrightarrow> hm_eqv m m' \<Longrightarrow> hm_get m' k = hm_get m k"
proof -
  assume wf: "hm_wf m" and eqv: "hm_eqv m m'"
  from eqv have "mset (map fst m) = mset (map fst m')"
    by (simp add: hm_eqv_def)
  with wf have wf': "hm_wf m'"
    unfolding hm_wf_def by (metis mset_eq_imp_distinct_iff)
  from eqv have "set m = set m'"
    by (metis hm_eqv_def mset_eq_setD)
  then show ?thesis
    using wf wf' hm_in_get [of m k] hm_in_get [of m' k] by (metis not_Some_eq)
qed

section \<open>The interface\<close>

locale hash_map =
  fixes wf :: "'m \<Rightarrow> bool"
    and new :: 'm
    and get :: "'m \<Rightarrow> 'k \<Rightarrow> 'v option"
    and insert :: "'k \<Rightarrow> 'v \<Rightarrow> 'm \<Rightarrow> 'm"
    and remove :: "'k \<Rightarrow> 'm \<Rightarrow> 'm"
    and retain :: "('k \<Rightarrow> 'v \<Rightarrow> bool) \<Rightarrow> 'm \<Rightarrow> 'm"
  assumes wf_new: "wf new"
    and wf_insert: "wf m \<Longrightarrow> wf (insert k v m)"
    and wf_remove: "wf m \<Longrightarrow> wf (remove k m)"
    and wf_retain: "wf m \<Longrightarrow> wf (retain P m)"
    and get_new: "get new k = None"
    and get_insert: "wf m \<Longrightarrow> get (insert k v m) k' = (if k' = k then Some v else get m k')"
    and get_remove: "wf m \<Longrightarrow> get (remove k m) k' = (if k' = k then None else get m k')"
    and get_retain: "wf m \<Longrightarrow> get (retain P m) k =
          (case get m k of None \<Rightarrow> None | Some v \<Rightarrow> if P k v then Some v else None)"
begin

text \<open>What the clients of a map use: an insert is seen, other keys are framed, a removed
  key is gone, and a retain never invents or changes an entry.\<close>

lemma get_insert_same: "wf m \<Longrightarrow> get (insert k v m) k = Some v"
  by (simp add: get_insert)

lemma get_insert_other: "wf m \<Longrightarrow> k' \<noteq> k \<Longrightarrow> get (insert k v m) k' = get m k'"
  by (simp add: get_insert)

lemma remove_after_insert: "wf m \<Longrightarrow> get (remove k (insert k v m)) k' = get (remove k m) k'"
  by (simp add: get_remove get_insert wf_insert)

lemma retain_sound: "wf m \<Longrightarrow> get (retain P m) k = Some v \<Longrightarrow> get m k = Some v \<and> P k v"
  by (auto simp: get_retain split: option.splits if_splits)

lemma retain_retain:
  "wf m \<Longrightarrow> get (retain P (retain Q m)) k = get (retain (\<lambda>k v. P k v \<and> Q k v) m) k"
  by (auto simp: get_retain wf_retain split: option.splits)

end

interpretation hm: hash_map hm_wf hm_new hm_get hm_insert hm_remove hm_retain
  by unfold_locales (auto simp: hm_simps)

end
