(* ===== verification/WP_Float.thy ===== *)
theory WP_Float
  imports WP_Prelude "HOL-Library.Log_Nat"
begin

text \<open>
  The finite IEEE 754 doubles the daemon computes with (token buckets, audio energies), as reals:
  every arithmetic operation of the source is the exact operation followed by \<open>f64_round\<close>, which
  rounds to 53 significant bits, ties to even. The values that occur lie far inside the range
  of normal doubles, so neither overflow nor subnormals are represented.
  The lemmas give what the components use: rounding is monotone, exact on integers up to
  \<open>2 ^ 53\<close> and has relative error at most \<open>2 ^ -53\<close>.
\<close>

section \<open>Definitions\<close>

definition pow2 :: "int \<Rightarrow> real" where
  "pow2 k = (if 0 \<le> k then 2 ^ nat k else 1 / 2 ^ nat (- k))"

text \<open>The exponent of \<open>x\<close>: \<open>pow2 (f64_exponent x) \<le> \<bar>x\<bar> < pow2 (f64_exponent x + 1)\<close>.\<close>

definition f64_exponent :: "real \<Rightarrow> int" where
  "f64_exponent x =
     (if 1 \<le> \<bar>x\<bar> then bitlen \<lfloor>\<bar>x\<bar>\<rfloor> - 1 else - bitlen (\<lceil>1 / \<bar>x\<bar>\<rceil> - 1))"

definition round_half_even :: "real \<Rightarrow> int" where
  "round_half_even r =
     (let f = \<lfloor>r\<rfloor>; d = r - of_int f in
      if d < 1 / 2 \<or> d = 1 / 2 \<and> even f then f else f + 1)"

definition f64_round :: "real \<Rightarrow> real" where
  "f64_round x =
     (if x = 0 then 0
      else (let u = pow2 (f64_exponent x - 52) in of_int (round_half_even (x / u)) * u))"

text \<open>\<^verbatim>\<open>Duration::as_secs_f64\<close> of a duration in nanoseconds.\<close>

definition as_secs_f64 :: "nat \<Rightarrow> real" where
  "as_secs_f64 ns =
     f64_round (f64_round (real (ns div 1000000000)) + f64_round (real (ns mod 1000000000) / 1000000000))"

text \<open>\<^verbatim>\<open>f64::sqrt\<close> is correctly rounded: the integer square root of the scaled argument, rounded by
  comparing squares, so that it evaluates without irrational numbers.\<close>

fun isqrt :: "nat \<Rightarrow> nat" where
  "isqrt n =
     (if n = 0 then 0
      else (let r = 2 * isqrt (n div 4) in if (r + 1) * (r + 1) \<le> n then r + 1 else r))"

declare isqrt.simps [simp del]

definition f64_sqrt :: "real \<Rightarrow> real" where
  "f64_sqrt x =
     (if x \<le> 0 then 0
      else (let u = pow2 (f64_exponent x div 2 - 52); y = x / (u * u); q = isqrt (nat \<lfloor>y\<rfloor>); h = real q + 1 / 2
            in real (if y < h * h \<or> y = h * h \<and> even q then q else q + 1) * u))"

text \<open>\<^verbatim>\<open>f32::from_le_bytes\<close> of four bytes; \<open>None\<close> is NaN or an infinity.\<close>

definition f32_from_le_bytes :: "bytes \<Rightarrow> real option" where
  "f32_from_le_bytes bs =
     (let bits = le_nat bs;
          sign = (if bits div 2 ^ 31 mod 2 = 1 then - 1 else 1);
          ex = bits div 2 ^ 23 mod 256;
          man = bits mod 2 ^ 23
      in if ex = 255 then None
         else if ex = 0 then Some (sign * real man * pow2 (- 149))
         else Some (sign * real (2 ^ 23 + man) * pow2 (int ex - 150)))"

section \<open>Lemmas\<close>

lemma pow2_pos [simp]: "0 < pow2 k" "pow2 k \<noteq> 0" "0 \<le> pow2 k"
  by (simp_all add: pow2_def)

lemma pow2_powr: "pow2 k = 2 powr (of_int k)"
proof (cases "0 \<le> k")
  case True
  then show ?thesis by (simp add: pow2_def powr_realpow flip: powr_realpow)
next
  case False
  then have "2 powr real_of_int k = inverse (2 powr real (nat (- k)))"
    by (simp flip: powr_minus)
  also have "2 powr real (nat (- k)) = (2 :: real) ^ nat (- k)" by (rule powr_realpow) simp
  finally show ?thesis using False by (simp add: pow2_def divide_inverse)
qed

lemma pow2_add: "pow2 (a + b) = pow2 a * pow2 b"
  by (simp add: pow2_powr powr_add)

lemma pow2_mono: "a \<le> b \<Longrightarrow> pow2 a \<le> pow2 b"
  by (simp add: pow2_powr)

lemma pow2_nonneg_power: "0 \<le> k \<Longrightarrow> pow2 k = of_int (2 ^ nat k)"
  by (simp add: pow2_def)

lemma pow2_le_iff: "pow2 a \<le> pow2 b \<longleftrightarrow> a \<le> b"
  by (simp add: pow2_powr)

lemma bitlen_pos_bounds:
  assumes "1 \<le> n"
  shows "1 \<le> bitlen n" and "(2 :: real) ^ nat (bitlen n - 1) \<le> of_int n" and "of_int n + 1 \<le> (2 :: real) ^ nat (bitlen n)"
proof -
  have b: "2 ^ nat (bitlen n - 1) \<le> n" "n + 1 \<le> 2 ^ nat (bitlen n)"
    using assms bitlen_bounds [of n] by auto
  show "1 \<le> bitlen n" using assms by (simp add: bitlen_alt_def)
  show "(2 :: real) ^ nat (bitlen n - 1) \<le> of_int n" using b(1) by simp
  have "real_of_int (n + 1) \<le> (2 :: real) ^ nat (bitlen n)" using b(2) by (simp del: of_int_add)
  then show "of_int n + 1 \<le> (2 :: real) ^ nat (bitlen n)" by (simp only: of_int_add of_int_1)
qed

lemma exponent_ge_1:
  assumes "1 \<le> \<bar>x\<bar>"
  shows "pow2 (f64_exponent x) \<le> \<bar>x\<bar> \<and> \<bar>x\<bar> < pow2 (f64_exponent x + 1)"
proof -
  define n where "n = \<lfloor>\<bar>x\<bar>\<rfloor>"
  have n: "1 \<le> n" "real_of_int n \<le> \<bar>x\<bar>" "\<bar>x\<bar> < real_of_int n + 1"
    using assms by (simp_all add: n_def)
  note b = bitlen_pos_bounds [OF n(1)]
  have "f64_exponent x = bitlen n - 1" using assms by (simp add: f64_exponent_def n_def)
  moreover have "pow2 (bitlen n - 1) = 2 ^ nat (bitlen n - 1)" "pow2 (bitlen n) = 2 ^ nat (bitlen n)"
    using b(1) by (simp_all add: pow2_def)
  moreover have "(2 :: real) ^ nat (bitlen n - 1) \<le> \<bar>x\<bar>" by (rule order_trans [OF b(2) n(2)])
  ultimately show ?thesis using n(3) b(3) by simp
qed

lemma exponent_lt_1:
  assumes "x \<noteq> 0" and "\<not> 1 \<le> \<bar>x\<bar>"
  shows "pow2 (f64_exponent x) \<le> \<bar>x\<bar> \<and> \<bar>x\<bar> < pow2 (f64_exponent x + 1)"
proof -
  define y where "y = 1 / \<bar>x\<bar>"
  define n where "n = \<lceil>y\<rceil> - 1"
  have y: "1 < y" "\<bar>x\<bar> = 1 / y"
    using assms by (auto simp: y_def)
  have n: "1 \<le> n" "real_of_int n < y" "y \<le> real_of_int n + 1"
    using y(1) by (simp_all add: n_def) linarith
  note b = bitlen_pos_bounds [OF n(1)]
  have e: "f64_exponent x = - bitlen n" using assms by (simp add: f64_exponent_def n_def y_def)
  have "pow2 (- bitlen n) = 1 / 2 ^ nat (bitlen n)"
    using b(1) by (simp add: pow2_def)
  then have 1: "pow2 (f64_exponent x) \<le> \<bar>x\<bar>"
    using e y n(3) b(3) by (simp add: frac_le)
  have "pow2 (- bitlen n + 1) = 1 / 2 ^ nat (bitlen n - 1)"
    using b(1) by (simp add: pow2_def)
  then have "\<bar>x\<bar> < pow2 (f64_exponent x + 1)"
    using e y order_le_less_trans [OF b(2) n(2)] by (simp add: frac_less2)
  with 1 show ?thesis ..
qed

lemma exponent_bounds:
  assumes "x \<noteq> 0"
  shows "pow2 (f64_exponent x) \<le> \<bar>x\<bar>" and "\<bar>x\<bar> < pow2 (f64_exponent x + 1)"
  using assms exponent_ge_1 [of x] exponent_lt_1 [of x] by blast+

lemma exponent_mono:
  assumes "0 < x" and "x \<le> y"
  shows "f64_exponent x \<le> f64_exponent y"
proof -
  have "pow2 (f64_exponent x) < pow2 (f64_exponent y + 1)"
    using exponent_bounds(1) [of x] exponent_bounds(2) [of y] assms by simp
  then show ?thesis using pow2_le_iff [of "f64_exponent y + 1" "f64_exponent x"] by simp
qed

lemma round_half_even_int [simp]: "round_half_even (of_int n) = n"
  by (simp add: round_half_even_def)

lemma round_half_even_mono:
  assumes "r \<le> s"
  shows "round_half_even r \<le> round_half_even s"
proof (cases "\<lfloor>r\<rfloor> = \<lfloor>s\<rfloor>")
  case True
  then show ?thesis using assms by (auto simp: round_half_even_def Let_def)
next
  case False
  then have "\<lfloor>r\<rfloor> + 1 \<le> \<lfloor>s\<rfloor>" using floor_mono [OF assms] by simp
  then show ?thesis by (auto simp: round_half_even_def Let_def)
qed

lemma round_half_even_error: "\<bar>of_int (round_half_even r) - r\<bar> \<le> 1 / 2"
  using of_int_floor_le [of r] floor_correct [of r] by (auto simp: round_half_even_def Let_def abs_le_iff)

lemma f64_round_0 [simp]: "f64_round 0 = 0"
  by (simp add: f64_round_def)

lemma f64_round_error: "\<bar>f64_round x - x\<bar> \<le> \<bar>x\<bar> / 2 ^ 53"
proof (cases "x = 0")
  case False
  define u where "u = pow2 (f64_exponent x - 52)"
  have u: "0 < u" by (simp add: u_def)
  have x: "x = (x / u) * u" using u by simp
  have "f64_round x - x = (of_int (round_half_even (x / u)) - x / u) * u"
    using False u by (simp add: f64_round_def Let_def left_diff_distrib flip: u_def)
  then have "\<bar>f64_round x - x\<bar> = \<bar>of_int (round_half_even (x / u)) - x / u\<bar> * u"
    using u by (simp add: abs_mult)
  also have "\<dots> \<le> 1 / 2 * u"
    using u round_half_even_error by (intro mult_right_mono) auto
  also have "u = pow2 (f64_exponent x) / 2 ^ 52"
    unfolding u_def diff_conv_add_uminus pow2_add by (simp add: pow2_def)
  also have "1 / 2 * (pow2 (f64_exponent x) / 2 ^ 52) \<le> \<bar>x\<bar> / 2 ^ 53"
    using exponent_bounds(1) [OF False] by simp
  finally show ?thesis .
qed simp

lemma f64_round_upper: "0 \<le> x \<Longrightarrow> f64_round x \<le> x * (1 + 1 / 2 ^ 53)"
  using f64_round_error [of x] abs_le_D1 [of "f64_round x - x" "x / 2 ^ 53"] by (simp add: distrib_left)

lemma f64_round_nonneg: "0 \<le> x \<Longrightarrow> 0 \<le> f64_round x"
  using f64_round_error [of x] abs_le_D2 [of "f64_round x - x" "x / 2 ^ 53"] by simp

text \<open>Integers of up to 53 bits, and more generally multiples of the unit in the last place, are
  represented exactly.\<close>

lemma f64_round_multiple:
  assumes "x = of_int n * pow2 k" and "\<bar>x\<bar> \<le> pow2 (k + 53)"
  shows "f64_round x = x"
proof (cases "x = 0")
  case False
  have "pow2 (f64_exponent x) \<le> pow2 (k + 53)"
    using exponent_bounds(1) [OF False] assms(2) by linarith
  then have e: "f64_exponent x \<le> k + 53" by (simp add: pow2_le_iff)
  define u where "u = pow2 (f64_exponent x - 52)"
  have u: "u \<noteq> 0" by (simp add: u_def)
  show ?thesis
  proof (cases "f64_exponent x - 52 \<le> k")
    case True
    have "pow2 k = pow2 (k - (f64_exponent x - 52)) * u"
      unfolding u_def by (simp flip: pow2_add)
    then have "x = of_int (n * 2 ^ nat (k - (f64_exponent x - 52))) * u"
      using arg_cong [OF assms(1), of "\<lambda>z. z"] True by (simp add: pow2_nonneg_power)
    then have "x / u = of_int (n * 2 ^ nat (k - (f64_exponent x - 52)))"
      using u by (metis nonzero_mult_div_cancel_right)
    then have "of_int (round_half_even (x / u)) = x / u" by (simp only: round_half_even_int)
    then show ?thesis using False by (simp add: f64_round_def Let_def flip: u_def) (simp add: u_def)
  next
    case False
    then have "f64_exponent x = k + 53" using e by simp
    then have ex: "\<bar>x\<bar> = pow2 (k + 53)"
      using exponent_bounds(1) [OF \<open>x \<noteq> 0\<close>] assms(2) by simp
    have up: "u = pow2 (k + 1)" using \<open>f64_exponent x = k + 53\<close> by (simp add: u_def add.commute)
    have "pow2 (k + 53) = 2 ^ 52 * u"
      unfolding up using pow2_add [of "k + 1" 52] by (simp add: pow2_def [of 52] algebra_simps)
    then have "x = of_int (2 ^ 52) * u \<or> x = of_int (- (2 ^ 52)) * u"
      using ex by (cases "0 \<le> x") simp_all
    then have "x / u = of_int (2 ^ 52) \<or> x / u = of_int (- (2 ^ 52))"
      using u nonzero_mult_div_cancel_right [of u] by metis
    then have "of_int (round_half_even (x / u)) = x / u" by (metis round_half_even_int)
    then show ?thesis using \<open>x \<noteq> 0\<close> by (simp add: f64_round_def Let_def flip: u_def) (simp add: u_def)
  qed
qed simp

lemma f64_round_int:
  assumes "\<bar>n\<bar> \<le> 2 ^ 53"
  shows "f64_round (of_int n) = of_int n"
proof -
  have "\<bar>real_of_int n\<bar> \<le> 2 ^ 53" using assms of_int_le_iff [of "\<bar>n\<bar>" "2 ^ 53", where ?'a = real] by simp
  then show ?thesis by (intro f64_round_multiple [of _ n 0]) (simp_all add: pow2_def)
qed

lemma f64_round_nat: "n \<le> 2 ^ 53 \<Longrightarrow> f64_round (real n) = real n"
  using f64_round_int [of "int n"] by simp

lemma f64_round_numeral [simp]: "numeral n \<le> (2 ^ 53 :: nat) \<Longrightarrow> f64_round (numeral n) = numeral n"
  using f64_round_nat [of "numeral n"] by simp

lemma f64_round_1 [simp]: "f64_round 1 = 1"
  using f64_round_nat [of 1] by simp

lemma f64_round_mono:
  assumes "0 \<le> x" and "x \<le> y"
  shows "f64_round x \<le> f64_round y"
proof (cases "x = 0")
  case True
  then show ?thesis using f64_round_nonneg assms by simp
next
  case False
  then have x: "0 < x" "0 < y" using assms by simp_all
  define e f where "e = f64_exponent x" and "f = f64_exponent y"
  have ef: "e \<le> f" using exponent_mono x(1) assms(2) by (simp add: e_def f_def)
  have rx: "f64_round x = of_int (round_half_even (x / pow2 (e - 52))) * pow2 (e - 52)"
    and ry: "f64_round y = of_int (round_half_even (y / pow2 (f - 52))) * pow2 (f - 52)"
    using x by (simp_all add: f64_round_def Let_def e_def f_def)
  show ?thesis
  proof (cases "e = f")
    case True
    have "round_half_even (x / pow2 (f - 52)) \<le> round_half_even (y / pow2 (f - 52))"
      by (intro round_half_even_mono divide_right_mono assms(2)) simp
    then show ?thesis unfolding rx ry True by (intro mult_right_mono) simp_all
  next
    case False
    have p: "pow2 (e + 1) = of_int (2 ^ 53) * pow2 (e - 52)" "pow2 f = of_int (2 ^ 52) * pow2 (f - 52)"
      using pow2_add [of 53 "e - 52"] pow2_add [of 52 "f - 52"] by (simp_all add: pow2_def add.commute)
    have "x / pow2 (e - 52) \<le> of_int (2 ^ 53)"
      using exponent_bounds(2) [of x] x p(1) by (simp add: e_def field_simps)
    then have "round_half_even (x / pow2 (e - 52)) \<le> 2 ^ 53"
      using round_half_even_mono round_half_even_int by metis
    then have 1: "f64_round x \<le> pow2 (e + 1)"
      unfolding rx p(1) by (intro mult_right_mono) (auto simp only: of_int_le_iff pow2_pos)
    have "of_int (2 ^ 52) \<le> y / pow2 (f - 52)"
      using exponent_bounds(1) [of y] x p(2) by (simp add: f_def field_simps)
    then have "2 ^ 52 \<le> round_half_even (y / pow2 (f - 52))"
      using round_half_even_mono round_half_even_int by metis
    then have 2: "pow2 f \<le> f64_round y"
      unfolding ry p(2) by (intro mult_right_mono) (auto simp only: of_int_le_iff pow2_pos)
    have "pow2 (e + 1) \<le> pow2 f" using ef False by (intro pow2_mono) simp
    then show ?thesis using 1 2 by linarith
  qed
qed

lemma as_secs_f64_0 [simp]: "as_secs_f64 0 = 0"
  by (simp add: as_secs_f64_def)

lemma as_secs_f64_nonneg [simp]: "0 \<le> as_secs_f64 ns"
  by (simp add: as_secs_f64_def f64_round_nonneg)

lemma as_secs_f64_ge:
  assumes "n \<le> ns div 1000000000" and "n \<le> 2 ^ 53"
  shows "real n \<le> as_secs_f64 ns"
proof -
  have "real n \<le> f64_round (real (ns div 1000000000))"
    using f64_round_mono [of "real n" "real (ns div 1000000000)"] f64_round_nat [OF assms(2)] assms(1) by simp
  moreover have "0 \<le> f64_round (real (ns mod 1000000000) / 1000000000)"
    by (simp add: f64_round_nonneg)
  ultimately have "real n \<le> f64_round (real (ns div 1000000000)) + f64_round (real (ns mod 1000000000) / 1000000000)"
    by linarith
  then show ?thesis
    using f64_round_mono [of "real n"] f64_round_nat [OF assms(2)] by (fastforce simp: as_secs_f64_def)
qed

lemma as_secs_f64_upper: "as_secs_f64 ns \<le> real ns / 1000000000 * (1 + 1 / 2 ^ 53) ^ 2"
proof -
  let ?d = "1 + 1 / 2 ^ 53 :: real"
  have ns: "real ns / 1000000000 = real (ns div 1000000000) + real (ns mod 1000000000) / 1000000000"
  proof -
    have "real ns = real (ns div 1000000000 * 1000000000 + ns mod 1000000000)" by (simp only: div_mult_mod_eq)
    then show ?thesis by (simp only: of_nat_add of_nat_mult of_nat_numeral) (simp add: field_simps)
  qed
  have "f64_round (real (ns div 1000000000)) + f64_round (real (ns mod 1000000000) / 1000000000)
          \<le> real ns / 1000000000 * ?d"
    using f64_round_upper [of "real (ns div 1000000000)"] f64_round_upper [of "real (ns mod 1000000000) / 1000000000"]
    unfolding ns by (simp add: distrib_right)
  then have "as_secs_f64 ns \<le> f64_round (real ns / 1000000000 * ?d)"
    unfolding as_secs_f64_def by (intro f64_round_mono add_nonneg_nonneg f64_round_nonneg) simp_all
  also have "\<dots> \<le> real ns / 1000000000 * ?d * ?d"
    by (intro f64_round_upper) simp
  finally show ?thesis by (simp only: power2_eq_square mult.assoc)
qed

section \<open>Square roots\<close>

lemma isqrt_bounds: "isqrt n * isqrt n \<le> n \<and> n < (isqrt n + 1) * (isqrt n + 1)"
proof (induction n rule: isqrt.induct)
  case (1 n)
  show ?case
  proof (cases "n = 0")
    case False
    define r where "r = isqrt (n div 4)"
    have IH: "r * r \<le> n div 4" "n div 4 < (r + 1) * (r + 1)"
      using 1 False by (simp_all add: r_def)
    have a: "4 * (n div 4) \<le> n" "n < 4 * (n div 4) + 4" by linarith+
    have lo: "4 * (r * r) \<le> n" using IH(1) a(1) by linarith
    have "n div 4 + 1 \<le> (r + 1) * (r + 1)" using IH(2) by simp
    then have hi: "n < 4 * ((r + 1) * (r + 1))" using a(2) by linarith
    show ?thesis
      using False lo hi by (subst (1 2 3 4) isqrt.simps) (auto simp: Let_def algebra_simps simp flip: r_def)
  qed (simp add: isqrt.simps)
qed

lemma isqrt_floor:
  assumes "0 \<le> y"
  shows "int (isqrt (nat \<lfloor>y\<rfloor>)) = \<lfloor>sqrt y\<rfloor>"
proof -
  define q where "q = isqrt (nat \<lfloor>y\<rfloor>)"
  have "q * q \<le> nat \<lfloor>y\<rfloor>" "nat \<lfloor>y\<rfloor> < (q + 1) * (q + 1)" using isqrt_bounds by (simp_all add: q_def)
  then have "real (q * q) \<le> y" "y < real ((q + 1) * (q + 1))"
    using assms by (simp_all add: le_nat_floor nat_less_iff floor_less_iff le_nat_iff le_floor_iff)
  then have "real q \<le> sqrt y" "sqrt y < real q + 1"
    using real_less_lsqrt [of "real q + 1" y] by (auto simp: real_le_rsqrt power2_eq_square algebra_simps)
  then show ?thesis unfolding q_def [symmetric] by (intro floor_unique [symmetric]) auto
qed

lemma exponent_unique:
  assumes "pow2 e \<le> x" and "x < pow2 (e + 1)"
  shows "f64_exponent x = e"
proof -
  have x: "0 < x" using assms(1) pow2_pos(1) [of e] by linarith
  have "pow2 (f64_exponent x) \<le> x" "x < pow2 (f64_exponent x + 1)"
    using exponent_bounds [of x] x by simp_all
  then have "pow2 (f64_exponent x) < pow2 (e + 1)" "pow2 e < pow2 (f64_exponent x + 1)"
    using assms by linarith+
  then show ?thesis using pow2_le_iff [of "e + 1" "f64_exponent x"] pow2_le_iff [of "f64_exponent x + 1" e] by simp
qed

lemma exponent_sqrt:
  assumes "0 < x"
  shows "f64_exponent (sqrt x) = f64_exponent x div 2"
proof (rule exponent_unique)
  define e where "e = f64_exponent x div 2"
  have b: "pow2 (f64_exponent x) \<le> x" "x < pow2 (f64_exponent x + 1)"
    using exponent_bounds [of x] assms by simp_all
  have "pow2 e * pow2 e \<le> x"
    using b(1) pow2_mono [of "e + e" "f64_exponent x"] unfolding pow2_add e_def by linarith
  then show "pow2 e \<le> sqrt x" by (simp add: real_le_rsqrt power2_eq_square)
  have "x < pow2 (e + 1) * pow2 (e + 1)"
    using b(2) pow2_mono [of "f64_exponent x + 1" "(e + 1) + (e + 1)"] unfolding pow2_add e_def by linarith
  then show "sqrt x < pow2 (e + 1)" by (simp add: real_less_lsqrt power2_eq_square)
qed

lemma sqrt_less_half_iff:
  assumes "0 \<le> y" and "0 \<le> h"
  shows "sqrt y < h \<longleftrightarrow> y < h * h" and "sqrt y = h \<longleftrightarrow> y = h * h"
  using assms real_sqrt_less_iff [of y "h * h"] real_sqrt_eq_iff [of y "h * h"] by (simp_all flip: real_sqrt_mult)

lemma f64_sqrt_correct:
  assumes "0 \<le> x"
  shows "f64_sqrt x = f64_round (sqrt x)"
proof (cases "x = 0")
  case False
  then have x: "0 < x" using assms by simp
  define u where "u = pow2 (f64_exponent x div 2 - 52)"
  define y where "y = x / (u * u)"
  define q where "q = isqrt (nat \<lfloor>y\<rfloor>)"
  have u: "0 < u" by (simp add: u_def)
  have y: "0 \<le> y" using x by (simp add: y_def)
  have su: "sqrt x / u = sqrt y" using u by (simp add: y_def real_sqrt_divide)
  have q: "int q = \<lfloor>sqrt y\<rfloor>" unfolding q_def using y by (rule isqrt_floor)
  have "round_half_even (sqrt y) = int (if y < (real q + 1 / 2) * (real q + 1 / 2) \<or>
      y = (real q + 1 / 2) * (real q + 1 / 2) \<and> even q then q else q + 1)"
    using sqrt_less_half_iff [OF y, of "real q + 1 / 2"]
    by (auto simp: round_half_even_def Let_def field_simps simp flip: q)
  then show ?thesis
    using x by (simp add: f64_sqrt_def f64_round_def Let_def exponent_sqrt su flip: u_def y_def q_def)
qed (simp add: f64_sqrt_def)

lemma f64_sqrt_le_1: "0 \<le> x \<Longrightarrow> x \<le> 1 \<Longrightarrow> f64_sqrt x \<le> 1"
  using f64_round_mono [of "sqrt x" 1] by (simp add: f64_sqrt_correct)

lemma f64_sqrt_nonneg: "0 \<le> x \<Longrightarrow> 0 \<le> f64_sqrt x"
  by (simp add: f64_sqrt_correct f64_round_nonneg)

end
