(* ===== verification/WP_RateLimit.thy ===== *)
theory WP_RateLimit
  imports WP_HashMap WP_Float WP_Address "HOL-Library.Monad_Syntax"
begin

text \<open>
  The token-bucket rate limiters of the daemon (\<^verbatim>\<open>crates/wpdaemon/src/rate_limit.rs\<close>,
  \<^verbatim>\<open>constants.rs\<close>): one per IP address for the HTTP endpoints, one per client for data-channel
  packets. \<^verbatim>\<open>Instant\<close>s are nanoseconds since an arbitrary origin, the clock reading of a call
  is its argument \<open>now\<close>, and \<^verbatim>\<open>duration_since\<close> is the truncated difference, as in Rust.

  The locale \<open>token_buckets\<close> is the contract both limiters keep; its lemmas show that the
  memory clean-up is invisible (the limiter makes the decisions of one independent bucket per
  key) and bound what a key can send in a window of time, rounding of doubles included.
\<close>

section \<open>Constants\<close>

definition HTTP_SDP_RATE_LIMIT_REFILL :: real where "HTTP_SDP_RATE_LIMIT_REFILL = 5"
definition HTTP_SDP_RATE_LIMIT_BURST :: real where "HTTP_SDP_RATE_LIMIT_BURST = 10"
definition DATACHANNEL_RATE_LIMIT_REFILL :: real where "DATACHANNEL_RATE_LIMIT_REFILL = 100"
definition DATACHANNEL_RATE_LIMIT_BURST :: real where "DATACHANNEL_RATE_LIMIT_BURST = 200"

lemmas rate_consts =
  HTTP_SDP_RATE_LIMIT_REFILL_def HTTP_SDP_RATE_LIMIT_BURST_def
  DATACHANNEL_RATE_LIMIT_REFILL_def DATACHANNEL_RATE_LIMIT_BURST_def

text \<open>\<^verbatim>\<open>Duration::from_secs\<close> in nanoseconds.\<close>

definition from_secs :: "nat \<Rightarrow> nat" where
  "from_secs s = s * 1000000000"

section \<open>Token buckets\<close>

record TokenBucket =
  tokens :: real
  last_update :: nat

text \<open>Refill for the elapsed time, then take one token if there is one.\<close>

definition bucket_take :: "real \<Rightarrow> real \<Rightarrow> nat \<Rightarrow> TokenBucket \<Rightarrow> bool \<times> TokenBucket" where
  "bucket_take refill_rate max_tokens now b =
     (let elapsed = as_secs_f64 (now - last_update b);
          t = min (f64_round (tokens b + f64_round (elapsed * refill_rate))) max_tokens
      in if 1 \<le> t
         then (True, b\<lparr>tokens := f64_round (t - 1), last_update := now\<rparr>)
         else (False, b\<lparr>tokens := t, last_update := now\<rparr>))"

text \<open>\<^verbatim>\<open>entry(key).or_insert_with(full bucket)\<close>.\<close>

definition bucket_or_full :: "real \<Rightarrow> nat \<Rightarrow> TokenBucket option \<Rightarrow> TokenBucket" where
  "bucket_or_full max_tokens now ob =
     (case ob of Some b \<Rightarrow> b | None \<Rightarrow> \<lparr>tokens = max_tokens, last_update = now\<rparr>)"

definition drop_stale :: "nat \<Rightarrow> ('k, TokenBucket) hmap \<Rightarrow> ('k, TokenBucket) hmap" where
  "drop_stale now = hm_retain (\<lambda>_ b. now - last_update b < from_secs 60)"

section \<open>IP addresses\<close>

datatype IpAddr =
    V4 u8 u8 u8 u8
  | V6 "u16 list"

fun is_loopback :: "IpAddr \<Rightarrow> bool" where
  "is_loopback (V4 a b c d) = (a = 127)"
| "is_loopback (V6 g) = (g = [0, 0, 0, 0, 0, 0, 0, 1])"

fun is_unspecified :: "IpAddr \<Rightarrow> bool" where
  "is_unspecified (V4 a b c d) = (a = 0 \<and> b = 0 \<and> c = 0 \<and> d = 0)"
| "is_unspecified (V6 g) = (g = [0, 0, 0, 0, 0, 0, 0, 0])"

text \<open>The parser of \<^verbatim>\<open>core::net\<close>: each reader returns what it read and the rest of the input.\<close>

definition to_digit :: "nat \<Rightarrow> char \<Rightarrow> nat option" where
  "to_digit radix c =
     (let n = of_char c :: nat;
          d = (if 48 \<le> n \<and> n \<le> 57 then n - 48
               else if 97 \<le> n \<and> n \<le> 122 then n - 87
               else if 65 \<le> n \<and> n \<le> 90 then n - 55
               else 36)
      in if d < radix then Some d else None)"

fun read_digits :: "nat \<Rightarrow> nat \<Rightarrow> nat \<Rightarrow> nat \<Rightarrow> string \<Rightarrow> (nat \<times> nat \<times> string) option" where
  "read_digits radix max_digits result digit_count [] = Some (result, digit_count, [])"
| "read_digits radix max_digits result digit_count (c # cs) =
     (case to_digit radix c of
        None \<Rightarrow> Some (result, digit_count, c # cs)
      | Some d \<Rightarrow>
          if max_digits < Suc digit_count then None
          else read_digits radix max_digits (result * radix + d) (Suc digit_count) cs)"

definition read_number :: "nat \<Rightarrow> nat \<Rightarrow> bool \<Rightarrow> nat \<Rightarrow> string \<Rightarrow> (nat \<times> string) option" where
  "read_number radix max_digits allow_zero_prefix limit s =
     do {
       (result, digit_count, rest) \<leftarrow> read_digits radix max_digits 0 0 s;
       if digit_count = 0 then None
       else if \<not> allow_zero_prefix \<and> starts_with s ''0'' \<and> 1 < digit_count then None
       else if result < limit then Some (result, rest) else None }"

definition read_given_char :: "char \<Rightarrow> string \<Rightarrow> string option" where
  "read_given_char c s = strip_prefix s [c]"

definition read_octet :: "string \<Rightarrow> (u8 \<times> string) option" where
  "read_octet s = map_option (\<lambda>(n, r). (of_nat n, r)) (read_number 10 3 False 256 s)"

definition read_group :: "string \<Rightarrow> (u16 \<times> string) option" where
  "read_group s = map_option (\<lambda>(n, r). (of_nat n, r)) (read_number 16 4 True 65536 s)"

definition read_ipv4 :: "string \<Rightarrow> ((u8 \<times> u8 \<times> u8 \<times> u8) \<times> string) option" where
  "read_ipv4 s =
     do {
       (a, s) \<leftarrow> read_octet s;
       s \<leftarrow> read_given_char (CHR ''.'') s;
       (b, s) \<leftarrow> read_octet s;
       s \<leftarrow> read_given_char (CHR ''.'') s;
       (c, s) \<leftarrow> read_octet s;
       s \<leftarrow> read_given_char (CHR ''.'') s;
       (d, s) \<leftarrow> read_octet s;
       Some ((a, b, c, d), s) }"

text \<open>\<^verbatim>\<open>read_groups\<close>: \<open>n\<close> slots are left, \<open>first\<close> says that none has been filled. The result is
  the groups, whether they end in an embedded IPv4 address, and the rest.\<close>

definition read_separator :: "bool \<Rightarrow> string \<Rightarrow> string option" where
  "read_separator first s = (if first then Some s else read_given_char (CHR '':'') s)"

primrec read_groups :: "nat \<Rightarrow> bool \<Rightarrow> string \<Rightarrow> u16 list \<times> bool \<times> string" where
  "read_groups 0 first s = ([], False, s)"
| "read_groups (Suc n) first s =
     (case (if 0 < n then Option.bind (read_separator first s) read_ipv4 else None) of
        Some ((a, b, c, d), r) \<Rightarrow>
          ([of_nat (unat a * 256 + unat b), of_nat (unat c * 256 + unat d)], True, r)
      | None \<Rightarrow>
          (case Option.bind (read_separator first s) read_group of
             None \<Rightarrow> ([], False, s)
           | Some (g, r) \<Rightarrow> (let (gs, v4, r') = read_groups n False r in (g # gs, v4, r'))))"

definition read_ipv6 :: "string \<Rightarrow> (u16 list \<times> string) option" where
  "read_ipv6 s =
     (let (head, head_ipv4, s1) = read_groups 8 True s in
      if length head = 8 then Some (head, s1)
      else if head_ipv4 then None
      else do {
        s2 \<leftarrow> read_given_char (CHR '':'') s1;
        s3 \<leftarrow> read_given_char (CHR '':'') s2;
        let (tail, _, s4) = read_groups (8 - (length head + 1)) True s3 in
          Some (head @ replicate (8 - length head - length tail) 0 @ tail, s4) })"

definition parse_ip :: "string \<Rightarrow> IpAddr option" where
  "parse_ip s =
     (case read_ipv4 s of
        Some ((a, b, c, d), r) \<Rightarrow> if r = [] then Some (V4 a b c d) else None
      | None \<Rightarrow>
          (case read_ipv6 s of
             Some (g, r) \<Rightarrow> if r = [] then Some (V6 g) else None
           | None \<Rightarrow> None))"

text \<open>\<^verbatim>\<open>{:x}\<close>, and the \<^verbatim>\<open>Display\<close> of an IPv4 address.\<close>

fun show_hex :: "nat \<Rightarrow> string" where
  "show_hex n = (if n < 16 then [hex_digit n] else show_hex (n div 16) @ [hex_digit (n mod 16)])"

declare show_hex.simps [simp del]

definition show_ipv4 :: "u8 \<Rightarrow> u8 \<Rightarrow> u8 \<Rightarrow> u8 \<Rightarrow> string" where
  "show_ipv4 a b c d =
     show_nat (unat a) @ ''.'' @ show_nat (unat b) @ ''.'' @ show_nat (unat c) @ ''.'' @ show_nat (unat d)"

text \<open>
  \<^verbatim>\<open>extract_ip\<close>. The header map belongs to the \<^verbatim>\<open>http\<close> crate; the argument \<open>header\<close> is what
  \<^verbatim>\<open>headers.get(name).and_then(|v| v.to_str().ok())\<close> returns for a name.
\<close>

definition extract_ip :: "(string \<Rightarrow> string option) \<Rightarrow> IpAddr option \<Rightarrow> IpAddr" where
  "extract_ip header req_ip =
     (let is_trusted_peer = (case req_ip of None \<Rightarrow> False | Some ip \<Rightarrow> is_loopback ip \<or> is_unspecified ip);
          forwarded = (if is_trusted_peer
            then do { f \<leftarrow> header ''x-forwarded-for''; parse_ip (str_trim (takeWhile (\<lambda>c. c \<noteq> CHR '','') f)) }
            else None);
          real_ip = (if is_trusted_peer
            then do { f \<leftarrow> header ''x-real-ip''; parse_ip (str_trim f) }
            else None)
      in case forwarded of
           Some ip \<Rightarrow> ip
         | None \<Rightarrow>
             (case real_ip of
                Some ip \<Rightarrow> ip
              | None \<Rightarrow> (case req_ip of Some ip \<Rightarrow> ip | None \<Rightarrow> V4 0 0 0 0)))"

definition sanitize_ip :: "string \<Rightarrow> string" where
  "sanitize_ip ip_str =
     (case parse_ip ip_str of
        Some (V4 a b c d) \<Rightarrow> show_nat (unat a) @ ''.'' @ show_nat (unat b) @ ''.x.x''
      | Some (V6 g) \<Rightarrow> show_hex (unat (g ! 0)) @ '':'' @ show_hex (unat (g ! 1)) @ '':x:x:x:x:x:x''
      | None \<Rightarrow> ''x.x.x.x'')"

section \<open>The limiters\<close>

record RateLimiter =
  rl_refill_rate :: real
  rl_max_tokens :: real
  rl_buckets :: "(IpAddr, TokenBucket) hmap"

definition RateLimiter_new :: "real \<Rightarrow> real \<Rightarrow> RateLimiter" where
  "RateLimiter_new refill_rate max_tokens =
     \<lparr>rl_refill_rate = refill_rate, rl_max_tokens = max_tokens, rl_buckets = hm_new\<rparr>"

definition rl_check_and_consume :: "nat \<Rightarrow> IpAddr \<Rightarrow> RateLimiter \<Rightarrow> bool \<times> RateLimiter" where
  "rl_check_and_consume now ip rl =
     (let buckets = rl_buckets rl;
          buckets = (if 1000 < hm_len buckets then drop_stale now buckets else buckets);
          bucket = bucket_or_full (rl_max_tokens rl) now (hm_get buckets ip);
          (ok, bucket) = bucket_take (rl_refill_rate rl) (rl_max_tokens rl) now bucket
      in (ok, rl\<lparr>rl_buckets := hm_insert ip bucket buckets\<rparr>))"

definition GLOBAL_RATE_LIMITER :: RateLimiter where
  "GLOBAL_RATE_LIMITER = RateLimiter_new HTTP_SDP_RATE_LIMIT_REFILL HTTP_SDP_RATE_LIMIT_BURST"

text \<open>The middleware answers 429 or passes the request on; \<open>next_run\<close> is the rest of the stack.\<close>

definition rate_limit_middleware ::
    "nat \<Rightarrow> (string \<Rightarrow> string option) \<Rightarrow> IpAddr option \<Rightarrow> 'r \<Rightarrow> (unit \<Rightarrow> 'r) \<Rightarrow> RateLimiter \<Rightarrow> 'r \<times> RateLimiter" where
  "rate_limit_middleware now header socket_ip too_many_requests next_run rl =
     (let ip = extract_ip header socket_ip;
          (ok, rl) = rl_check_and_consume now ip rl
      in if \<not> ok then (too_many_requests, rl) else (next_run (), rl))"

record DataChannelRateLimiter =
  dc_refill_rate :: real
  dc_max_tokens :: real
  dc_buckets :: "(u64, TokenBucket) hmap"

definition DataChannelRateLimiter_new :: "real \<Rightarrow> real \<Rightarrow> DataChannelRateLimiter" where
  "DataChannelRateLimiter_new refill_rate max_tokens =
     \<lparr>dc_refill_rate = refill_rate, dc_max_tokens = max_tokens, dc_buckets = hm_new\<rparr>"

definition dc_check_and_consume ::
    "nat \<Rightarrow> u64 \<Rightarrow> DataChannelRateLimiter \<Rightarrow> bool \<times> DataChannelRateLimiter" where
  "dc_check_and_consume now client_id rl =
     (let buckets = dc_buckets rl;
          buckets = (if 2000 < hm_len buckets then drop_stale now buckets else buckets);
          bucket = bucket_or_full (dc_max_tokens rl) now (hm_get buckets client_id);
          (ok, bucket) = bucket_take (dc_refill_rate rl) (dc_max_tokens rl) now bucket
      in (ok, rl\<lparr>dc_buckets := hm_insert client_id bucket buckets\<rparr>))"

definition dc_remove_client :: "u64 \<Rightarrow> DataChannelRateLimiter \<Rightarrow> DataChannelRateLimiter" where
  "dc_remove_client client_id rl = rl\<lparr>dc_buckets := hm_remove client_id (dc_buckets rl)\<rparr>"

definition DATACHANNEL_RATE_LIMITER :: DataChannelRateLimiter where
  "DATACHANNEL_RATE_LIMITER =
     DataChannelRateLimiter_new DATACHANNEL_RATE_LIMIT_REFILL DATACHANNEL_RATE_LIMIT_BURST"

section \<open>Specification: one independent bucket per key\<close>

text \<open>The decisions of a limiter on a sequence of timed requests, and of a single bucket.\<close>

primrec limiter_run :: "(nat \<Rightarrow> 'k \<Rightarrow> 's \<Rightarrow> bool \<times> 's) \<Rightarrow> (nat \<times> 'k) list \<Rightarrow> 's \<Rightarrow> bool list" where
  "limiter_run check [] s = []"
| "limiter_run check (r # rs) s =
     (case check (fst r) (snd r) s of (ok, s') \<Rightarrow> ok # limiter_run check rs s')"

primrec bucket_run :: "real \<Rightarrow> real \<Rightarrow> TokenBucket option \<Rightarrow> nat list \<Rightarrow> bool list" where
  "bucket_run rate cap ob [] = []"
| "bucket_run rate cap ob (t # ts) =
     (case bucket_take rate cap t (bucket_or_full cap t ob) of (ok, b) \<Rightarrow> ok # bucket_run rate cap (Some b) ts)"

text \<open>The times of the requests of one key, and the decisions made on them.\<close>

definition times_of :: "'k \<Rightarrow> (nat \<times> 'k) list \<Rightarrow> nat list" where
  "times_of k rs = map fst (filter (\<lambda>r. snd r = k) rs)"

definition decisions_for :: "'k \<Rightarrow> (nat \<times> 'k) list \<Rightarrow> bool list \<Rightarrow> bool list" where
  "decisions_for k rs ds = map snd (filter (\<lambda>(r, _). snd r = k) (zip rs ds))"

definition stale_cleaned :: "bool \<Rightarrow> nat \<Rightarrow> TokenBucket option \<Rightarrow> TokenBucket option" where
  "stale_cleaned c now ob =
     (if c then Option.bind ob (\<lambda>b. if now - last_update b < from_secs 60 then Some b else None) else ob)"

definition bucket_ok :: "real \<Rightarrow> nat \<Rightarrow> TokenBucket \<Rightarrow> bool" where
  "bucket_ok cap now b \<longleftrightarrow> 0 \<le> tokens b \<and> tokens b \<le> cap \<and> last_update b \<le> now"

section \<open>Lemmas on one bucket\<close>

definition bucket_level :: "real \<Rightarrow> real \<Rightarrow> nat \<Rightarrow> TokenBucket \<Rightarrow> real" where
  "bucket_level rate cap now b =
     min (f64_round (tokens b + f64_round (as_secs_f64 (now - last_update b) * rate))) cap"

lemma bucket_take_level:
  "fst (bucket_take rate cap now b) \<longleftrightarrow> 1 \<le> bucket_level rate cap now b"
  "tokens (snd (bucket_take rate cap now b)) =
     (if 1 \<le> bucket_level rate cap now b then f64_round (bucket_level rate cap now b - 1) else bucket_level rate cap now b)"
  "last_update (snd (bucket_take rate cap now b)) = now"
  by (simp_all add: bucket_take_def bucket_level_def Let_def)

text \<open>The refill over a span of time, with the relative error of four roundings, and the rounding
  error of one request on a bucket of a given capacity.\<close>

definition refill_bound :: "real \<Rightarrow> nat \<Rightarrow> real" where
  "refill_bound rate ns = rate * (real ns / 1000000000) * (1 + 1 / 2 ^ 53) ^ 4"

definition rounding_slack :: "real \<Rightarrow> real" where
  "rounding_slack cap = cap / 2 ^ 52"

lemma refill_bound_add: "refill_bound rate (m + n) = refill_bound rate m + refill_bound rate n"
  by (simp add: refill_bound_def add_divide_distrib distrib_left distrib_right)

lemma refill_bound_0 [simp]: "refill_bound rate 0 = 0"
  by (simp add: refill_bound_def)

text \<open>The rounding of one request costs at most two relative errors of the capacity.\<close>

locale bucket_params =
  fixes rate cap :: real
  assumes rate_nonneg: "0 \<le> rate" and cap_ge_1: "1 \<le> cap"
    and cap_exact: "f64_round cap = cap"
    and refill_60: "cap \<le> f64_round (60 * rate)"
begin

lemma refill_nonneg: "0 \<le> f64_round (as_secs_f64 n * rate)"
  by (simp add: f64_round_nonneg rate_nonneg)

lemma bucket_level_bounds:
  assumes "0 \<le> tokens b"
  shows "0 \<le> bucket_level rate cap now b" and "bucket_level rate cap now b \<le> cap"
  using assms refill_nonneg cap_ge_1 by (auto simp: bucket_level_def f64_round_nonneg)

lemma bucket_take_ok:
  assumes "0 \<le> tokens b"
  shows "bucket_ok cap now (snd (bucket_take rate cap now b))"
  using bucket_level_bounds [OF assms, of now] cap_exact
    f64_round_mono [of "bucket_level rate cap now b - 1" cap]
  by (auto simp: bucket_ok_def bucket_take_level f64_round_nonneg)

text \<open>A bucket that has rested for a minute is as good as a new one.\<close>

lemma stale_bucket_full:
  assumes "0 \<le> tokens b" and "from_secs 60 \<le> now - last_update b"
  shows "bucket_take rate cap now b = bucket_take rate cap now \<lparr>tokens = cap, last_update = now\<rparr>"
proof -
  define g where "g = f64_round (as_secs_f64 (now - last_update b) * rate)"
  have "60 \<le> as_secs_f64 (now - last_update b)"
    using as_secs_f64_ge [of 60 "now - last_update b"] assms(2) div_le_mono [of "from_secs 60" _ 1000000000]
    by (simp add: from_secs_def)
  then have "f64_round (60 * rate) \<le> g"
    unfolding g_def using rate_nonneg by (intro f64_round_mono mult_right_mono) auto
  then have "cap \<le> tokens b + g" using refill_60 assms(1) by linarith
  then have "cap \<le> f64_round (tokens b + g)"
    using f64_round_mono [of cap "tokens b + g"] cap_exact cap_ge_1 by simp
  then show ?thesis
    by (simp add: bucket_take_def Let_def cap_exact flip: g_def)
qed

text \<open>What one request gains, at most: the refill for the elapsed time, with rounding.\<close>

lemma bucket_take_cost:
  assumes "0 \<le> tokens b"
  shows "tokens (snd (bucket_take rate cap now b)) + of_bool (fst (bucket_take rate cap now b))
           \<le> bucket_level rate cap now b + cap / 2 ^ 53"
proof -
  define d :: real where "d = 1 / 2 ^ 53"
  define t where "t = bucket_level rate cap now b"
  have d: "0 \<le> d" by (simp add: d_def)
  have t: "t \<le> cap" using bucket_level_bounds [OF assms] by (simp add: t_def)
  have "f64_round (t - 1) + 1 \<le> t + cap * d" if "1 \<le> t"
  proof -
    have "f64_round (t - 1) \<le> (t - 1) * (1 + d)" unfolding d_def using that by (intro f64_round_upper) simp
    also have "\<dots> = (t - 1) + (t - 1) * d" by (simp add: distrib_left)
    also have "(t - 1) * d \<le> cap * d" using t d by (intro mult_right_mono) auto
    finally show ?thesis by simp
  qed
  moreover have "0 \<le> cap * d" using cap_ge_1 d by simp
  ultimately show ?thesis by (simp add: bucket_take_level d_def flip: t_def)
qed

lemma bucket_take_gain:
  assumes "bucket_ok cap now b"
  shows "tokens (snd (bucket_take rate cap now b)) + of_bool (fst (bucket_take rate cap now b))
           \<le> tokens b + refill_bound rate (now - last_update b) + rounding_slack cap"
proof -
  define d :: real where "d = 1 / 2 ^ 53"
  define el where "el = real (now - last_update b) / 1000000000"
  define g where "g = f64_round (as_secs_f64 (now - last_update b) * rate)"
  have d: "0 \<le> d" by (simp add: d_def)
  have b: "0 \<le> tokens b" "tokens b \<le> cap" using assms by (auto simp: bucket_ok_def)
  have g0: "0 \<le> g" by (simp add: g_def refill_nonneg)
  have "g \<le> as_secs_f64 (now - last_update b) * rate * (1 + d)"
    unfolding g_def d_def using rate_nonneg by (intro f64_round_upper) simp
  also have "\<dots> \<le> el * (1 + d) ^ 2 * rate * (1 + d)"
    unfolding el_def d_def using rate_nonneg by (intro mult_right_mono as_secs_f64_upper) auto
  finally have g: "g \<le> rate * el * (1 + d) ^ 3" by (simp add: power2_eq_square power3_eq_cube mult_ac)
  have "bucket_level rate cap now b \<le> (tokens b + g) * (1 + d)"
    unfolding bucket_level_def d_def
    using f64_round_upper [of "tokens b + g"] b g0 by (simp add: min_le_iff_disj flip: g_def)
  also have "\<dots> = tokens b + tokens b * d + g * (1 + d)" by (simp add: algebra_simps)
  also have "\<dots> \<le> tokens b + cap * d + rate * el * (1 + d) ^ 3 * (1 + d)"
    using b g d by (intro add_mono mult_right_mono) auto
  finally have "bucket_level rate cap now b \<le> tokens b + cap * d + rate * el * (1 + d) ^ 4"
    by (simp add: eval_nat_numeral mult_ac)
  moreover have "cap * d + cap / 2 ^ 53 = cap / 2 ^ 52" by (simp add: d_def)
  ultimately show ?thesis using bucket_take_cost [OF b(1), of now] by (simp add: el_def d_def refill_bound_def rounding_slack_def)
qed

lemma bucket_take_cap:
  assumes "0 \<le> tokens b"
  shows "tokens (snd (bucket_take rate cap now b)) + of_bool (fst (bucket_take rate cap now b)) \<le> cap + rounding_slack cap"
proof -
  have "cap / 2 ^ 53 \<le> cap / 2 ^ 52" using cap_ge_1 by (intro divide_left_mono) auto
  then show ?thesis using bucket_take_cost [OF assms, of now] bucket_level_bounds [OF assms, of now]
    unfolding rounding_slack_def by linarith
qed

end

text \<open>Accepted requests over a sequence of times.\<close>

definition accepted :: "bool list \<Rightarrow> real" where
  "accepted ds = real (length (filter (\<lambda>d. d) ds))"

lemma accepted_simps [simp]: "accepted [] = 0" "accepted (d # ds) = of_bool d + accepted ds"
  by (simp_all add: accepted_def)

context bucket_params
begin

text \<open>The sum of the gains: tokens on hand, plus the refill over the whole span.\<close>

lemma bucket_run_gain:
  assumes "sorted (last_update b # ts)" and "0 \<le> tokens b" and "tokens b \<le> cap"
  shows "accepted (bucket_run rate cap (Some b) ts) \<le> tokens b
           + refill_bound rate (last (last_update b # ts) - last_update b)
           + real (length ts) * rounding_slack cap"
  using assms
proof (induction ts arbitrary: b)
  case (Cons t ts)
  define b' where "b' = snd (bucket_take rate cap t b)"
  have lb: "last_update b' = t" "last_update b \<le> t" "t \<le> last (t # ts)"
    using Cons.prems(1) by (auto simp: b'_def bucket_take_level)
  have ok: "bucket_ok cap t b'"
    unfolding b'_def using Cons.prems by (intro bucket_take_ok) simp
  have IH: "accepted (bucket_run rate cap (Some b') ts) \<le> tokens b'
           + refill_bound rate (last (t # ts) - t) + real (length ts) * rounding_slack cap"
    using Cons.IH [of b'] Cons.prems(1) ok by (simp add: bucket_ok_def lb)
  have gain: "tokens b' + of_bool (fst (bucket_take rate cap t b))
           \<le> tokens b + refill_bound rate (t - last_update b) + rounding_slack cap"
    unfolding b'_def using Cons.prems lb by (intro bucket_take_gain) (simp add: bucket_ok_def)
  have "last (t # ts) - last_update b = (t - last_update b) + (last (t # ts) - t)"
    using lb by simp
  then have "refill_bound rate (last (t # ts) - last_update b)
               = refill_bound rate (t - last_update b) + refill_bound rate (last (t # ts) - t)"
    by (metis refill_bound_add)
  then show ?case
    using IH gain by (simp add: bucket_or_full_def case_prod_beta distrib_right flip: b'_def)
qed simp

lemma bucket_run_window:
  assumes "sorted (t # ts)" and "\<And>b. ob = Some b \<Longrightarrow> 0 \<le> tokens b"
  shows "accepted (bucket_run rate cap ob (t # ts)) \<le> cap
           + refill_bound rate (last (t # ts) - t)
           + real (length (t # ts)) * rounding_slack cap"
proof -
  define b where "b = bucket_or_full cap t ob"
  define b' where "b' = snd (bucket_take rate cap t b)"
  have b: "0 \<le> tokens b"
    using assms(2) cap_ge_1 by (auto simp: b_def bucket_or_full_def split: option.splits)
  have ok: "bucket_ok cap t b'" "last_update b' = t"
    unfolding b'_def using bucket_take_ok [OF b] by (simp_all add: bucket_take_level)
  have "accepted (bucket_run rate cap (Some b') ts) \<le> tokens b'
           + refill_bound rate (last (t # ts) - t) + real (length ts) * rounding_slack cap"
    using bucket_run_gain [of b' ts] assms(1) ok by (simp add: bucket_ok_def)
  moreover have "tokens b' + of_bool (fst (bucket_take rate cap t b)) \<le> cap + rounding_slack cap"
    unfolding b'_def using b by (rule bucket_take_cap)
  ultimately show ?thesis
    by (simp add: case_prod_beta distrib_right flip: b_def b'_def)
qed

end

section \<open>The contract of a limiter\<close>

text \<open>
  A call answers as the key's own bucket does, where a clean-up (\<open>c\<close>) may have dropped the
  buckets that rested for a minute; it stores that bucket and leaves the other keys alone.
\<close>

locale token_buckets = bucket_params rate cap for rate cap :: real +
  fixes check :: "nat \<Rightarrow> 'k \<Rightarrow> 's \<Rightarrow> bool \<times> 's"
    and get :: "'s \<Rightarrow> 'k \<Rightarrow> TokenBucket option"
    and inv :: "'s \<Rightarrow> bool"
  assumes inv_check: "inv s \<Longrightarrow> inv (snd (check now k s))"
    and check_law: "inv s \<Longrightarrow>
      \<exists>c. let r = bucket_take rate cap now (bucket_or_full cap now (stale_cleaned c now (get s k)))
          in fst (check now k s) = fst r
             \<and> (\<forall>k'. get (snd (check now k s)) k' = (if k' = k then Some (snd r) else stale_cleaned c now (get s k')))"
begin

definition ok :: "nat \<Rightarrow> 's \<Rightarrow> bool" where
  "ok t s \<longleftrightarrow> inv s \<and> (\<forall>k b. get s k = Some b \<longrightarrow> bucket_ok cap t b)"

text \<open>A concrete entry \<open>c\<close> stands for the bucket \<open>a\<close> of the specification: the same, or forgotten
  after a minute's rest.\<close>

definition stands_for :: "nat \<Rightarrow> TokenBucket option \<Rightarrow> TokenBucket option \<Rightarrow> bool" where
  "stands_for t c a \<longleftrightarrow>
     (\<forall>b. a = Some b \<longrightarrow> bucket_ok cap t b) \<and>
     (c = a \<or> c = None \<and> (\<exists>b. a = Some b \<and> from_secs 60 \<le> t - last_update b))"

lemma stands_for_later: "stands_for t c a \<Longrightarrow> t \<le> now \<Longrightarrow> stands_for now (stale_cleaned z now c) a"
  by (cases a) (auto simp: stands_for_def stale_cleaned_def bucket_ok_def split: if_splits)

lemma stands_for_take:
  assumes "stands_for now c a"
  shows "bucket_take rate cap now (bucket_or_full cap now c) = bucket_take rate cap now (bucket_or_full cap now a)"
  using assms stale_bucket_full
  by (auto simp: stands_for_def bucket_or_full_def bucket_ok_def)

lemma bucket_or_full_nonneg: "stands_for t c a \<Longrightarrow> 0 \<le> tokens (bucket_or_full cap now a)"
  using cap_ge_1 by (cases a) (auto simp: stands_for_def bucket_or_full_def bucket_ok_def)

lemma check_simulates:
  assumes "inv s" and "\<And>k. stands_for t (get s k) (f k)" and "t \<le> now"
    and r_def: "r = bucket_take rate cap now (bucket_or_full cap now (f k))"
  shows "fst (check now k s) = fst r"
    and "stands_for now (get (snd (check now k s)) k') ((f(k := Some (snd r))) k')"
proof -
  obtain z where z: "let r = bucket_take rate cap now (bucket_or_full cap now (stale_cleaned z now (get s k)))
          in fst (check now k s) = fst r
             \<and> (\<forall>k'. get (snd (check now k s)) k' = (if k' = k then Some (snd r) else stale_cleaned z now (get s k')))"
    using check_law [OF assms(1)] by blast
  have st: "stands_for now (stale_cleaned z now (get s k)) (f k)" for k
    using stands_for_later [OF assms(2,3)] .
  have r: "bucket_take rate cap now (bucket_or_full cap now (stale_cleaned z now (get s k))) = r"
    unfolding r_def by (rule stands_for_take [OF st])
  show "fst (check now k s) = fst r" using z by (simp add: r Let_def)
  have "bucket_ok cap now (snd r)"
    unfolding r_def by (intro bucket_take_ok bucket_or_full_nonneg [OF st])
  then show "stands_for now (get (snd (check now k s)) k') ((f(k := Some (snd r))) k')"
    using z st [of k'] by (simp add: r Let_def) (simp add: stands_for_def)
qed

lemma run_simulates:
  assumes "inv s" and "\<And>k. stands_for t (get s k) (f k)" and "sorted (t # map fst rs)"
  shows "decisions_for k rs (limiter_run check rs s) = bucket_run rate cap (f k) (times_of k rs)"
  using assms
proof (induction rs arbitrary: s t f)
  case (Cons q rs)
  obtain now j where q: "q = (now, j)" by (cases q)
  define r where "r = bucket_take rate cap now (bucket_or_full cap now (f j))"
  have t: "t \<le> now" "sorted (now # map fst rs)" using Cons.prems(3) q by auto
  note sim = check_simulates [OF Cons.prems(1,2) t(1) r_def]
  have IH: "decisions_for k rs (limiter_run check rs (snd (check now j s)))
              = bucket_run rate cap ((f(j := Some (snd r))) k) (times_of k rs)"
    using Cons.IH [OF inv_check [OF Cons.prems(1)] sim(2) t(2)] .
  then show ?case
    using sim(1) by (auto simp: decisions_for_def times_of_def q case_prod_beta r_def)
qed (simp add: decisions_for_def times_of_def)

lemma ok_stands_for: "ok t s \<Longrightarrow> stands_for t (get s k) (get s k)"
  by (auto simp: ok_def stands_for_def)

text \<open>Isolation: what other keys do, and when the limiter cleans up, has no effect on a key.\<close>

lemma run_isolated:
  assumes "ok t s" and "sorted (t # map fst rs)"
  shows "decisions_for k rs (limiter_run check rs s) = bucket_run rate cap (get s k) (times_of k rs)"
  using run_simulates [of s t "get s" rs k] assms ok_stands_for by (simp add: ok_def)

lemma ok_check:
  assumes "ok t s" and "t \<le> now"
  shows "ok now (snd (check now k s))"
proof -
  have "stands_for now (get (snd (check now k s)) k')
     (((get s)(k := Some (snd (bucket_take rate cap now (bucket_or_full cap now (get s k)))))) k')" for k'
    using check_simulates(2) [OF _ ok_stands_for [OF assms(1)] assms(2) refl] assms(1) by (simp add: ok_def)
  then show ?thesis
    using assms(1) inv_check unfolding ok_def stands_for_def by (metis option.distinct(1))
qed

text \<open>The limiter's contract also holds for a clock reading older than the last one.\<close>

lemma ok_check_any:
  assumes "ok t s"
  shows "ok (max t now) (snd (check now k s))"
proof -
  obtain z where z: "let r = bucket_take rate cap now (bucket_or_full cap now (stale_cleaned z now (get s k)))
          in fst (check now k s) = fst r
             \<and> (\<forall>k'. get (snd (check now k s)) k' = (if k' = k then Some (snd r) else stale_cleaned z now (get s k')))"
    using check_law assms unfolding ok_def by blast
  have sub: "stale_cleaned z now a = Some b \<Longrightarrow> a = Some b" for a b
    by (cases a) (auto simp: stale_cleaned_def split: if_splits)
  have kept: "bucket_ok cap t b" if "stale_cleaned z now (get s k') = Some b" for k' b
    using that sub assms unfolding ok_def by blast
  have "0 \<le> tokens (bucket_or_full cap now (stale_cleaned z now (get s k)))"
    using kept cap_ge_1 by (cases "stale_cleaned z now (get s k)") (auto simp: bucket_or_full_def bucket_ok_def)
  then have "bucket_ok cap now (snd (bucket_take rate cap now (bucket_or_full cap now (stale_cleaned z now (get s k)))))"
    by (rule bucket_take_ok)
  then show ?thesis
    using z kept inv_check assms unfolding ok_def Let_def
    by (force simp: bucket_ok_def split: if_splits)
qed

lemma run_window:
  assumes "ok t s" and "sorted (t # map fst rs)" and "times_of k rs = u # us"
  shows "accepted (decisions_for k rs (limiter_run check rs s)) \<le>
           cap + refill_bound rate (last (u # us) - u) + real (length (u # us)) * rounding_slack cap"
proof -
  have "sorted (times_of k rs)"
    using assms(2) by (simp add: times_of_def sorted_map sorted_wrt_filter)
  moreover have "0 \<le> tokens b" if "get s k = Some b" for b
    using that assms(1) by (auto simp: ok_def bucket_ok_def)
  ultimately show ?thesis
    using bucket_run_window [of u us "get s k"] run_isolated [OF assms(1,2), of k] assms(3) by simp
qed

end

section \<open>Both limiters keep the contract\<close>

definition rl_params :: "RateLimiter \<Rightarrow> bool" where
  "rl_params rl \<longleftrightarrow> rl_refill_rate rl = HTTP_SDP_RATE_LIMIT_REFILL
     \<and> rl_max_tokens rl = HTTP_SDP_RATE_LIMIT_BURST \<and> hm_wf (rl_buckets rl)"

definition dc_params :: "DataChannelRateLimiter \<Rightarrow> bool" where
  "dc_params rl \<longleftrightarrow> dc_refill_rate rl = DATACHANNEL_RATE_LIMIT_REFILL
     \<and> dc_max_tokens rl = DATACHANNEL_RATE_LIMIT_BURST \<and> hm_wf (dc_buckets rl)"

lemma hm_get_drop_stale:
  "hm_wf m \<Longrightarrow> hm_get (drop_stale now m) k = stale_cleaned True now (hm_get m k)"
  by (auto simp: drop_stale_def stale_cleaned_def hm_simps split: option.splits)

lemma stale_cleaned_False [simp]: "stale_cleaned False now ob = ob"
  by (simp add: stale_cleaned_def)

lemma hm_wf_drop_stale [simp]: "hm_wf m \<Longrightarrow> hm_wf (drop_stale now m)"
  by (simp add: drop_stale_def)

interpretation rl: token_buckets HTTP_SDP_RATE_LIMIT_REFILL HTTP_SDP_RATE_LIMIT_BURST
    rl_check_and_consume "\<lambda>rl. hm_get (rl_buckets rl)" rl_params
proof
  fix rl now k
  assume "rl_params rl"
  then show "rl_params (snd (rl_check_and_consume now k rl))"
    by (simp add: rl_params_def rl_check_and_consume_def Let_def case_prod_beta)
  show "\<exists>c. let r = bucket_take HTTP_SDP_RATE_LIMIT_REFILL HTTP_SDP_RATE_LIMIT_BURST now
              (bucket_or_full HTTP_SDP_RATE_LIMIT_BURST now (stale_cleaned c now (hm_get (rl_buckets rl) k)))
          in fst (rl_check_and_consume now k rl) = fst r
             \<and> (\<forall>k'. hm_get (rl_buckets (snd (rl_check_and_consume now k rl))) k'
                    = (if k' = k then Some (snd r) else stale_cleaned c now (hm_get (rl_buckets rl) k')))"
    using \<open>rl_params rl\<close>
    by (intro exI [of _ "1000 < hm_len (rl_buckets rl)"])
       (auto simp: rl_params_def rl_check_and_consume_def Let_def case_prod_beta hm_simps hm_get_drop_stale)
qed (simp_all add: rate_consts)

interpretation dc: token_buckets DATACHANNEL_RATE_LIMIT_REFILL DATACHANNEL_RATE_LIMIT_BURST
    dc_check_and_consume "\<lambda>rl. hm_get (dc_buckets rl)" dc_params
proof
  fix rl now k
  assume "dc_params rl"
  then show "dc_params (snd (dc_check_and_consume now k rl))"
    by (simp add: dc_params_def dc_check_and_consume_def Let_def case_prod_beta)
  show "\<exists>c. let r = bucket_take DATACHANNEL_RATE_LIMIT_REFILL DATACHANNEL_RATE_LIMIT_BURST now
              (bucket_or_full DATACHANNEL_RATE_LIMIT_BURST now (stale_cleaned c now (hm_get (dc_buckets rl) k)))
          in fst (dc_check_and_consume now k rl) = fst r
             \<and> (\<forall>k'. hm_get (dc_buckets (snd (dc_check_and_consume now k rl))) k'
                    = (if k' = k then Some (snd r) else stale_cleaned c now (hm_get (dc_buckets rl) k')))"
    using \<open>dc_params rl\<close>
    by (intro exI [of _ "2000 < hm_len (dc_buckets rl)"])
       (auto simp: dc_params_def dc_check_and_consume_def Let_def case_prod_beta hm_simps hm_get_drop_stale)
qed (simp_all add: rate_consts)

text \<open>The states the two limiters run through: their parameters, distinct keys, and every bucket
  between empty and full with a time stamp of the past.\<close>

definition rl_ok :: "nat \<Rightarrow> RateLimiter \<Rightarrow> bool" where
  "rl_ok now rl \<longleftrightarrow> rl_params rl \<and> list_all (\<lambda>(_, b). bucket_ok HTTP_SDP_RATE_LIMIT_BURST now b) (rl_buckets rl)"

definition dc_ok :: "nat \<Rightarrow> DataChannelRateLimiter \<Rightarrow> bool" where
  "dc_ok now rl \<longleftrightarrow> dc_params rl \<and> list_all (\<lambda>(_, b). bucket_ok DATACHANNEL_RATE_LIMIT_BURST now b) (dc_buckets rl)"

lemma rl_ok_iff: "rl_ok now rl \<longleftrightarrow> rl.ok now rl"
  by (auto simp: rl_ok_def rl.ok_def rl_params_def list_all_iff hm_in_get)

lemma dc_ok_iff: "dc_ok now rl \<longleftrightarrow> dc.ok now rl"
  by (auto simp: dc_ok_def dc.ok_def dc_params_def list_all_iff hm_in_get)

lemma rl_ok_global: "rl_ok now GLOBAL_RATE_LIMITER"
  by (simp add: rl_ok_def rl_params_def GLOBAL_RATE_LIMITER_def RateLimiter_new_def hm_new_def hm_wf_def)

lemma dc_ok_global: "dc_ok now DATACHANNEL_RATE_LIMITER"
  by (simp add: dc_ok_def dc_params_def DATACHANNEL_RATE_LIMITER_def DataChannelRateLimiter_new_def hm_new_def hm_wf_def)

section \<open>Reading back an IPv4 address\<close>

lemma to_digit_dec: "is_dec_digit c \<Longrightarrow> to_digit 10 c = Some (of_char c - 48)"
  by (auto simp: to_digit_def is_dec_digit_def Let_def)

lemma read_digits_dec:
  assumes "list_all is_dec_digit ds" and "n + length ds \<le> m" and "rest = [] \<or> to_digit 10 (hd rest) = None"
  shows "read_digits 10 m v n (ds @ rest) = Some (foldl (\<lambda>a c. a * 10 + (of_char c - 48)) v ds, n + length ds, rest)"
  using assms
proof (induction ds arbitrary: v n)
  case Nil
  then show ?case by (cases rest) auto
qed (simp add: to_digit_dec)

lemma length_show_nat_3: "n < 1000 \<Longrightarrow> length (show_nat n) \<le> 3"
  by (subst show_nat.simps, subst show_nat.simps, subst show_nat.simps) auto

lemma hd_show_nat: "0 < n \<Longrightarrow> hd (show_nat n) \<noteq> CHR ''0''"
proof (induction n rule: show_nat.induct)
  case (1 n)
  have "dec_digit n \<noteq> CHR ''0''" if "n < 10"
  proof
    assume "dec_digit n = CHR ''0''"
    then have "(of_char (dec_digit n) :: nat) = 48" by simp
    then show False using 1(2) that by (simp add: of_char_dec_digit)
  qed
  then show ?case using 1 by (subst show_nat.simps) auto
qed

lemma read_octet_show:
  assumes "rest = [] \<or> to_digit 10 (hd rest) = None"
  shows "read_octet (show_nat (unat a) @ rest) = Some (a :: u8, rest)"
proof -
  have a: "unat a < 256" using unsigned_less [of a, where ?'a = nat] by simp
  have "foldl (\<lambda>x c. x * 10 + (of_char c - 48)) 0 (show_nat (unat a)) = unat a"
    using dec_value_show_nat [of "unat a"] by (simp add: dec_value_def mult.commute)
  then have r: "read_digits 10 3 0 0 (show_nat (unat a) @ rest) = Some (unat a, length (show_nat (unat a)), rest)"
    using read_digits_dec [of "show_nat (unat a)" 0 3 rest 0] show_nat_digits length_show_nat_3 a assms by simp
  have "\<not> (starts_with (show_nat (unat a) @ rest) ''0'' \<and> 1 < length (show_nat (unat a)))"
  proof (cases "unat a = 0")
    case True
    then show ?thesis by (simp add: show_nat.simps)
  next
    case False
    then show ?thesis
      using hd_show_nat [of "unat a"] by (cases "show_nat (unat a)") (auto simp: starts_with_def)
  qed
  with r a show ?thesis
    by (auto simp: read_octet_def read_number_def)
qed

lemma parse_show_ipv4: "parse_ip (show_ipv4 a b c d) = Some (V4 a b c d)"
proof -
  have "to_digit 10 (CHR ''.'') = None" by code_simp
  then have "read_ipv4 (show_ipv4 a b c d) = Some ((a, b, c, d), [])"
    using read_octet_show [of "[]" d]
    by (simp add: read_ipv4_def show_ipv4_def read_octet_show read_given_char_def strip_prefix_def starts_with_def)
  then show ?thesis by (simp add: parse_ip_def)
qed

text \<open>\<^verbatim>\<open>trim\<close> leaves a string alone that begins and ends with a digit.\<close>

lemma white_space_no_digit:
  "list_all (\<lambda>w. w \<noteq> [] \<and> \<not> is_dec_digit (hd w) \<and> \<not> is_dec_digit (last w)) white_space_strings"
  by code_simp

lemma trim_start_by_none:
  assumes "\<And>w. w \<in> set ws \<Longrightarrow> w \<noteq> [] \<and> hd w \<noteq> c"
  shows "trim_start_by ws (c # s) = c # s"
proof -
  have "find (\<lambda>w. w \<noteq> [] \<and> starts_with (c # s) w) ws = None"
    using assms by (fastforce simp: find_None_iff starts_with_iff_prefix neq_Nil_conv)
  then show ?thesis by (simp add: trim_start_by.simps)
qed

lemma str_trim_digits:
  assumes "s \<noteq> []" and "is_dec_digit (hd s)" and "is_dec_digit (last s)"
  shows "str_trim s = s"
proof -
  obtain c r where "s = c # r" using assms(1) by (cases s) auto
  then have 1: "trim_start_by white_space_strings s = s"
    using white_space_no_digit assms(2) by (auto simp: list_all_iff intro!: trim_start_by_none)
  have "trim_start_by (map rev white_space_strings) (last s # rev (butlast s)) = last s # rev (butlast s)"
    using white_space_no_digit assms(3) by (intro trim_start_by_none) (auto simp: list_all_iff hd_rev)
  moreover have "last s # rev (butlast s) = rev s"
    using assms(1) by (metis append_butlast_last_id rev_eq_Cons_iff rev_rev_ident)
  ultimately have "trim_start_by (map rev white_space_strings) (rev s) = rev s" by simp
  with 1 show ?thesis by (simp add: str_trim_def)
qed

lemma show_nat_hd_last: "is_dec_digit (hd (show_nat n))" "is_dec_digit (last (show_nat n))"
  using show_nat_digits [of n] by (cases "show_nat n"; simp add: list_all_iff)+

section \<open>Bursts\<close>

lemma length_limiter_run [simp]: "length (limiter_run check rs s) = length rs"
  by (induction rs arbitrary: s) (simp_all add: case_prod_beta)

lemma decisions_for_same_key:
  "length ds = n \<Longrightarrow> decisions_for k (replicate n (t, k)) ds = ds"
proof -
  assume "length ds = n"
  then have "filter (\<lambda>(r, _). snd r = k) (zip (replicate n (t, k)) ds) = zip (replicate n (t, k)) ds"
    by (intro filter_True) (auto dest: set_zip_leftD)
  with \<open>length ds = n\<close> show ?thesis by (simp add: decisions_for_def)
qed

context bucket_params
begin

text \<open>Requests in one instant: as many as there are whole tokens are accepted, the rest refused.\<close>

lemma bucket_run_burst:
  assumes "real m \<le> cap" and "m \<le> 2 ^ 53"
  shows "bucket_run rate cap (Some \<lparr>tokens = real m, last_update = t\<rparr>) (replicate n t)
           = replicate (min m n) True @ replicate (n - m) False"
  using assms
proof (induction n arbitrary: m)
  case (Suc n)
  show ?case
  proof (cases m)
    case 0
    then show ?thesis using Suc.IH [of 0] cap_ge_1 by (simp add: bucket_take_def bucket_or_full_def)
  next
    case (Suc k)
    have "f64_round (real k + 1) = real k + 1"
      using f64_round_nat [of m] Suc.prems Suc by (simp add: add.commute)
    moreover have "f64_round (real k) = real k"
      using f64_round_nat [of k] Suc.prems Suc by simp
    ultimately show ?thesis
      using Suc.IH [of k] Suc.prems Suc
      by (simp add: bucket_take_def bucket_or_full_def add.commute min_def)
  qed
qed simp

end

section \<open>Properties\<close>

text \<open>every call keeps each limiter's buckets well-formed: distinct keys, token counts between
  zero and the burst capacity, no time stamp later than the call.\<close>

theorem limiters_invariant:
  assumes "t \<le> now"
  shows "(rl_ok t rl \<longrightarrow> rl_ok now (snd (rl_check_and_consume now ip rl))) \<and>
         (dc_ok t dl \<longrightarrow> dc_ok now (snd (dc_check_and_consume now cid dl)) \<and> dc_ok t (dc_remove_client cid dl))"
proof -
  have "dc_ok t (dc_remove_client cid dl)" if "dc_ok t dl"
    using that by (auto simp: dc_ok_iff dc.ok_def dc_params_def dc_remove_client_def hm_simps split: if_splits)
  then show ?thesis
    using rl.ok_check [of t rl now ip] dc.ok_check [of t dl now cid] assms by (simp add: rl_ok_iff dc_ok_iff)
qed

theorem limiters_invariant_witness:
  "rl_ok 9 (snd (rl_check_and_consume 9 (V4 10 0 0 1) GLOBAL_RATE_LIMITER)) \<and>
   dc_ok 9 (snd (dc_check_and_consume 9 42 DATACHANNEL_RATE_LIMITER))"
  using limiters_invariant [of 5 9 GLOBAL_RATE_LIMITER "V4 10 0 0 1" DATACHANNEL_RATE_LIMITER 42]
  by (simp add: rl_ok_global dc_ok_global)

text \<open>C20: the packets of one client are judged by that client's bucket alone: whatever the other
  clients send in between, and whenever stale buckets are dropped from memory, the decisions
  are those of a single token bucket run on the client's own packet times.\<close>

theorem dc_limiter_isolated:
  assumes "dc_ok t rl" and "sorted (t # map fst rs)"
  shows "decisions_for cid rs (limiter_run dc_check_and_consume rs rl) =
           bucket_run DATACHANNEL_RATE_LIMIT_REFILL DATACHANNEL_RATE_LIMIT_BURST (hm_get (dc_buckets rl) cid) (times_of cid rs)"
  using dc.run_isolated [of t rl rs cid] assms by (simp add: dc_ok_iff)

theorem dc_limiter_isolated_witness:
  "decisions_for (7 :: u64) [(3, 7), (4, 8), (9, 7)]
      (limiter_run dc_check_and_consume [(3, 7), (4, 8), (9, 7)] DATACHANNEL_RATE_LIMITER)
   = bucket_run DATACHANNEL_RATE_LIMIT_REFILL DATACHANNEL_RATE_LIMIT_BURST
       (hm_get (dc_buckets DATACHANNEL_RATE_LIMITER) 7) (times_of (7 :: u64) [(3, 7), (4, 8), (9, 7)])"
  by (rule dc_limiter_isolated [of 0]) (simp_all add: dc_ok_global)

text \<open>C21: in any window of time, with any traffic from others, an IP address has at most
  \<^verbatim>\<open>burst + refill * seconds\<close> requests accepted, up to the rounding error of doubles
  (a relative error of four roundings on the refill, \<open>10 / 2 ^ 52\<close> per request).\<close>

theorem http_limiter_window:
  assumes "rl_ok t rl" and "sorted (t # map fst rs)" and "times_of ip rs = u # us"
  shows "accepted (decisions_for ip rs (limiter_run rl_check_and_consume rs rl)) \<le>
           HTTP_SDP_RATE_LIMIT_BURST + refill_bound HTTP_SDP_RATE_LIMIT_REFILL (last (u # us) - u)
             + real (length (u # us)) * rounding_slack HTTP_SDP_RATE_LIMIT_BURST"
  using rl.run_window [of t rl rs ip u us] assms by (simp add: rl_ok_iff)

theorem http_limiter_window_witness:
  "accepted (decisions_for (V4 1 2 3 4) [(3, V4 1 2 3 4), (4, V4 9 9 9 9)]
      (limiter_run rl_check_and_consume [(3, V4 1 2 3 4), (4, V4 9 9 9 9)] GLOBAL_RATE_LIMITER))
   \<le> HTTP_SDP_RATE_LIMIT_BURST + rounding_slack HTTP_SDP_RATE_LIMIT_BURST"
  using http_limiter_window [OF rl_ok_global [of 0], of "[(3, V4 1 2 3 4), (4, V4 9 9 9 9)]" "V4 1 2 3 4" 3 "[]"]
  by (simp add: times_of_def)

text \<open>a client with no bucket yet that sends \<open>n\<close> packets in one instant has exactly the first
  200 of them accepted (WPIP-15, section 1.3).\<close>

theorem dc_limiter_burst:
  assumes "dc_ok t rl" and "hm_get (dc_buckets rl) cid = None" and "t \<le> now"
  shows "limiter_run dc_check_and_consume (replicate n (now, cid)) rl =
           replicate (min 200 n) True @ replicate (n - 200) False"
proof (cases n)
  case (Suc m)
  have tm: "times_of cid (replicate n (now, cid)) = replicate n now"
    by (simp add: times_of_def)
  have "sorted (t # map fst (replicate n (now, cid)))" using assms(3) by (simp add: sorted_replicate)
  then have "decisions_for cid (replicate n (now, cid)) (limiter_run dc_check_and_consume (replicate n (now, cid)) rl)
      = bucket_run DATACHANNEL_RATE_LIMIT_REFILL DATACHANNEL_RATE_LIMIT_BURST None (replicate n now)"
    using dc.run_isolated [of t rl "replicate n (now, cid)" cid] assms tm by (simp add: dc_ok_iff)
  also have "\<dots> = bucket_run DATACHANNEL_RATE_LIMIT_REFILL DATACHANNEL_RATE_LIMIT_BURST
      (Some \<lparr>tokens = real 200, last_update = now\<rparr>) (replicate n now)"
    using Suc by (simp add: bucket_or_full_def rate_consts)
  also have "\<dots> = replicate (min 200 n) True @ replicate (n - 200) False"
    by (rule dc.bucket_run_burst) (simp_all add: rate_consts)
  finally show ?thesis
    by (simp add: decisions_for_same_key)
qed simp

theorem dc_limiter_burst_witness:
  "limiter_run dc_check_and_consume (replicate 201 (5, 999)) DATACHANNEL_RATE_LIMITER = replicate 200 True @ [False]"
proof -
  have "hm_get (dc_buckets DATACHANNEL_RATE_LIMITER) 999 = None"
    by (simp add: DATACHANNEL_RATE_LIMITER_def DataChannelRateLimiter_new_def hm_simps)
  from dc_limiter_burst [OF dc_ok_global [of 0] this, of 5 201] show ?thesis by simp
qed

text \<open>forwarding headers have no influence on the address a request is charged to unless the
  socket peer is loopback or unspecified (WPIP-15, section 1.1); from such a peer a first
  \<^verbatim>\<open>X-Forwarded-For\<close> element that is an IPv4 address is what is charged.\<close>

theorem extract_ip_trust:
  "(\<not> (is_loopback peer \<or> is_unspecified peer) \<longrightarrow> extract_ip header (Some peer) = peer) \<and>
   (is_loopback peer \<or> is_unspecified peer \<longrightarrow>
      header ''x-forwarded-for'' = Some (show_ipv4 a b c d) \<longrightarrow> extract_ip header (Some peer) = V4 a b c d)"
proof -
  have "CHR '','' \<notin> set (show_ipv4 a b c d)"
    using show_nat_digits by (auto simp: show_ipv4_def list_all_iff is_dec_digit_def) fastforce+
  then have "takeWhile (\<lambda>x. x \<noteq> CHR '','') (show_ipv4 a b c d) = show_ipv4 a b c d"
    by (auto simp: takeWhile_eq_all_conv)
  moreover have "str_trim (show_ipv4 a b c d) = show_ipv4 a b c d"
    by (rule str_trim_digits) (simp_all add: show_ipv4_def show_nat_hd_last)
  ultimately have "parse_ip (str_trim (takeWhile (\<lambda>x. x \<noteq> CHR '','') (show_ipv4 a b c d))) = Some (V4 a b c d)"
    by (simp only: parse_show_ipv4)
  then show ?thesis by (simp add: extract_ip_def Let_def)
qed

theorem extract_ip_trust_witness:
  "extract_ip (\<lambda>_. Some ''1.2.3.4'') (Some (V4 203 0 113 50)) = V4 203 0 113 50
   \<and> extract_ip (\<lambda>_. Some (show_ipv4 192 168 1 100)) (Some (V4 127 0 0 1)) = V4 192 168 1 100"
  using extract_ip_trust [of "V4 203 0 113 50" "\<lambda>_. Some ''1.2.3.4''" 0 0 0 0]
    extract_ip_trust [of "V4 127 0 0 1" "\<lambda>_. Some (show_ipv4 192 168 1 100)" 192 168 1 100]
  by simp

text \<open>a sanitised IPv4 address shows its first two octets only.\<close>

theorem sanitize_ipv4:
  "sanitize_ip (show_ipv4 a b c d) = show_nat (unat a) @ ''.'' @ show_nat (unat b) @ ''.x.x''"
  by (simp add: sanitize_ip_def parse_show_ipv4)

end
