(* ===== verification/WP_Registry.thy ===== *)
theory WP_Registry
  imports WP_RateLimit
begin

text \<open>
  The client registry of the daemon (\<^verbatim>\<open>crates/wpdaemon/src/registry.rs\<close>, \<^verbatim>\<open>registry/client.rs\<close>,
  \<^verbatim>\<open>registry/room.rs\<close>): connected clients, call approvals and group rooms. Every operation is
  a function on the registry record; the source holds the registry behind one lock, so a
  critical section is one such function. \<^verbatim>\<open>Arc\<close> handles of peer connections and data channels
  are numbers. Clock readings are arguments.
\<close>

section \<open>State\<close>

type_synonym client_id = u64
type_synonym pc_handle = nat
type_synonym dc_handle = nat

datatype AddressSearchResult = Found client_id | NotFound | Ambiguous

definition matches_address :: "UserAddress \<Rightarrow> UserAddress \<Rightarrow> bool" where
  "matches_address addr key \<longleftrightarrow> addr_id addr = addr_id key"

definition matches_address_prefix :: "UserAddress \<Rightarrow> UserAddress \<Rightarrow> bool" where
  "matches_address_prefix addr key = matches_short_id_prefix addr key"

record ClientRegistry =
  peer_connections :: "(client_id, pc_handle) hmap"
  addresses :: "(client_id, UserAddress) hmap"
  targets :: "(client_id, UserAddress) hmap"
  data_channels :: "(client_id, dc_handle) hmap"
  approved_calls :: "(client_id, UserAddress list) hmap"
  rejected_calls :: "(client_id, UserAddress list) hmap"
  notified_requests :: "(client_id, client_id list) hmap"
  room_members :: "(UserAddress, client_id list) hmap"
  room_speakers :: "(UserAddress, (client_id, real \<times> nat) hmap) hmap"
  last_pong :: "(client_id, nat) hmap"
  connected_at :: "(client_id, nat) hmap"
  prev_top_k_speakers :: "(UserAddress, UserAddress list) hmap"

definition ClientRegistry_new :: ClientRegistry where
  "ClientRegistry_new =
     \<lparr>peer_connections = hm_new, addresses = hm_new, targets = hm_new, data_channels = hm_new,
      approved_calls = hm_new, rejected_calls = hm_new, notified_requests = hm_new,
      room_members = hm_new, room_speakers = hm_new, last_pong = hm_new, connected_at = hm_new,
      prev_top_k_speakers = hm_new\<rparr>"

section \<open>Clients and calls\<close>

definition find_client_by_address :: "ClientRegistry \<Rightarrow> UserAddress \<Rightarrow> AddressSearchResult" where
  "find_client_by_address reg target_key =
     (let clean_id = trim_end_matches (CHR ''0'') (addr_id target_key) in
      if length clean_id < 12 \<and> length (addr_id target_key) < 12 then NotFound
      else (let matches = map fst (filter (\<lambda>(cid, addr). matches_address_prefix addr target_key) (addresses reg)) in
            case matches of
              [cid] \<Rightarrow> Found cid
            | [] \<Rightarrow> NotFound
            | _ \<Rightarrow> Ambiguous))"

definition is_call_approved :: "ClientRegistry \<Rightarrow> client_id \<Rightarrow> UserAddress \<Rightarrow> bool" where
  "is_call_approved reg target_id caller_addr =
     (case hm_get (approved_calls reg) target_id of
        Some list \<Rightarrow> list_ex (\<lambda>a. matches_address a caller_addr) list
      | None \<Rightarrow> False)"

definition is_call_rejected :: "ClientRegistry \<Rightarrow> client_id \<Rightarrow> UserAddress \<Rightarrow> bool" where
  "is_call_rejected reg target_id caller_addr =
     (case hm_get (rejected_calls reg) target_id of
        Some list \<Rightarrow> list_ex (\<lambda>a. matches_address a caller_addr) list
      | None \<Rightarrow> False)"

definition push_unless :: "('a \<Rightarrow> bool) \<Rightarrow> 'a \<Rightarrow> 'a list \<Rightarrow> 'a list" where
  "push_unless P x xs = (if list_ex P xs then xs else xs @ [x])"

definition mark_call_approved :: "client_id \<Rightarrow> UserAddress \<Rightarrow> ClientRegistry \<Rightarrow> ClientRegistry" where
  "mark_call_approved target_id caller_addr reg =
     reg\<lparr>approved_calls :=
       hm_modify target_id (push_unless (\<lambda>a. matches_address a caller_addr) caller_addr)
         (hm_or_insert target_id [] (approved_calls reg))\<rparr>"

definition mark_call_rejected :: "client_id \<Rightarrow> UserAddress \<Rightarrow> ClientRegistry \<Rightarrow> ClientRegistry" where
  "mark_call_rejected target_id caller_addr reg =
     reg\<lparr>rejected_calls :=
       hm_modify target_id (push_unless (\<lambda>a. matches_address a caller_addr) caller_addr)
         (hm_or_insert target_id [] (rejected_calls reg))\<rparr>"

definition has_been_notified :: "ClientRegistry \<Rightarrow> client_id \<Rightarrow> client_id \<Rightarrow> bool" where
  "has_been_notified reg target_id caller_id =
     (case hm_get (notified_requests reg) target_id of
        Some list \<Rightarrow> caller_id \<in> set list
      | None \<Rightarrow> False)"

definition mark_notified :: "client_id \<Rightarrow> client_id \<Rightarrow> ClientRegistry \<Rightarrow> ClientRegistry" where
  "mark_notified target_id caller_id reg =
     reg\<lparr>notified_requests :=
       hm_modify target_id (push_unless (\<lambda>c. c = caller_id) caller_id)
         (hm_or_insert target_id [] (notified_requests reg))\<rparr>"

definition clear_call_session :: "client_id \<Rightarrow> UserAddress \<Rightarrow> ClientRegistry \<Rightarrow> ClientRegistry" where
  "clear_call_session client_id target_key reg =
     (let target_cid = find_client_by_address reg target_key;
          my_addr = hm_get (addresses reg) client_id;
          reg = reg\<lparr>targets := hm_remove client_id (targets reg)\<rparr>;
          drop_target = filter (\<lambda>a. \<not> matches_address a target_key);
          reg = reg\<lparr>approved_calls := hm_modify client_id drop_target (approved_calls reg),
                    rejected_calls := hm_modify client_id drop_target (rejected_calls reg)\<rparr>;
          reg = (case target_cid of
              Found t_cid \<Rightarrow>
                (let drop_me = (case my_addr of
                       Some addr \<Rightarrow> filter (\<lambda>a. \<not> matches_address a addr)
                     | None \<Rightarrow> (\<lambda>list. list))
                 in reg\<lparr>targets := hm_remove t_cid (targets reg),
                        approved_calls := hm_modify t_cid drop_me (approved_calls reg),
                        rejected_calls := hm_modify t_cid drop_me (rejected_calls reg),
                        notified_requests :=
                          hm_modify client_id (filter (\<lambda>cid. cid \<noteq> t_cid))
                            (hm_modify t_cid (filter (\<lambda>cid. cid \<noteq> client_id)) (notified_requests reg))\<rparr>)
            | _ \<Rightarrow> reg)
      in reg\<lparr>targets := hm_retain (\<lambda>cid addr.
            \<not> (cid = client_id
               \<or> target_cid = Found cid
               \<or> matches_address addr target_key \<or> matches_address_prefix addr target_key
               \<or> (case my_addr of Some ma \<Rightarrow> matches_address addr ma \<or> matches_address_prefix addr ma | None \<Rightarrow> False)))
          (targets reg)\<rparr>)"

text \<open>The stages of \<^verbatim>\<open>unregister_client\<close>: the client's own entries, its address in the approval
  lists of others, and its room memberships.\<close>

definition drop_client_entries :: "client_id \<Rightarrow> ClientRegistry \<Rightarrow> ClientRegistry" where
  "drop_client_entries client_id reg =
     reg\<lparr>peer_connections := hm_remove client_id (peer_connections reg),
         addresses := hm_remove client_id (addresses reg),
         targets := hm_remove client_id (targets reg),
         data_channels := hm_remove client_id (data_channels reg),
         approved_calls := hm_remove client_id (approved_calls reg),
         rejected_calls := hm_remove client_id (rejected_calls reg),
         notified_requests := hm_remove client_id (notified_requests reg),
         last_pong := hm_remove client_id (last_pong reg),
         connected_at := hm_remove client_id (connected_at reg)\<rparr>"

definition drop_address_approvals :: "UserAddress \<Rightarrow> ClientRegistry \<Rightarrow> ClientRegistry" where
  "drop_address_approvals addr reg =
     reg\<lparr>approved_calls := hm_map_values (filter (\<lambda>a. \<not> matches_address a addr)) (approved_calls reg),
         rejected_calls := hm_map_values (filter (\<lambda>a. \<not> matches_address a addr)) (rejected_calls reg)\<rparr>"

definition drop_from_rooms :: "client_id \<Rightarrow> ClientRegistry \<Rightarrow> ClientRegistry" where
  "drop_from_rooms client_id reg =
     reg\<lparr>room_members := hm_map_values (filter (\<lambda>cid. cid \<noteq> client_id)) (room_members reg),
         room_speakers := hm_map_values (hm_remove client_id) (room_speakers reg)\<rparr>"

text \<open>\<^verbatim>\<open>unregister_client\<close> also drops the client's bucket from \<^verbatim>\<open>DATACHANNEL_RATE_LIMITER\<close>.\<close>

definition unregister_client ::
    "client_id \<Rightarrow> ClientRegistry \<times> DataChannelRateLimiter \<Rightarrow> ClientRegistry \<times> DataChannelRateLimiter" where
  "unregister_client client_id st =
     (let (reg, dl) = st;
          my_addr = hm_get (addresses reg) client_id;
          my_target = hm_get (targets reg) client_id;
          reg = drop_client_entries client_id reg;
          reg = (case my_target of Some target \<Rightarrow> clear_call_session client_id target reg | None \<Rightarrow> reg);
          reg = (case my_addr of Some addr \<Rightarrow> drop_address_approvals addr reg | None \<Rightarrow> reg);
          reg = drop_from_rooms client_id reg
      in (reg, dc_remove_client client_id dl))"

definition register_client ::
    "nat \<Rightarrow> client_id \<Rightarrow> UserAddress \<Rightarrow> pc_handle \<Rightarrow>
     ClientRegistry \<times> DataChannelRateLimiter \<Rightarrow> ClientRegistry \<times> DataChannelRateLimiter" where
  "register_client now client_id user_address peer_connection st =
     (let old_cids = map fst (filter (\<lambda>(cid, addr). cid \<noteq> client_id \<and> addr_id addr = addr_id user_address)
                                (addresses (fst st)));
          (reg, dl) = fold unregister_client old_cids st
      in (reg\<lparr>peer_connections := hm_insert client_id peer_connection (peer_connections reg),
              addresses := hm_insert client_id user_address (addresses reg),
              connected_at := hm_insert client_id now (connected_at reg),
              last_pong := hm_insert client_id now (last_pong reg)\<rparr>, dl))"

definition get_registered_addresses :: "ClientRegistry \<Rightarrow> UserAddress list" where
  "get_registered_addresses reg = remdups_adj (sort_key addr_id (hm_values (addresses reg)))"

section \<open>Rooms\<close>

definition is_client_in_room :: "ClientRegistry \<Rightarrow> client_id \<Rightarrow> UserAddress \<Rightarrow> bool" where
  "is_client_in_room reg client_id room_key =
     (let my_addr = hm_get (addresses reg) client_id;
          my_target = hm_get (targets reg) client_id
      in (case my_addr of
            Some addr \<Rightarrow> matches_address addr room_key \<or> matches_address_prefix addr room_key
          | None \<Rightarrow> False)
         \<or> (case my_target of
              Some target \<Rightarrow> matches_address target room_key \<or> matches_address_prefix target room_key
                \<or> matches_address_prefix room_key target
            | None \<Rightarrow> False))"

definition counts_for_room :: "ClientRegistry \<Rightarrow> UserAddress \<Rightarrow> client_id \<times> UserAddress \<Rightarrow> bool" where
  "counts_for_room reg room_key entry =
     (let (cid, addr) = entry in
      matches_address addr room_key \<or> matches_address_prefix addr room_key
      \<or> (case hm_get (targets reg) cid of
           Some t \<Rightarrow> matches_address t room_key \<or> matches_address_prefix t room_key
             \<or> matches_address_prefix room_key t
         | None \<Rightarrow> False))"

definition get_participant_count_for_room :: "ClientRegistry \<Rightarrow> UserAddress \<Rightarrow> nat" where
  "get_participant_count_for_room reg room_key = length (filter (counts_for_room reg room_key) (addresses reg))"

definition is_client_in_same_call :: "ClientRegistry \<Rightarrow> client_id \<Rightarrow> UserAddress \<Rightarrow> bool" where
  "is_client_in_same_call reg client_id target_key =
     (if is_client_in_room reg client_id target_key then True
      else case hm_get (addresses reg) client_id of
        None \<Rightarrow> False
      | Some my_addr \<Rightarrow>
          list_ex (\<lambda>(cid, addr).
            (matches_address addr target_key \<or> matches_address_prefix addr target_key)
            \<and> (case hm_get (targets reg) cid of
                 Some other_target \<Rightarrow> matches_address other_target my_addr
                   \<or> matches_address_prefix my_addr other_target
                   \<or> matches_address_prefix other_target my_addr
               | None \<Rightarrow> False)) (addresses reg))"

definition is_room_or_target_full :: "ClientRegistry \<Rightarrow> UserAddress \<Rightarrow> bool" where
  "is_room_or_target_full reg target_key =
     (if 2 \<le> get_participant_count_for_room reg target_key then True
      else list_ex (\<lambda>(cid, addr).
        (matches_address addr target_key \<or> matches_address_prefix addr target_key)
        \<and> (case hm_get (targets reg) cid of
             Some other_room \<Rightarrow> \<not> matches_address other_room target_key
               \<and> \<not> matches_address_prefix other_room target_key
               \<and> 2 \<le> get_participant_count_for_room reg other_room
           | None \<Rightarrow> False)) (addresses reg))"

text \<open>The first key of \<^verbatim>\<open>room_members\<close> in iteration order that a test accepts.\<close>

definition find_room_key :: "(UserAddress \<Rightarrow> bool) \<Rightarrow> ClientRegistry \<Rightarrow> UserAddress option" where
  "find_room_key P reg = List.find P (hm_keys (room_members reg))"

definition join_room_with_limit ::
    "client_id \<Rightarrow> UserAddress \<Rightarrow> nat \<Rightarrow> ClientRegistry \<Rightarrow> (u32, string) result \<times> ClientRegistry" where
  "join_room_with_limit client_id room_address max_members reg =
     (let target_key = (case find_room_key (\<lambda>key. matches_address key room_address) reg of
                          Some key \<Rightarrow> key | None \<Rightarrow> room_address);
          rooms = hm_or_insert target_key [] (room_members reg);
          members = the (hm_get rooms target_key)
      in if client_id \<notin> set members
         then (if max_members \<le> length members
               then (Err ''Room member limit reached'', reg\<lparr>room_members := rooms\<rparr>)
               else (Ok (of_nat (length (members @ [client_id]))),
                     reg\<lparr>room_members := hm_insert target_key (members @ [client_id]) rooms\<rparr>))
         else (Ok (of_nat (length members)), reg\<lparr>room_members := rooms\<rparr>))"

definition join_room :: "client_id \<Rightarrow> UserAddress \<Rightarrow> ClientRegistry \<Rightarrow> u32 \<times> ClientRegistry" where
  "join_room client_id room_address reg =
     (case join_room_with_limit client_id room_address 50 reg of
        (Inr n, reg) \<Rightarrow> (n, reg)
      | (Inl _, reg) \<Rightarrow>
          (let target_key = (case find_room_key (\<lambda>key. matches_address key room_address) reg of
                               Some key \<Rightarrow> key | None \<Rightarrow> room_address)
           in (case hm_get (room_members reg) target_key of
                 Some m \<Rightarrow> of_nat (length m) | None \<Rightarrow> 0, reg)))"

definition leave_room :: "client_id \<Rightarrow> UserAddress \<Rightarrow> ClientRegistry \<Rightarrow> u32 \<times> ClientRegistry" where
  "leave_room client_id room_address reg =
     (case find_room_key (\<lambda>key. matches_address key room_address \<or> matches_address_prefix key room_address) reg of
        None \<Rightarrow> (0, reg)
      | Some r_key \<Rightarrow>
          (let rooms = hm_modify r_key (filter (\<lambda>cid. cid \<noteq> client_id)) (room_members reg)
           in (case hm_get rooms r_key of Some members \<Rightarrow> of_nat (length members) | None \<Rightarrow> 0,
               reg\<lparr>room_members := rooms,
                   room_speakers := hm_modify r_key (hm_remove client_id) (room_speakers reg)\<rparr>)))"

definition get_room_member_ids :: "ClientRegistry \<Rightarrow> UserAddress \<Rightarrow> client_id list" where
  "get_room_member_ids reg room_address =
     (case List.find (\<lambda>(room_key, _). matches_address room_key room_address
             \<or> matches_address_prefix room_key room_address) (room_members reg) of
        Some (_, members) \<Rightarrow> members
      | None \<Rightarrow> [])"

definition update_speaker_energy ::
    "nat \<Rightarrow> UserAddress \<Rightarrow> client_id \<Rightarrow> real \<Rightarrow> ClientRegistry \<Rightarrow>
     (bool \<times> UserAddress list \<times> bool) \<times> ClientRegistry" where
  "update_speaker_energy now room_address client_id energy reg =
     (let room_key = (case find_room_key (\<lambda>key. matches_address key room_address
                             \<or> matches_address_prefix key room_address) reg of
                        Some key \<Rightarrow> key | None \<Rightarrow> room_address);
          rooms = hm_or_insert room_key hm_new (room_speakers reg);
          speakers = hm_insert client_id (energy, now) (the (hm_get rooms room_key));
          speakers = hm_retain (\<lambda>_ (_, last_seen). as_secs_f64 (now - last_seen) \<le> 3) speakers;
          reg = reg\<lparr>room_speakers := hm_insert room_key speakers rooms\<rparr>;
          speaker_list = map (\<lambda>(cid, (eng, _)). (cid, eng)) speakers;
          speaker_list = sort_key (\<lambda>(_, eng). - eng) speaker_list;
          top_k_cids = map fst (take 3 speaker_list);
          is_top_k = client_id \<in> set top_k_cids;
          top_k_addrs = List.map_filter (hm_get (addresses reg)) top_k_cids;
          list_changed = (case hm_get (prev_top_k_speakers reg) room_key of
              Some prev \<Rightarrow> prev \<noteq> top_k_addrs
            | None \<Rightarrow> top_k_addrs \<noteq> []);
          reg = (if list_changed
                 then reg\<lparr>prev_top_k_speakers := hm_insert room_key top_k_addrs (prev_top_k_speakers reg)\<rparr>
                 else reg)
      in ((is_top_k, top_k_addrs, list_changed), reg))"

definition update_last_pong :: "nat \<Rightarrow> client_id \<Rightarrow> ClientRegistry \<Rightarrow> ClientRegistry" where
  "update_last_pong now client_id reg = reg\<lparr>last_pong := hm_insert client_id now (last_pong reg)\<rparr>"

definition get_stale_clients :: "nat \<Rightarrow> ClientRegistry \<Rightarrow> nat \<Rightarrow> client_id list" where
  "get_stale_clients now reg timeout_secs =
     map fst (filter (\<lambda>(_, last_seen). timeout_secs \<le> (now - last_seen) div 1000000000) (last_pong reg))"

section \<open>The invariant of the registry\<close>

text \<open>Keys are distinct, lists of approvals, notifications and members have no duplicates, rooms
  have at most 50 members, and no two clients are registered under one address.\<close>

definition maps_wf :: "ClientRegistry \<Rightarrow> bool" where
  "maps_wf reg \<longleftrightarrow>
     hm_wf (peer_connections reg) \<and> hm_wf (addresses reg) \<and> hm_wf (targets reg) \<and> hm_wf (data_channels reg)
     \<and> hm_wf (approved_calls reg) \<and> hm_wf (rejected_calls reg) \<and> hm_wf (notified_requests reg)
     \<and> hm_wf (room_members reg) \<and> hm_wf (room_speakers reg) \<and> hm_wf (last_pong reg)
     \<and> hm_wf (connected_at reg) \<and> hm_wf (prev_top_k_speakers reg)"

definition lists_wf :: "ClientRegistry \<Rightarrow> bool" where
  "lists_wf reg \<longleftrightarrow>
     hm_all (\<lambda>_. distinct) (approved_calls reg) \<and> hm_all (\<lambda>_. distinct) (rejected_calls reg)
     \<and> hm_all (\<lambda>_. distinct) (notified_requests reg)
     \<and> hm_all (\<lambda>_ m. distinct m \<and> length m \<le> 50) (room_members reg)
     \<and> hm_all (\<lambda>_. hm_wf) (room_speakers reg)
     \<and> hm_all (\<lambda>_ a. length a \<le> 3) (prev_top_k_speakers reg)"

definition unique_addresses :: "ClientRegistry \<Rightarrow> bool" where
  "unique_addresses reg \<longleftrightarrow> distinct (hm_values (addresses reg))"

definition reg_wf :: "ClientRegistry \<Rightarrow> bool" where
  "reg_wf reg \<longleftrightarrow> maps_wf reg \<and> lists_wf reg \<and> unique_addresses reg"

lemma matches_address_iff [simp]: "matches_address a b \<longleftrightarrow> a = b"
  by (simp add: matches_address_def addr_eq_iff)

lemma distinct_push_unless: "distinct xs \<Longrightarrow> distinct (push_unless (\<lambda>a. a = x) x xs)"
  by (auto simp: push_unless_def list_ex_iff)

lemma set_push_unless [simp]: "set (push_unless (\<lambda>a. a = x) x xs) = insert x (set xs)"
  by (auto simp: push_unless_def list_ex_iff)

lemma unique_addresses_iff:
  assumes "hm_wf (addresses reg)"
  shows "unique_addresses reg \<longleftrightarrow>
     (\<forall>c d a. hm_get (addresses reg) c = Some a \<longrightarrow> hm_get (addresses reg) d = Some a \<longrightarrow> c = d)"
proof -
  have d: "distinct (addresses reg)"
    using assms by (simp add: hm_wf_def distinct_map)
  have "unique_addresses reg \<longleftrightarrow> inj_on snd (set (addresses reg))"
    using d by (simp add: unique_addresses_def hm_values_def distinct_map)
  also have "\<dots> \<longleftrightarrow> (\<forall>c d a. (c, a) \<in> set (addresses reg) \<longrightarrow> (d, a) \<in> set (addresses reg) \<longrightarrow> c = d)"
    by (fastforce simp: inj_on_def)
  finally show ?thesis by (simp add: hm_in_get [OF assms])
qed

lemma unique_addresses_retain:
  "unique_addresses reg \<Longrightarrow> addresses reg' = hm_retain P (addresses reg) \<Longrightarrow> unique_addresses reg'"
  by (simp add: unique_addresses_def hm_values_def hm_retain_def distinct_map_filter)

lemmas reg_ops =
  mark_call_approved_def mark_call_rejected_def mark_notified_def update_last_pong_def

lemma addresses_clear_call_session [simp]:
  "addresses (clear_call_session cid key reg) = addresses reg"
  "peer_connections (clear_call_session cid key reg) = peer_connections reg"
  "data_channels (clear_call_session cid key reg) = data_channels reg"
  "room_members (clear_call_session cid key reg) = room_members reg"
  "room_speakers (clear_call_session cid key reg) = room_speakers reg"
  "last_pong (clear_call_session cid key reg) = last_pong reg"
  "connected_at (clear_call_session cid key reg) = connected_at reg"
  "prev_top_k_speakers (clear_call_session cid key reg) = prev_top_k_speakers reg"
  by (simp_all add: clear_call_session_def Let_def split: AddressSearchResult.splits)

lemma clear_call_session_wf:
  assumes "reg_wf reg"
  shows "reg_wf (clear_call_session cid key reg)"
proof -
  have "maps_wf (clear_call_session cid key reg)"
    using assms
    by (auto simp: reg_wf_def maps_wf_def clear_call_session_def Let_def split: AddressSearchResult.splits option.splits)
  moreover have "lists_wf (clear_call_session cid key reg)"
    using assms
    by (auto simp: reg_wf_def lists_wf_def clear_call_session_def Let_def
          split: AddressSearchResult.splits option.splits intro!: hm_all_modify)
  ultimately show ?thesis
    using assms by (simp add: reg_wf_def unique_addresses_def)
qed

lemma mark_ops_wf:
  assumes "reg_wf reg"
  shows "reg_wf (mark_call_approved cid a reg)" "reg_wf (mark_call_rejected cid a reg)"
    "reg_wf (mark_notified cid d reg)" "reg_wf (update_last_pong now cid reg)"
  using assms
  by (auto simp: reg_wf_def maps_wf_def lists_wf_def unique_addresses_def reg_ops distinct_push_unless
        intro!: hm_all_modify hm_all_or_insert)

lemma drop_stages_wf:
  assumes "reg_wf reg"
  shows "reg_wf (drop_client_entries cid reg)" "reg_wf (drop_address_approvals a reg)" "reg_wf (drop_from_rooms cid reg)"
proof -
  show "reg_wf (drop_client_entries cid reg)"
    using assms unique_addresses_retain [of reg "drop_client_entries cid reg" "\<lambda>k _. k \<noteq> cid"]
    by (auto simp: reg_wf_def maps_wf_def lists_wf_def drop_client_entries_def hm_remove_retain)
  show "reg_wf (drop_address_approvals a reg)"
    using assms
    by (auto simp: reg_wf_def maps_wf_def lists_wf_def unique_addresses_def drop_address_approvals_def)
  show "reg_wf (drop_from_rooms cid reg)"
    using assms
    by (auto simp: reg_wf_def maps_wf_def lists_wf_def unique_addresses_def drop_from_rooms_def
          le_trans [OF length_filter_le])
qed

lemma unregister_client_wf: "reg_wf (fst st) \<Longrightarrow> reg_wf (fst (unregister_client cid st))"
  by (auto simp: unregister_client_def Let_def case_prod_beta drop_stages_wf clear_call_session_wf split: option.splits)

lemma fold_unregister_wf: "reg_wf (fst st) \<Longrightarrow> reg_wf (fst (fold unregister_client cids st))"
  by (induction cids arbitrary: st) (simp_all add: unregister_client_wf)

lemma addresses_unregister [simp]:
  "addresses (fst (unregister_client cid st)) = hm_remove cid (addresses (fst st))"
  by (simp add: unregister_client_def Let_def case_prod_beta drop_from_rooms_def drop_address_approvals_def
      drop_client_entries_def split: option.splits)

lemma get_addresses_fold_unregister:
  "hm_get (addresses (fst (fold unregister_client cids st))) c = (if c \<in> set cids then None else hm_get (addresses (fst st)) c)"
  by (induction cids arbitrary: st) (auto simp: hm_simps)

lemma register_client_addresses:
  assumes "hm_wf (addresses (fst st))"
  shows "hm_get (addresses (fst (register_client now cid a pc st))) c =
     (if c = cid then Some a else if hm_get (addresses (fst st)) c = Some a then None else hm_get (addresses (fst st)) c)"
proof -
  have "c \<in> set (map fst (filter (\<lambda>(c, b). c \<noteq> cid \<and> addr_id b = addr_id a) (addresses (fst st))))
          \<longleftrightarrow> c \<noteq> cid \<and> hm_get (addresses (fst st)) c = Some a"
    using assms by (force simp: hm_in_get addr_eq_iff)
  then show ?thesis
    by (auto simp: register_client_def Let_def case_prod_beta hm_simps get_addresses_fold_unregister)
qed

lemma register_client_wf:
  assumes "reg_wf (fst st)"
  shows "reg_wf (fst (register_client now cid a pc st))"
proof -
  have w: "hm_wf (addresses (fst st))" using assms by (simp add: reg_wf_def maps_wf_def)
  have m: "maps_wf (fst (register_client now cid a pc st))" "lists_wf (fst (register_client now cid a pc st))"
    using fold_unregister_wf [OF assms]
    by (simp_all add: register_client_def Let_def case_prod_beta reg_wf_def maps_wf_def lists_wf_def)
  have "unique_addresses (fst st)" using assms by (simp add: reg_wf_def)
  then have "unique_addresses (fst (register_client now cid a pc st))"
    using m(1) w
    by (auto simp: unique_addresses_iff maps_wf_def register_client_addresses split: if_splits)
  with m show ?thesis by (simp add: reg_wf_def)
qed

section \<open>Rooms\<close>

definition members_of :: "ClientRegistry \<Rightarrow> UserAddress \<Rightarrow> client_id list" where
  "members_of reg room = (case hm_get (room_members reg) room of Some m \<Rightarrow> m | None \<Rightarrow> [])"

lemma find_room_key_exact:
  "(case find_room_key (\<lambda>key. key = room) reg of Some key \<Rightarrow> key | None \<Rightarrow> room) = room"
  by (auto simp: find_room_key_def find_Some_iff split: option.splits)

lemma find_room_key_Some: "find_room_key P reg = Some key \<Longrightarrow> P key \<and> hm_get (room_members reg) key \<noteq> None"
  unfolding find_room_key_def hm_keys_iff [symmetric] by (auto simp: find_Some_iff)

lemma join_room_with_limit_cases:
  "fst (join_room_with_limit cid room mx reg) =
     (if cid \<in> set (members_of reg room) then Ok (of_nat (length (members_of reg room)))
      else if mx \<le> length (members_of reg room) then Err ''Room member limit reached''
      else Ok (of_nat (Suc (length (members_of reg room)))))"
  "members_of (snd (join_room_with_limit cid room mx reg)) r =
     (if r = room \<and> cid \<notin> set (members_of reg room) \<and> length (members_of reg room) < mx
      then members_of reg room @ [cid] else members_of reg r)"
  by (auto simp: join_room_with_limit_def find_room_key_exact Let_def members_of_def hm_simps split: option.splits)

lemma join_room_with_limit_wf:
  assumes "reg_wf reg" and "mx \<le> 50"
  shows "reg_wf (snd (join_room_with_limit cid room mx reg))"
proof -
  have "distinct (members_of reg room) \<and> length (members_of reg room) \<le> 50"
    using assms(1) hm_all_get [of _ "room_members reg" room]
    by (auto simp: members_of_def reg_wf_def lists_wf_def split: option.splits)
  then show ?thesis
    using assms
    by (auto simp: reg_wf_def maps_wf_def lists_wf_def unique_addresses_def join_room_with_limit_def
          find_room_key_exact Let_def members_of_def hm_simps split: option.splits
          intro!: hm_all_insert hm_all_or_insert)
qed

lemma join_room_snd: "snd (join_room cid room reg) = snd (join_room_with_limit cid room 50 reg)"
  by (auto simp: join_room_def Let_def split: prod.splits sum.splits)

lemma leave_room_wf: "reg_wf reg \<Longrightarrow> reg_wf (snd (leave_room cid room reg))"
  by (auto simp: reg_wf_def maps_wf_def lists_wf_def unique_addresses_def leave_room_def Let_def
        le_trans [OF length_filter_le] split: option.splits)

definition speaker_room_key :: "ClientRegistry \<Rightarrow> UserAddress \<Rightarrow> UserAddress" where
  "speaker_room_key reg room =
     (case find_room_key (\<lambda>key. matches_address key room \<or> matches_address_prefix key room) reg of
        Some key \<Rightarrow> key | None \<Rightarrow> room)"

definition speakers_of :: "ClientRegistry \<Rightarrow> UserAddress \<Rightarrow> (client_id, real \<times> nat) hmap" where
  "speakers_of reg key = (case hm_get (room_speakers reg) key of Some s \<Rightarrow> s | None \<Rightarrow> hm_new)"

text \<open>The speakers that stay, the ranked list and the top three.\<close>

definition live_speakers :: "nat \<Rightarrow> client_id \<Rightarrow> real \<Rightarrow> (client_id, real \<times> nat) hmap \<Rightarrow> (client_id, real \<times> nat) hmap" where
  "live_speakers now cid energy sp =
     hm_retain (\<lambda>_ (_, last_seen). as_secs_f64 (now - last_seen) \<le> 3) (hm_insert cid (energy, now) sp)"

definition ranked :: "(client_id, real \<times> nat) hmap \<Rightarrow> (client_id \<times> real) list" where
  "ranked sp = sort_key (\<lambda>(_, eng). - eng) (map (\<lambda>(cid, (eng, _)). (cid, eng)) sp)"

lemma update_speaker_energy_eq:
  assumes "key = speaker_room_key reg room"
    and "sp = live_speakers now cid energy (speakers_of reg key)"
    and "cids = map fst (take 3 (ranked sp))"
    and "addrs = List.map_filter (hm_get (addresses reg)) cids"
    and "changed = (case hm_get (prev_top_k_speakers reg) key of Some prev \<Rightarrow> prev \<noteq> addrs | None \<Rightarrow> addrs \<noteq> [])"
  shows "update_speaker_energy now room cid energy reg =
     ((cid \<in> set cids, addrs, changed),
      reg\<lparr>room_speakers := hm_insert key sp (hm_or_insert key hm_new (room_speakers reg)),
          prev_top_k_speakers := (if changed then hm_insert key addrs (prev_top_k_speakers reg) else prev_top_k_speakers reg)\<rparr>)"
proof -
  have "the (hm_get (hm_or_insert key hm_new (room_speakers reg)) key) = speakers_of reg key"
    by (simp add: hm_simps speakers_of_def)
  then have sp: "hm_retain (\<lambda>_ (_, last_seen). as_secs_f64 (now - last_seen) \<le> 3)
      (hm_insert cid (energy, now) (the (hm_get (hm_or_insert key hm_new (room_speakers reg)) key))) = sp"
    by (simp only: assms(2) live_speakers_def)
  show ?thesis
    unfolding update_speaker_energy_def Let_def speaker_room_key_def [symmetric] assms(1) [symmetric] sp
      ranked_def [symmetric]
    by (cases "hm_get (prev_top_k_speakers reg) key") (simp_all add: assms(3-5))
qed

lemma length_map_filter_take: "length (List.map_filter f (map g (take 3 xs))) \<le> 3"
  using length_filter_le [of "\<lambda>x. f x \<noteq> None" "map g (take 3 xs)"] by (simp add: List.map_filter_def comp_def)

lemma update_speaker_energy_wf:
  assumes "reg_wf reg"
  shows "reg_wf (snd (update_speaker_energy now room cid energy reg))"
proof -
  have "hm_wf (speakers_of reg key)" for key
    using assms hm_all_get [of _ "room_speakers reg" key]
    by (auto simp: speakers_of_def reg_wf_def lists_wf_def split: option.splits)
  then have "hm_wf (live_speakers now cid energy (speakers_of reg key))" for key
    by (simp add: live_speakers_def)
  then show ?thesis
    using assms
    by (subst update_speaker_energy_eq [OF refl refl refl refl refl])
       (auto simp: reg_wf_def maps_wf_def lists_wf_def unique_addresses_def length_map_filter_take intro!: hm_all_insert hm_all_or_insert)
qed

text \<open>The top three: left out only behind three others that are at least as loud, kept only if
  fewer than three are louder.\<close>

lemma length_filter_ranked:
  "length (filter P (ranked sp)) = length (filter (\<lambda>(c, (e, _)). P (c, e)) sp)"
proof -
  have "length (filter P (ranked sp)) = size (filter_mset P (mset (ranked sp)))"
    by (metis mset_filter size_mset)
  also have "\<dots> = length (filter P (map (\<lambda>(c, (e, _)). (c, e)) sp))"
    unfolding ranked_def mset_sort by (metis mset_filter size_mset)
  finally show ?thesis by (simp add: filter_map comp_def case_prod_unfold)
qed

lemma set_ranked: "hm_wf sp \<Longrightarrow> (c, e) \<in> set (ranked sp) \<longleftrightarrow> (\<exists>t. hm_get sp c = Some (e, t))"
  by (force simp: ranked_def hm_in_get [symmetric])

lemma top3_sound:
  assumes "hm_wf sp" and "hm_get sp cid = Some (e, t)" and "cid \<in> set (map fst (take 3 (ranked sp)))"
  shows "length (filter (\<lambda>(c, (e', _)). e < e') sp) < 3"
proof -
  define L where "L = ranked sp"
  have srt: "sorted (map (\<lambda>(_, eng). - eng) L)" by (simp add: L_def ranked_def)
  obtain i where i: "i < 3" "i < length L" "fst (L ! i) = cid"
    using assms(3) by (auto simp: in_set_conv_nth L_def)
  have Li: "L ! i = (cid, snd (L ! i))" by (simp add: prod_eq_iff i(3))
  then have "(cid, snd (L ! i)) \<in> set (ranked sp)" using nth_mem [OF i(2)] by (simp add: L_def)
  then have "snd (L ! i) = e" unfolding set_ranked [OF assms(1)] using assms(2) by auto
  then have e: "L ! i = (cid, e)" using Li by simp
  have "e' \<le> e" if x: "(c, e') \<in> set (drop i L)" for c e'
  proof -
    obtain j where j: "j < length L - i" "L ! (i + j) = (c, e')"
      using x i(2) by (auto simp: in_set_conv_nth)
    show ?thesis using sorted_nth_mono [OF srt, of i "i + j"] i(2) j e by simp
  qed
  then have "filter (\<lambda>(c, e'). e < e') (drop i L) = []"
    by (fastforce simp: filter_empty_conv)
  then have "length (filter (\<lambda>(c, e'). e < e') L) \<le> i"
    using i length_filter_le [of "\<lambda>(c, e'). e < e'" "take i L"]
    by (metis append_Nil2 append_take_drop_id filter_append length_take min.absorb2 nat_less_le)
  then show ?thesis
    using i(1) length_filter_ranked [of "\<lambda>(c, e'). e < e'" sp] by (simp add: L_def)
qed

lemma top3_complete:
  assumes "hm_wf sp" and "hm_get sp cid = Some (e, t)" and "cid \<notin> set (map fst (take 3 (ranked sp)))"
  shows "3 \<le> length (filter (\<lambda>(c, (e', _)). c \<noteq> cid \<and> e \<le> e') sp)"
proof -
  define L where "L = ranked sp"
  have srt: "sorted (map (\<lambda>(_, eng). - eng) (take 3 L @ drop 3 L))" by (simp add: L_def ranked_def)
  have "(cid, e) \<in> set L" using set_ranked [OF assms(1)] assms(2) by (auto simp: L_def)
  then have d: "(cid, e) \<in> set (drop 3 L)"
    using assms(3) by (metis (no_types, lifting) L_def Un_iff append_take_drop_id fst_conv image_eqI list.set_map set_append)
  then have l: "length (take 3 L) = 3"
    by (metis drop_all le_cases length_take list.set(1) empty_iff min.absorb2)
  have all: "filter (\<lambda>(c, e'). c \<noteq> cid \<and> e \<le> e') (take 3 L) = take 3 L"
  proof (rule filter_True, rule ballI, clarify)
    fix c e' assume x: "(c, e') \<in> set (take 3 L)"
    have "e \<le> e'" using srt x d unfolding map_append sorted_append by fastforce
    moreover have "c \<noteq> cid" using x assms(3) by (force simp: L_def)
    ultimately show "c \<noteq> cid \<and> e \<le> e'" by simp
  qed
  have "length (filter (\<lambda>(c, e'). c \<noteq> cid \<and> e \<le> e') (take 3 L)) \<le> length (filter (\<lambda>(c, e'). c \<noteq> cid \<and> e \<le> e') L)"
    by (metis append_take_drop_id filter_append le_add1 length_append)
  then show ?thesis
    using l length_filter_ranked [of "\<lambda>(c, e'). c \<noteq> cid \<and> e \<le> e'" sp] unfolding all by (simp add: L_def)
qed

lemma get_live_speakers:
  "hm_wf sp \<Longrightarrow> hm_get (live_speakers now cid energy sp) cid = Some (energy, now)"
  by (simp add: live_speakers_def hm_simps)

section \<open>Searching by address\<close>

lemma find_matches_set:
  assumes "hm_wf (addresses reg)"
  shows "set (map fst (filter (\<lambda>(cid, addr). matches_address_prefix addr key) (addresses reg)))
           = {c. \<exists>a. hm_get (addresses reg) c = Some a \<and> matches_address_prefix a key}"
  by (force simp: hm_in_get [OF assms])

lemma find_client_Found_iff:
  assumes "hm_wf (addresses reg)"
  shows "find_client_by_address reg key = Found c \<longleftrightarrow>
     12 \<le> length (addr_id key)
     \<and> {d. \<exists>a. hm_get (addresses reg) d = Some a \<and> matches_address_prefix a key} = {c}"
proof -
  define ms where "ms = map fst (filter (\<lambda>(cid, addr). matches_address_prefix addr key) (addresses reg))"
  have dm: "distinct ms" using assms by (simp add: ms_def hm_wf_def distinct_map_filter)
  have "find_client_by_address reg key = Found c \<longleftrightarrow> 12 \<le> length (addr_id key) \<and> ms = [c]"
    using length_trim_end_matches [of "CHR ''0''" "addr_id key"]
    by (auto simp: find_client_by_address_def Let_def simp flip: ms_def split: list.splits)
  also have "ms = [c] \<longleftrightarrow> set ms = {c}"
    using dm by (cases ms; cases "tl ms") auto
  finally show ?thesis using find_matches_set [OF assms, of key] by (simp add: ms_def)
qed

lemma find_client_NotFound_iff:
  assumes "hm_wf (addresses reg)"
  shows "find_client_by_address reg key = NotFound \<longleftrightarrow>
     length (addr_id key) < 12 \<or> (\<forall>d a. hm_get (addresses reg) d = Some a \<longrightarrow> \<not> matches_address_prefix a key)"
proof -
  define ms where "ms = map fst (filter (\<lambda>(cid, addr). matches_address_prefix addr key) (addresses reg))"
  have "find_client_by_address reg key = NotFound \<longleftrightarrow> length (addr_id key) < 12 \<or> set ms = {}"
    using length_trim_end_matches [of "CHR ''0''" "addr_id key"]
    by (auto simp: find_client_by_address_def Let_def simp flip: ms_def split: list.splits)
  then show ?thesis using find_matches_set [OF assms, of key] by (auto simp: ms_def)
qed

section \<open>Ending calls and connections\<close>

lemma dom_clear_call_session:
  "hm_get (approved_calls (clear_call_session cid key reg)) k = None \<longleftrightarrow> hm_get (approved_calls reg) k = None"
  "hm_get (rejected_calls (clear_call_session cid key reg)) k = None \<longleftrightarrow> hm_get (rejected_calls reg) k = None"
  "hm_get (notified_requests (clear_call_session cid key reg)) k = None \<longleftrightarrow> hm_get (notified_requests reg) k = None"
  "hm_get (targets reg) k = None \<Longrightarrow> hm_get (targets (clear_call_session cid key reg)) k = None"
  by (auto simp: clear_call_session_def Let_def hm_simps hm_get_retain_None split: AddressSearchResult.splits)

text \<open>No entry under the client's id in any map, and its id in no room and among no room's speakers.\<close>

definition forgotten :: "client_id \<Rightarrow> ClientRegistry \<Rightarrow> bool" where
  "forgotten cid reg \<longleftrightarrow>
     hm_get (peer_connections reg) cid = None \<and> hm_get (addresses reg) cid = None \<and> hm_get (targets reg) cid = None
     \<and> hm_get (data_channels reg) cid = None \<and> hm_get (approved_calls reg) cid = None
     \<and> hm_get (rejected_calls reg) cid = None \<and> hm_get (notified_requests reg) cid = None
     \<and> hm_get (last_pong reg) cid = None \<and> hm_get (connected_at reg) cid = None
     \<and> hm_all (\<lambda>_ m. cid \<notin> set m) (room_members reg) \<and> hm_all (\<lambda>_ s. hm_get s cid = None) (room_speakers reg)"

text \<open>The address is in no approval or rejection list.\<close>

definition address_forgotten :: "UserAddress \<Rightarrow> ClientRegistry \<Rightarrow> bool" where
  "address_forgotten a reg \<longleftrightarrow>
     hm_all (\<lambda>_ l. a \<notin> set l) (approved_calls reg) \<and> hm_all (\<lambda>_ l. a \<notin> set l) (rejected_calls reg)"

lemma hm_all_map_valuesI: "(\<And>k v. P k (f v)) \<Longrightarrow> hm_all P (hm_map_values f m)"
  by (auto simp: hm_all_def list_all_iff hm_map_values_def)

lemma unregister_forgotten: "forgotten cid (fst (unregister_client cid st))"
  by (auto simp: forgotten_def unregister_client_def Let_def case_prod_beta drop_from_rooms_def
        drop_address_approvals_def drop_client_entries_def dom_clear_call_session hm_simps
        split: option.splits intro!: hm_all_map_valuesI)

lemma unregister_address_forgotten:
  "hm_get (addresses (fst st)) cid = Some a \<Longrightarrow> address_forgotten a (fst (unregister_client cid st))"
  by (auto simp: address_forgotten_def unregister_client_def Let_def case_prod_beta drop_from_rooms_def
        drop_address_approvals_def intro!: hm_all_map_valuesI)

lemma snd_unregister: "snd (unregister_client cid st) = dc_remove_client cid (snd st)"
  by (simp add: unregister_client_def Let_def case_prod_beta)

lemma unregister_frames:
  "last_pong (fst (unregister_client cid st)) = hm_remove cid (last_pong (fst st))"
  "peer_connections (fst (unregister_client cid st)) = hm_remove cid (peer_connections (fst st))"
  "addresses (fst (unregister_client cid st)) = hm_remove cid (addresses (fst st))"
  "data_channels (fst (unregister_client cid st)) = hm_remove cid (data_channels (fst st))"
  "connected_at (fst (unregister_client cid st)) = hm_remove cid (connected_at (fst st))"
  by (simp_all add: unregister_client_def Let_def case_prod_beta drop_from_rooms_def drop_address_approvals_def
      drop_client_entries_def split: option.splits)

text \<open>What the registry holds of a client itself.\<close>

definition entries_of :: "client_id \<Rightarrow> ClientRegistry \<Rightarrow>
    pc_handle option \<times> UserAddress option \<times> dc_handle option \<times> nat option \<times> nat option" where
  "entries_of cid reg = (hm_get (peer_connections reg) cid, hm_get (addresses reg) cid, hm_get (data_channels reg) cid,
     hm_get (last_pong reg) cid, hm_get (connected_at reg) cid)"

text \<open>A client that is gone stays gone when another is unregistered.\<close>

lemma hm_all_map_values_mono:
  "hm_all P m \<Longrightarrow> (\<And>k v. P k v \<Longrightarrow> Q k (f v)) \<Longrightarrow> hm_all Q (hm_map_values f m)"
  by (auto simp: hm_all_def list_all_iff hm_map_values_def)

lemma forgotten_unregister:
  assumes "forgotten cid (fst st)"
  shows "forgotten cid (fst (unregister_client c st))"
  using assms
  by (auto simp: forgotten_def unregister_client_def Let_def case_prod_beta drop_from_rooms_def
        drop_address_approvals_def drop_client_entries_def dom_clear_call_session hm_simps
        split: option.splits intro!: hm_all_map_values_mono)

section \<open>Properties\<close>

text \<open>C7: every operation of the registry keeps its invariant: distinct keys, duplicate-free lists,
  at most 50 members in a room, at most 3 cached speakers, and one client per address.\<close>

theorem registry_invariant:
  assumes "reg_wf reg"
  shows "reg_wf (fst (register_client now cid a pc (reg, dl))) \<and>
         reg_wf (fst (unregister_client cid (reg, dl))) \<and>
         reg_wf (clear_call_session cid a reg) \<and>
         reg_wf (mark_call_approved cid a reg) \<and> reg_wf (mark_call_rejected cid a reg) \<and>
         reg_wf (mark_notified cid other reg) \<and> reg_wf (update_last_pong now cid reg) \<and>
         reg_wf (snd (join_room cid a reg)) \<and> reg_wf (snd (leave_room cid a reg)) \<and>
         reg_wf (snd (update_speaker_energy now a cid energy reg))"
  using assms
  by (simp add: register_client_wf unregister_client_wf clear_call_session_wf mark_ops_wf
      join_room_snd join_room_with_limit_wf leave_room_wf update_speaker_energy_wf)

lemma reg_wf_new: "reg_wf ClientRegistry_new"
  by (simp add: reg_wf_def maps_wf_def lists_wf_def unique_addresses_def ClientRegistry_new_def hm_values_def hm_new_def
      hm_wf_def hm_all_def)

theorem registry_invariant_witness:
  "reg_wf (fst (register_client 5 1 (UserAddress_new ''aa'') 0 (ClientRegistry_new, DATACHANNEL_RATE_LIMITER)))"
  using registry_invariant [OF reg_wf_new, of 5 1 "UserAddress_new ''aa''" 0 DATACHANNEL_RATE_LIMITER] by blast

text \<open>C23: unregistering a client removes every entry under its id, its id from all rooms and room speakers,
  its address from all approval and rejection lists, and its rate-limit bucket; it leaves the
  connections, addresses, channels and pongs of the other clients alone. When the client has no
  call under way, that is all: what other clients remember of it, their call targets with its
  address, their notification lists with its id and the lists of top speakers, stays.\<close>

theorem unregister_cleanup:
  assumes "hm_get (addresses reg) cid = Some a" and "unregister_client cid (reg, dl) = (reg', dl')" and "c \<noteq> cid"
  shows "forgotten cid reg' \<and> address_forgotten a reg' \<and> hm_get (dc_buckets dl') cid = None \<and>
         entries_of c reg' = entries_of c reg \<and> hm_get (dc_buckets dl') c = hm_get (dc_buckets dl) c \<and>
         (hm_get (targets reg) cid = None \<longrightarrow>
            hm_get (targets reg') c = hm_get (targets reg) c \<and>
            hm_get (notified_requests reg') c = hm_get (notified_requests reg) c \<and>
            hm_get (approved_calls reg') c = map_option (filter (\<lambda>x. \<not> matches_address x a)) (hm_get (approved_calls reg) c) \<and>
            hm_get (rejected_calls reg') c = map_option (filter (\<lambda>x. \<not> matches_address x a)) (hm_get (rejected_calls reg) c) \<and>
            prev_top_k_speakers reg' = prev_top_k_speakers reg)"
proof -
  have r: "reg' = fst (unregister_client cid (reg, dl))" "dl' = dc_remove_client cid dl"
    using assms(2) snd_unregister [of cid "(reg, dl)"] by (simp_all add: prod_eq_iff)
  have "entries_of c reg' = entries_of c reg"
    using assms(3) by (simp add: r entries_of_def unregister_frames hm_simps)
  moreover have "hm_get (dc_buckets dl') cid = None \<and> hm_get (dc_buckets dl') c = hm_get (dc_buckets dl) c"
    using assms(3) by (simp add: r dc_remove_client_def hm_simps)
  moreover have "address_forgotten a reg'"
    using unregister_address_forgotten [of "(reg, dl)" cid a] assms(1) by (simp add: r)
  ultimately show ?thesis
    using assms(1,3)
    by (simp add: r unregister_forgotten)
       (simp add: unregister_client_def Let_def drop_from_rooms_def drop_address_approvals_def drop_client_entries_def hm_simps)
qed

text \<open>Client 2 was told of a call of client 7 and has its address as its target; both outlive client 7.\<close>

theorem unregister_cleanup_witness:
  "\<exists>reg' dl'. unregister_client 7
      (ClientRegistry_new\<lparr>addresses := [(7, UserAddress_new ''aa'')], targets := [(2, UserAddress_new ''aa'')],
         notified_requests := [(2, [7])], room_members := [(UserAddress_new ''r'', [3, 7])]\<rparr>, DATACHANNEL_RATE_LIMITER) = (reg', dl') \<and>
     forgotten 7 reg' \<and> hm_get (targets reg') 2 = Some (UserAddress_new ''aa'') \<and> hm_get (notified_requests reg') 2 = Some [7]"
proof -
  let ?reg = "ClientRegistry_new\<lparr>addresses := [(7, UserAddress_new ''aa'')], targets := [(2, UserAddress_new ''aa'')],
         notified_requests := [(2, [7])], room_members := [(UserAddress_new ''r'', [3, 7])]\<rparr>"
  obtain reg' dl' where u: "unregister_client 7 (?reg, DATACHANNEL_RATE_LIMITER) = (reg', dl')" by fastforce
  from unregister_cleanup [OF _ u, of "UserAddress_new ''aa''" 2] u show ?thesis by (simp add: hm_get_def)
qed

text \<open>C24: the search by address answers \<^verbatim>\<open>Found\<close> exactly when the key has at least 12 characters and
  one client alone matches it, and \<^verbatim>\<open>NotFound\<close> exactly when the key is shorter or no client
  matches (WPIP-02, section 5).\<close>

theorem find_client_spec:
  assumes "reg_wf reg"
  shows "(find_client_by_address reg key = Found c \<longleftrightarrow>
            12 \<le> length (addr_id key) \<and>
            {d. \<exists>a. hm_get (addresses reg) d = Some a \<and> matches_address_prefix a key} = {c}) \<and>
         (find_client_by_address reg key = NotFound \<longleftrightarrow>
            length (addr_id key) < 12 \<or>
            (\<forall>d a. hm_get (addresses reg) d = Some a \<longrightarrow> \<not> matches_address_prefix a key))"
  using assms find_client_Found_iff [of reg key c] find_client_NotFound_iff [of reg key]
  by (simp add: reg_wf_def maps_wf_def)

theorem find_client_spec_witness:
  "find_client_by_address ClientRegistry_new (UserAddress_new ''39f8adc7'') = NotFound"
  using find_client_spec [OF reg_wf_new, of "UserAddress_new ''39f8adc7''"] by (simp add: UserAddress_new_def)

text \<open>A full address that does not end in \<^verbatim>\<open>0\<close> matches itself only.\<close>

lemma matches_full_address:
  assumes "length (addr_id key) = 64" and "last (addr_id key) \<noteq> CHR ''0''"
  shows "matches_address_prefix a key \<longleftrightarrow> a = key"
proof -
  have "addr_id key \<noteq> []" using assms(1) by auto
  then have "trim_end_matches (CHR ''0'') (addr_id key) = addr_id key"
    using assms(2) trim_end_matches_snoc [of _ "butlast (addr_id key)" "last (addr_id key)"] by simp
  with assms(1) show ?thesis
    by (auto simp: matches_address_prefix_def matches_short_id_prefix_def Let_def addr_eq_iff)
qed

text \<open>after a client registers an address, the search for that address finds that client and no
  other, whoever held the address before (an address ending in \<^verbatim>\<open>0\<close> may be taken for a
  padded short ID and is excluded).\<close>

theorem register_then_find:
  assumes "reg_wf (fst st)" and "length (addr_id a) = 64" and "last (addr_id a) \<noteq> CHR ''0''"
  shows "find_client_by_address (fst (register_client now cid a pc st)) a = Found cid"
proof -
  have w: "hm_wf (addresses (fst st))" using assms(1) by (simp add: reg_wf_def maps_wf_def)
  have w': "hm_wf (addresses (fst (register_client now cid a pc st)))"
    using register_client_wf [OF assms(1)] by (simp add: reg_wf_def maps_wf_def)
  show ?thesis
    using assms(2) unfolding find_client_Found_iff [OF w'] matches_full_address [OF assms(2,3)]
    by (auto simp: register_client_addresses [OF w] split: if_splits)
qed

theorem register_then_find_witness:
  "find_client_by_address
     (fst (register_client 0 2 (UserAddress_new (replicate 64 (CHR ''a''))) 0
        (register_client 0 1 (UserAddress_new (replicate 64 (CHR ''a''))) 0 (ClientRegistry_new, DATACHANNEL_RATE_LIMITER))))
     (UserAddress_new (replicate 64 (CHR ''a''))) = Found 2"
  by (rule register_then_find)
     (simp_all add: UserAddress_new_def register_client_wf reg_wf_new)

text \<open>joining a room with a limit: a member stays and sees the count; a new client is refused
  exactly when the room has reached the limit, and is otherwise appended; no other room
  changes.\<close>

theorem join_room_limit:
  "fst (join_room_with_limit cid room mx reg) =
     (if cid \<in> set (members_of reg room) then Ok (of_nat (length (members_of reg room)))
      else if mx \<le> length (members_of reg room) then Err ''Room member limit reached''
      else Ok (of_nat (Suc (length (members_of reg room)))))
   \<and> (\<forall>r. members_of (snd (join_room_with_limit cid room mx reg)) r =
        (if r = room \<and> cid \<notin> set (members_of reg room) \<and> length (members_of reg room) < mx
         then members_of reg room @ [cid] else members_of reg r))"
  using join_room_with_limit_cases by blast

text \<open>C25: the speaker selection of a room is a top three: at most three addresses are announced; a
  speaker is forwarded only when fewer than three active speakers are louder, and it is held
  back only behind three others at least as loud.\<close>

theorem top_k_speakers:
  assumes "reg_wf reg" and "update_speaker_energy now room cid energy reg = ((is_top, addrs, changed), reg')"
    and "sp = speakers_of reg' (speaker_room_key reg room)"
  shows "length addrs \<le> 3 \<and>
         (is_top \<longrightarrow> length (filter (\<lambda>(c, (e, _)). energy < e) sp) < 3) \<and>
         (\<not> is_top \<longrightarrow> 3 \<le> length (filter (\<lambda>(c, (e, _)). c \<noteq> cid \<and> energy \<le> e) sp))"
proof -
  define live where "live = live_speakers now cid energy (speakers_of reg (speaker_room_key reg room))"
  note eq = update_speaker_energy_eq [OF refl refl refl refl refl, of now room cid energy reg]
  have sp: "sp = live"
    using assms(2,3) unfolding eq live_def by (auto simp: speakers_of_def hm_simps)
  have top: "is_top = (cid \<in> set (map fst (take 3 (ranked live))))"
    using assms(2) unfolding eq live_def by auto
  have "hm_wf (speakers_of reg (speaker_room_key reg room))"
    using assms(1) hm_all_get [of _ "room_speakers reg" "speaker_room_key reg room"]
    by (auto simp: speakers_of_def reg_wf_def lists_wf_def split: option.splits)
  then have w: "hm_wf live" "hm_get live cid = Some (energy, now)"
    by (simp_all add: live_def get_live_speakers) (simp add: live_speakers_def)
  have "addrs = List.map_filter (hm_get (addresses reg)) (map fst (take 3 (ranked live)))"
    using assms(2) unfolding eq live_def by auto
  then have "length addrs \<le> 3" by (simp add: length_map_filter_take)
  then show ?thesis
    using top3_sound [OF w] top3_complete [OF w] sp top by blast
qed

theorem top_k_speakers_witness:
  "case update_speaker_energy 9 (UserAddress_new ''room'') 4 (1 / 10)
      (ClientRegistry_new\<lparr>room_speakers := [(UserAddress_new ''room'', [(1, (9 / 10, 9)), (2, (8 / 10, 9)), (3, (7 / 10, 9))])]\<rparr>)
   of ((is_top, addrs, changed), reg') \<Rightarrow>
      \<not> is_top \<longrightarrow> 3 \<le> length (filter (\<lambda>(c, (e, _)). c \<noteq> 4 \<and> 1 / 10 \<le> e)
        (speakers_of reg' (speaker_room_key ClientRegistry_new (UserAddress_new ''room''))))"
proof -
  let ?reg = "ClientRegistry_new\<lparr>room_speakers := [(UserAddress_new ''room'', [(1, (9 / 10, 9)), (2, (8 / 10, 9)), (3, (7 / 10, 9))])]\<rparr>"
  have "reg_wf ?reg"
    using reg_wf_new by (simp add: reg_wf_def maps_wf_def lists_wf_def unique_addresses_def hm_wf_def hm_all_def)
  moreover have "speaker_room_key ?reg = speaker_room_key ClientRegistry_new"
    by (simp add: fun_eq_iff speaker_room_key_def find_room_key_def)
  ultimately show ?thesis
    using top_k_speakers [of ?reg 9 "UserAddress_new ''room''" 4 "1 / 10"] by (auto split: prod.splits)
qed

text \<open>hanging up ends the call on both sides: neither party keeps a target, no client keeps a
  target that resolves to either of them, and neither side's approval or rejection of the
  other survives, so a new call must be approved anew.\<close>

theorem hangup_clears_call:
  assumes "reg_wf reg" and "hm_get (addresses reg) cid = Some me" and "hm_get (addresses reg) t = Some key"
    and "find_client_by_address reg key = Found t" and "reg' = clear_call_session cid key reg"
  shows "hm_get (targets reg') cid = None \<and> hm_get (targets reg') t = None \<and>
         (\<forall>d a. hm_get (targets reg') d = Some a \<longrightarrow>
            \<not> matches_address_prefix a key \<and> \<not> matches_address_prefix a me) \<and>
         \<not> is_call_approved reg' cid key \<and> \<not> is_call_approved reg' t me \<and>
         \<not> is_call_rejected reg' cid key \<and> \<not> is_call_rejected reg' t me"
proof -
  have w: "hm_wf (targets reg)" using assms(1) by (simp add: reg_wf_def maps_wf_def)
  show ?thesis
    unfolding assms(5)
    by (auto simp: clear_call_session_def Let_def assms(2,4) is_call_approved_def is_call_rejected_def
          hm_simps w list_ex_iff split: option.splits if_splits)
qed

definition call_example :: ClientRegistry where
  "call_example = ClientRegistry_new\<lparr>
     addresses := [(1, UserAddress_new (replicate 64 (CHR ''a''))), (2, UserAddress_new (replicate 64 (CHR ''b'')))],
     targets := [(1, UserAddress_new (replicate 64 (CHR ''b''))), (2, UserAddress_new (replicate 64 (CHR ''a'')))],
     approved_calls := [(2, [UserAddress_new (replicate 64 (CHR ''a''))])]\<rparr>"

theorem hangup_clears_call_witness:
  "hm_get (targets (clear_call_session 1 (UserAddress_new (replicate 64 (CHR ''b''))) call_example)) 2 = None
   \<and> \<not> is_call_approved (clear_call_session 1 (UserAddress_new (replicate 64 (CHR ''b''))) call_example) 2
        (UserAddress_new (replicate 64 (CHR ''a'')))"
proof -
  have "reg_wf call_example" by code_simp
  moreover have "hm_get (addresses call_example) 1 = Some (UserAddress_new (replicate 64 (CHR ''a'')))" by code_simp
  moreover have "hm_get (addresses call_example) 2 = Some (UserAddress_new (replicate 64 (CHR ''b'')))" by code_simp
  moreover have "find_client_by_address call_example (UserAddress_new (replicate 64 (CHR ''b''))) = Found 2" by code_simp
  ultimately show ?thesis using hangup_clears_call by blast
qed

end
