(* ===== verification/WP_Daemon.thy ===== *)
theory WP_Daemon
  imports WP_Protocol WP_Registry
begin

text \<open>
  The packet handlers of the daemon (\<^verbatim>\<open>crates/wpdaemon/src/connection.rs\<close>,
  \<^verbatim>\<open>connection/datachannel.rs\<close>, \<^verbatim>\<open>connection/keepalive.rs\<close>, \<^verbatim>\<open>broadcast.rs\<close>). A handler is a function
  from the daemon's state to the effects it has (data-channel sends, audio put on the
  broadcast channel, closed connections, in order) and the new state. A send whose result the
  source ignores is just an effect. A handler is given here as it runs when no other task
  interrupts it; \<open>WP_Tasks\<close> takes it apart into its critical sections.
\<close>

section \<open>State and effects\<close>

record AudioMessage =
  am_sender_id :: client_id
  am_sender_address :: "UserAddress option"
  am_target_address :: UserAddress
  am_codec_id :: u8
  am_origin_node :: u64
  am_ttl :: u8
  am_data :: bytes

datatype effect =
    DcSend dc_handle bytes
  | AudioBroadcast AudioMessage
  | PcClose pc_handle

record daemon =
  client_registry :: ClientRegistry
  dc_limiter :: DataChannelRateLimiter

text \<open>The readings a handler makes: the monotonic clock, the wall clock in nanoseconds and the
  counter of generated addresses.\<close>

record readings =
  instant_now :: nat
  wall_nanos :: nat
  time_counter :: u64

definition MAX_MESSAGE_SIZE :: nat where "MAX_MESSAGE_SIZE = 1024 * 1024"
definition DEFAULT_INITIAL_TTL :: u8 where "DEFAULT_INITIAL_TTL = 8"
definition KEEP_ALIVE_TIMEOUT_SECS :: nat where "KEEP_ALIVE_TIMEOUT_SECS = 30"

text \<open>\<^verbatim>\<open>Option<UserAddress>::unwrap_or_default\<close>.\<close>

definition address_or_default :: "'z wp_crates_scheme \<Rightarrow> readings \<Rightarrow> UserAddress option \<Rightarrow> UserAddress" where
  "address_or_default E rd oa =
     (case oa of Some a \<Rightarrow> a | None \<Rightarrow> fst (generate_from_time E (wall_nanos rd) (time_counter rd)))"

section \<open>Audio energy\<close>

primrec chunks4 :: "nat \<Rightarrow> bytes \<Rightarrow> bytes list" where
  "chunks4 0 bs = []"
| "chunks4 (Suc n) bs = take 4 bs # chunks4 n (drop 4 bs)"

definition sample_power :: "bytes \<Rightarrow> real" where
  "sample_power c =
     (case f32_from_le_bytes c of
        None \<Rightarrow> 0
      | Some sample \<Rightarrow> (let s = max (- 1) (min 1 sample) in f64_round (s * s)))"

definition calculate_audio_energy :: "bytes \<Rightarrow> real" where
  "calculate_audio_energy audio_data =
     (if audio_data = [] then 0
      else if length audio_data mod 4 \<noteq> 0 then f64_round (real (unat (hd audio_data)) / 255)
      else (let chunks = chunks4 (length audio_data div 4) audio_data;
                sum_sq = foldl (\<lambda>acc c. f64_round (acc + sample_power c)) 0 chunks
            in f64_sqrt (f64_round (sum_sq / real (length chunks)))))"

section \<open>The locked registry\<close>

definition conn_find_client_by_address :: "daemon \<Rightarrow> UserAddress \<Rightarrow> AddressSearchResult" where
  "conn_find_client_by_address d target_key = find_client_by_address (client_registry d) target_key"

definition conn_is_call_approved :: "daemon \<Rightarrow> client_id \<Rightarrow> UserAddress \<Rightarrow> bool" where
  "conn_is_call_approved d target_id caller_addr = is_call_approved (client_registry d) target_id caller_addr"

definition conn_is_call_rejected :: "daemon \<Rightarrow> client_id \<Rightarrow> UserAddress \<Rightarrow> bool" where
  "conn_is_call_rejected d target_id caller_addr = is_call_rejected (client_registry d) target_id caller_addr"

definition conn_mark_call_approved :: "client_id \<Rightarrow> UserAddress \<Rightarrow> daemon \<Rightarrow> daemon" where
  "conn_mark_call_approved target_id caller_addr d =
     d\<lparr>client_registry := mark_call_approved target_id caller_addr (client_registry d)\<rparr>"

definition conn_mark_call_rejected :: "client_id \<Rightarrow> UserAddress \<Rightarrow> daemon \<Rightarrow> daemon" where
  "conn_mark_call_rejected target_id caller_addr d =
     d\<lparr>client_registry := mark_call_rejected target_id caller_addr (client_registry d)\<rparr>"

definition conn_has_been_notified :: "daemon \<Rightarrow> client_id \<Rightarrow> client_id \<Rightarrow> bool" where
  "conn_has_been_notified d target_id caller_id = has_been_notified (client_registry d) target_id caller_id"

definition conn_mark_notified :: "client_id \<Rightarrow> client_id \<Rightarrow> daemon \<Rightarrow> daemon" where
  "conn_mark_notified target_id caller_id d =
     d\<lparr>client_registry := mark_notified target_id caller_id (client_registry d)\<rparr>"

definition conn_is_client_in_room :: "daemon \<Rightarrow> client_id \<Rightarrow> UserAddress \<Rightarrow> bool" where
  "conn_is_client_in_room d client_id room_key = is_client_in_room (client_registry d) client_id room_key"

definition conn_get_participant_count_for_room :: "daemon \<Rightarrow> UserAddress \<Rightarrow> nat" where
  "conn_get_participant_count_for_room d room_key = get_participant_count_for_room (client_registry d) room_key"

definition conn_is_client_in_same_call :: "daemon \<Rightarrow> client_id \<Rightarrow> UserAddress \<Rightarrow> bool" where
  "conn_is_client_in_same_call d client_id target_key = is_client_in_same_call (client_registry d) client_id target_key"

definition conn_is_room_or_target_full :: "daemon \<Rightarrow> UserAddress \<Rightarrow> bool" where
  "conn_is_room_or_target_full d target_key = is_room_or_target_full (client_registry d) target_key"

definition conn_get_registered_addresses :: "daemon \<Rightarrow> UserAddress list" where
  "conn_get_registered_addresses d = get_registered_addresses (client_registry d)"

definition get_client_address :: "daemon \<Rightarrow> client_id \<Rightarrow> UserAddress option" where
  "get_client_address d client_id = hm_get (addresses (client_registry d)) client_id"

lemmas conn_defs =
  conn_find_client_by_address_def conn_is_call_approved_def conn_is_call_rejected_def
  conn_mark_call_approved_def conn_mark_call_rejected_def conn_has_been_notified_def
  conn_mark_notified_def conn_is_client_in_room_def conn_is_client_in_same_call_def
  conn_is_room_or_target_full_def

definition with_unregister :: "client_id \<Rightarrow> daemon \<Rightarrow> daemon" where
  "with_unregister client_id d =
     (let (reg, dl) = unregister_client client_id (client_registry d, dc_limiter d)
      in d\<lparr>client_registry := reg, dc_limiter := dl\<rparr>)"

section \<open>Packet handlers\<close>

fun validate_packet_sender_identity :: "ProtocolPacket \<Rightarrow> client_id \<Rightarrow> UserAddress \<Rightarrow> bool" where
  "validate_packet_sender_identity (ClientAssignment client_id user_address) cid addr =
     (client_id = cid \<and> user_address = addr)"
| "validate_packet_sender_identity (ServerTargetedAudio _ sender_id sender_address _ _) cid addr =
     (sender_id = cid \<and> sender_address = addr)"
| "validate_packet_sender_identity (PeerTargetedAudio sender_id _ _ sender_address _ _ _) cid addr =
     (sender_id = cid \<and> sender_address = addr)"
| "validate_packet_sender_identity (CallRequest caller_id caller_address) cid addr =
     (caller_id = cid \<and> caller_address = addr)"
| "validate_packet_sender_identity (BroadcastAudio sender_id _) cid addr = (sender_id = cid)"
| "validate_packet_sender_identity _ cid addr = True"

definition send_call_response_notification ::
    "'z wp_crates_scheme \<Rightarrow> readings \<Rightarrow> client_id \<Rightarrow> UserAddress \<Rightarrow> (UserAddress \<Rightarrow> ProtocolPacket) \<Rightarrow> daemon \<Rightarrow> effect list" where
  "send_call_response_notification E rd client_id caller_address make_packet d =
     (let caller_dc = (case conn_find_client_by_address d caller_address of
            Found caller_cid \<Rightarrow> hm_get (data_channels (client_registry d)) caller_cid
          | _ \<Rightarrow> None)
      in case caller_dc of
           Some dc \<Rightarrow>
             (let my_addr = address_or_default E rd (hm_get (addresses (client_registry d)) client_id)
              in [DcSend dc (encode E (make_packet my_addr))])
         | None \<Rightarrow> [])"

definition broadcast_to_room_members :: "UserAddress \<Rightarrow> bytes \<Rightarrow> client_id option \<Rightarrow> daemon \<Rightarrow> effect list" where
  "broadcast_to_room_members room_address bytes exclude_cid d =
     List.map_filter (\<lambda>member_cid.
       if Some member_cid = exclude_cid then None
       else map_option (\<lambda>dc. DcSend dc bytes) (hm_get (data_channels (client_registry d)) member_cid))
       (get_room_member_ids (client_registry d) room_address)"

definition process_room_speaker_update ::
    "'z wp_crates_scheme \<Rightarrow> client_id \<Rightarrow> UserAddress \<Rightarrow> bool \<Rightarrow> UserAddress list \<Rightarrow> bool \<Rightarrow> ProtocolPacket \<Rightarrow> daemon \<Rightarrow> effect list" where
  "process_room_speaker_update E client_id room_address is_top_k top_speakers speaker_list_changed server_audio_pkt d =
     (if \<not> is_top_k then []
      else broadcast_to_room_members room_address (encode E server_audio_pkt) (Some client_id) d
           @ (if speaker_list_changed \<and> top_speakers \<noteq> []
              then broadcast_to_room_members room_address
                     (encode E (ActiveSpeakerNotice room_address top_speakers)) None d
              else []))"

definition handle_room_group_audio ::
    "'z wp_crates_scheme \<Rightarrow> readings \<Rightarrow> client_id \<Rightarrow> UserAddress \<Rightarrow> u8 \<Rightarrow> bytes \<Rightarrow> daemon \<Rightarrow> effect list \<times> daemon" where
  "handle_room_group_audio E rd client_id room_address codec_id payload d =
     (if MAX_MESSAGE_SIZE < length payload then ([], d)
      else (let energy = calculate_audio_energy payload;
                ((is_top_k, top_speakers, speaker_list_changed), reg) =
                  update_speaker_energy (instant_now rd) room_address client_id energy (client_registry d);
                d = d\<lparr>client_registry := reg\<rparr>
            in (process_room_speaker_update E client_id room_address is_top_k top_speakers speaker_list_changed
                  (RoomGroupAudio room_address codec_id payload) d, d)))"

definition handle_room_group_audio_e2ee ::
    "'z wp_crates_scheme \<Rightarrow> readings \<Rightarrow> client_id \<Rightarrow> UserAddress \<Rightarrow> u8 \<Rightarrow> u8 \<Rightarrow> bytes \<Rightarrow> daemon \<Rightarrow> effect list \<times> daemon" where
  "handle_room_group_audio_e2ee E rd client_id room_address codec_id audio_energy payload d =
     (if MAX_MESSAGE_SIZE < length payload then ([], d)
      else (let energy = f64_round (real (unat audio_energy) / 255);
                ((is_top_k, top_speakers, speaker_list_changed), reg) =
                  update_speaker_energy (instant_now rd) room_address client_id energy (client_registry d);
                d = d\<lparr>client_registry := reg\<rparr>
            in (process_room_speaker_update E client_id room_address is_top_k top_speakers speaker_list_changed
                  (RoomGroupAudioE2EE room_address codec_id audio_energy payload) d, d)))"

definition set_target :: "client_id \<Rightarrow> UserAddress \<Rightarrow> daemon \<Rightarrow> daemon" where
  "set_target client_id target_address d =
     d\<lparr>client_registry := (client_registry d)\<lparr>targets :=
        hm_insert client_id target_address (targets (client_registry d))\<rparr>\<rparr>"

text \<open>The part of \<^verbatim>\<open>handle_client_targeted_audio\<close> after the target has been resolved to a client.\<close>

definition route_to_client ::
    "'z wp_crates_scheme \<Rightarrow> readings \<Rightarrow> client_id \<Rightarrow> UserAddress option \<Rightarrow> UserAddress \<Rightarrow> u8 \<Rightarrow> u64 \<Rightarrow> bytes \<Rightarrow>
     dc_handle \<Rightarrow> client_id \<Rightarrow> daemon \<Rightarrow> effect list \<times> daemon" where
  "route_to_client E rd client_id sender_addr target_address codec_id my_node_id payload dc target_cid d =
     (let caller_user_addr = address_or_default E rd sender_addr;
          err = [DcSend dc (encode E (ConnectionError target_address))]
      in if target_cid \<in> set (get_stale_clients (instant_now rd) (client_registry d) KEEP_ALIVE_TIMEOUT_SECS)
         then (err, with_unregister target_cid d)
         else if target_cid = client_id then (err, d)
         else if conn_is_call_rejected d target_cid caller_user_addr then (err, d)
         else
           let is_in_same_call = conn_is_client_in_same_call d client_id target_address;
               is_mutual = (case hm_get (targets (client_registry d)) target_cid of
                   Some addr \<Rightarrow> matches_address_prefix addr caller_user_addr
                 | None \<Rightarrow> False)
           in if \<not> is_in_same_call \<and> \<not> is_mutual \<and> conn_is_room_or_target_full d target_address
              then (err, d)
              else if \<not> is_mutual \<and> \<not> conn_is_call_approved d target_cid caller_user_addr
              then (if \<not> conn_has_been_notified d target_cid client_id
                    then (let d = conn_mark_notified target_cid client_id d
                          in (case hm_get (data_channels (client_registry d)) target_cid of
                                Some target_dc \<Rightarrow>
                                  [DcSend target_dc (encode E (CallRequest client_id caller_user_addr))]
                              | None \<Rightarrow> [], d))
                    else ([], d))
              else (let d = set_target client_id target_address d
                    in (if payload \<noteq> []
                        then [AudioBroadcast \<lparr>am_sender_id = client_id, am_sender_address = sender_addr,
                                am_target_address = target_address, am_codec_id = codec_id,
                                am_origin_node = my_node_id, am_ttl = DEFAULT_INITIAL_TTL,
                                am_data = payload\<rparr>]
                        else [], d)))"

definition handle_client_targeted_audio ::
    "'z wp_crates_scheme \<Rightarrow> readings \<Rightarrow> client_id \<Rightarrow> UserAddress option \<Rightarrow> UserAddress \<Rightarrow> u8 \<Rightarrow> u64 \<Rightarrow> bytes \<Rightarrow>
     dc_handle \<Rightarrow> daemon \<Rightarrow> effect list \<times> daemon" where
  "handle_client_targeted_audio E rd client_id sender_addr target_address codec_id my_node_id payload dc d =
     (if MAX_MESSAGE_SIZE < length payload then ([], d)
      else if conn_is_client_in_room d client_id target_address
      then handle_room_group_audio E rd client_id target_address codec_id payload d
      else case conn_find_client_by_address d target_address of
        Found target_cid \<Rightarrow>
          route_to_client E rd client_id sender_addr target_address codec_id my_node_id payload dc target_cid d
      | Ambiguous \<Rightarrow> ([DcSend dc (encode E (ConnectionError target_address))], d)
      | NotFound \<Rightarrow> ([DcSend dc (encode E (ConnectionError target_address))], d))"

definition handle_call_accept_response ::
    "'z wp_crates_scheme \<Rightarrow> readings \<Rightarrow> client_id \<Rightarrow> UserAddress \<Rightarrow> daemon \<Rightarrow> effect list \<times> daemon" where
  "handle_call_accept_response E rd client_id caller_address d =
     (let d = conn_mark_call_approved client_id caller_address d;
          d = d\<lparr>client_registry := (client_registry d)\<lparr>targets :=
                  hm_or_insert client_id caller_address (targets (client_registry d))\<rparr>\<rparr>
      in (send_call_response_notification E rd client_id caller_address CallAcceptedNotification d, d))"

definition handle_call_reject_response ::
    "'z wp_crates_scheme \<Rightarrow> readings \<Rightarrow> client_id \<Rightarrow> UserAddress \<Rightarrow> daemon \<Rightarrow> effect list \<times> daemon" where
  "handle_call_reject_response E rd client_id caller_address d =
     (let d = conn_mark_call_rejected client_id caller_address d
      in (send_call_response_notification E rd client_id caller_address CallRejectedNotification d, d))"

definition handle_call_hangup ::
    "'z wp_crates_scheme \<Rightarrow> readings \<Rightarrow> client_id \<Rightarrow> UserAddress \<Rightarrow> daemon \<Rightarrow> effect list \<times> daemon" where
  "handle_call_hangup E rd client_id target_address d =
     (let d = d\<lparr>client_registry := clear_call_session client_id target_address (client_registry d)\<rparr>
      in (send_call_response_notification E rd client_id target_address CallEndedNotification d, d))"

definition handle_room_join ::
    "'z wp_crates_scheme \<Rightarrow> client_id \<Rightarrow> UserAddress \<Rightarrow> daemon \<Rightarrow> effect list \<times> daemon" where
  "handle_room_join E client_id room_address d =
     (let (member_count, reg) = join_room client_id room_address (client_registry d);
          d = d\<lparr>client_registry := reg\<rparr>
      in (broadcast_to_room_members room_address
            (encode E (RoomStateNotification room_address member_count)) None d, d))"

definition handle_room_leave ::
    "'z wp_crates_scheme \<Rightarrow> client_id \<Rightarrow> UserAddress \<Rightarrow> daemon \<Rightarrow> effect list \<times> daemon" where
  "handle_room_leave E client_id room_address d =
     (let (remaining_count, reg) = leave_room client_id room_address (client_registry d);
          d = d\<lparr>client_registry := reg\<rparr>
      in (broadcast_to_room_members room_address
            (encode E (RoomStateNotification room_address remaining_count)) None d, d))"

fun dispatch_daemon_packet ::
    "'z wp_crates_scheme \<Rightarrow> readings \<Rightarrow> client_id \<Rightarrow> UserAddress \<Rightarrow> u64 \<Rightarrow> ProtocolPacket \<Rightarrow> dc_handle \<Rightarrow> daemon \<Rightarrow>
     effect list \<times> daemon" where
  "dispatch_daemon_packet E rd cid addr node (ClientTargetedAudio target codec audio) dc d =
     handle_client_targeted_audio E rd cid (Some addr) target codec node audio dc d"
| "dispatch_daemon_packet E rd cid addr node (CallAcceptResponse caller) dc d =
     handle_call_accept_response E rd cid caller d"
| "dispatch_daemon_packet E rd cid addr node (CallRejectResponse caller) dc d =
     handle_call_reject_response E rd cid caller d"
| "dispatch_daemon_packet E rd cid addr node (CallHangup target) dc d = handle_call_hangup E rd cid target d"
| "dispatch_daemon_packet E rd cid addr node (RoomJoinRequest room) dc d = handle_room_join E cid room d"
| "dispatch_daemon_packet E rd cid addr node (RoomLeaveRequest room) dc d = handle_room_leave E cid room d"
| "dispatch_daemon_packet E rd cid addr node (RoomGroupAudio room codec audio) dc d =
     handle_room_group_audio E rd cid room codec audio d"
| "dispatch_daemon_packet E rd cid addr node (RoomGroupAudioE2EE room codec energy audio) dc d =
     handle_room_group_audio_e2ee E rd cid room codec energy audio d"
| "dispatch_daemon_packet E rd cid addr node (Pong _) dc d =
     ([], d\<lparr>client_registry := update_last_pong (instant_now rd) cid (client_registry d)\<rparr>)"
| "dispatch_daemon_packet E rd cid addr node _ dc d = ([], d)"

section \<open>Events of a client's data channel\<close>

text \<open>What a connection knows: its channel, the client it was opened for, and the node.\<close>

record client_conn =
  cc_dc :: dc_handle
  cc_client_id :: client_id
  cc_user_address :: UserAddress
  cc_node_id :: u64

definition on_channel_start :: "'z wp_crates_scheme \<Rightarrow> client_conn \<Rightarrow> effect list" where
  "on_channel_start E c = [DcSend (cc_dc c) (encode E (ClientAssignment (cc_client_id c) (cc_user_address c)))]"

text \<open>\<^verbatim>\<open>OnMessage\<close>: rate limit, decode, identity check, dispatch. A decoder panic would be \<open>None\<close>.\<close>

definition on_message ::
    "'z wp_crates_scheme \<Rightarrow> readings \<Rightarrow> client_conn \<Rightarrow> bytes \<Rightarrow> daemon \<Rightarrow> (effect list \<times> daemon) option" where
  "on_message E rd c data d =
     (let (ok, dl) = dc_check_and_consume (instant_now rd) (cc_client_id c) (dc_limiter d);
          d = d\<lparr>dc_limiter := dl\<rparr>
      in if \<not> ok then Some ([], d)
         else case decode E (wall_nanos rd) (time_counter rd) data of
             None \<Rightarrow> None
           | Some (Inl _) \<Rightarrow> Some ([], d)
           | Some (Inr packet) \<Rightarrow>
               if \<not> validate_packet_sender_identity packet (cc_client_id c) (cc_user_address c) then Some ([], d)
               else Some (dispatch_daemon_packet E rd (cc_client_id c) (cc_user_address c) (cc_node_id c) packet (cc_dc c) d))"

definition on_close :: "client_conn \<Rightarrow> daemon \<Rightarrow> daemon" where
  "on_close c d = with_unregister (cc_client_id c) d"

text \<open>The forwarding task of an open channel: what it sends for one message of the broadcast.\<close>

definition forward_audio :: "'z wp_crates_scheme \<Rightarrow> readings \<Rightarrow> client_conn \<Rightarrow> AudioMessage \<Rightarrow> effect list" where
  "forward_audio E rd c msg =
     (if am_sender_id msg = cc_client_id c then []
      else if matches_address_prefix (cc_user_address c) (am_target_address msg)
      then [DcSend (cc_dc c) (encode E (ServerTargetedAudio (cc_user_address c) (am_sender_id msg)
              (address_or_default E rd (am_sender_address msg)) (am_codec_id msg) (am_data msg)))]
      else [])"

section \<open>Keep-alive\<close>

definition close_stale_client :: "client_id \<Rightarrow> effect list \<times> daemon \<Rightarrow> effect list \<times> daemon" where
  "close_stale_client cid st =
     (let (effs, d) = st in
      (effs @ (case hm_get (peer_connections (client_registry d)) cid of Some pc \<Rightarrow> [PcClose pc] | None \<Rightarrow> []),
       with_unregister cid d))"

definition keepalive_tick :: "'z wp_crates_scheme \<Rightarrow> readings \<Rightarrow> daemon \<Rightarrow> effect list \<times> daemon" where
  "keepalive_tick E rd d =
     (let now_ms = of_nat (wall_nanos rd div 1000000);
          ping_bytes = encode E (Ping now_ms);
          pings = map (\<lambda>(_, dc). DcSend dc ping_bytes) (data_channels (client_registry d));
          stale_cids = get_stale_clients (instant_now rd) (client_registry d) KEEP_ALIVE_TIMEOUT_SECS
      in fold close_stale_client stale_cids (pings, d))"

section \<open>The invariant of the daemon\<close>

definition daemon_ok :: "nat \<Rightarrow> daemon \<Rightarrow> bool" where
  "daemon_ok now d \<longleftrightarrow> reg_wf (client_registry d) \<and> dc_ok now (dc_limiter d)"

lemma dc_ok_remove: "dc_ok now dl \<Longrightarrow> dc_ok now (dc_remove_client cid dl)"
  by (auto simp: dc_ok_iff dc.ok_def dc_params_def dc_remove_client_def hm_simps split: if_splits)

lemma client_registry_with_unregister:
  "client_registry (with_unregister cid d) = fst (unregister_client cid (client_registry d, dc_limiter d))"
  "dc_limiter (with_unregister cid d) = dc_remove_client cid (dc_limiter d)"
  using snd_unregister [of cid "(client_registry d, dc_limiter d)"]
  by (simp_all add: with_unregister_def Let_def case_prod_beta)

lemma with_unregister_ok: "daemon_ok now d \<Longrightarrow> daemon_ok now (with_unregister cid d)"
  by (simp add: daemon_ok_def client_registry_with_unregister unregister_client_wf dc_ok_remove)

lemma targets_wf:
  assumes "reg_wf reg"
  shows "reg_wf (reg\<lparr>targets := hm_insert cid a (targets reg)\<rparr>)" "reg_wf (reg\<lparr>targets := hm_or_insert cid a (targets reg)\<rparr>)"
  using assms by (simp_all add: reg_wf_def maps_wf_def lists_wf_def unique_addresses_def)

lemma room_group_audio_ok:
  assumes "daemon_ok now d"
  shows "daemon_ok now (snd (handle_room_group_audio E rd cid room codec payload d))"
    "daemon_ok now (snd (handle_room_group_audio_e2ee E rd cid room codec e payload d))"
  using assms update_speaker_energy_wf
  by (auto simp: daemon_ok_def handle_room_group_audio_def handle_room_group_audio_e2ee_def Let_def case_prod_beta)

lemma set_target_ok: "daemon_ok now d \<Longrightarrow> daemon_ok now (set_target cid a d)"
  by (simp add: daemon_ok_def set_target_def targets_wf)

lemma conn_mark_notified_ok: "daemon_ok now d \<Longrightarrow> daemon_ok now (conn_mark_notified cid c d)"
  by (simp add: daemon_ok_def conn_mark_notified_def mark_ops_wf)

lemma route_to_client_ok:
  "daemon_ok now d \<Longrightarrow> daemon_ok now (snd (route_to_client E rd cid sa target codec node payload dc t d))"
  by (simp add: route_to_client_def Let_def set_target_ok conn_mark_notified_ok with_unregister_ok)

lemma targeted_audio_ok:
  "daemon_ok now d \<Longrightarrow> daemon_ok now (snd (handle_client_targeted_audio E rd cid sa target codec node payload dc d))"
  by (simp add: handle_client_targeted_audio_def route_to_client_ok room_group_audio_ok split: AddressSearchResult.split)

lemma call_response_ok:
  assumes "daemon_ok now d"
  shows "daemon_ok now (snd (handle_call_accept_response E rd cid a d))"
    "daemon_ok now (snd (handle_call_reject_response E rd cid a d))"
    "daemon_ok now (snd (handle_call_hangup E rd cid a d))"
    "daemon_ok now (snd (handle_room_join E cid a d))"
    "daemon_ok now (snd (handle_room_leave E cid a d))"
  using assms join_room_with_limit_wf [of "client_registry d" 50 cid a]
  by (simp_all add: daemon_ok_def handle_call_accept_response_def handle_call_reject_response_def
      handle_call_hangup_def handle_room_join_def handle_room_leave_def Let_def case_prod_beta conn_defs
      mark_ops_wf clear_call_session_wf targets_wf join_room_snd leave_room_wf)

lemma update_pong_ok:
  "daemon_ok now d \<Longrightarrow> daemon_ok now (d\<lparr>client_registry := update_last_pong t cid (client_registry d)\<rparr>)"
  by (simp add: daemon_ok_def mark_ops_wf)

lemma dispatch_ok:
  "daemon_ok now d \<Longrightarrow> daemon_ok now (snd (dispatch_daemon_packet E rd cid addr node packet dc d))"
  by (cases packet) (simp_all add: targeted_audio_ok call_response_ok room_group_audio_ok update_pong_ok)

lemma close_stale_ok: "daemon_ok now (snd st) \<Longrightarrow> daemon_ok now (snd (close_stale_client cid st))"
  by (simp add: close_stale_client_def case_prod_beta with_unregister_ok)

lemma fold_close_stale_ok: "daemon_ok now (snd st) \<Longrightarrow> daemon_ok now (snd (fold close_stale_client cids st))"
  by (induction cids arbitrary: st) (simp_all add: close_stale_ok)

lemma dc_check_ok: "dc_ok t dl \<Longrightarrow> t \<le> now \<Longrightarrow> dc_ok now (snd (dc_check_and_consume now cid dl))"
  using dc.ok_check by (simp add: dc_ok_iff)

lemma on_message_ok:
  assumes "daemon_ok t d" and "t \<le> instant_now rd" and "on_message E rd c data d = Some (effs, d')"
  shows "daemon_ok (instant_now rd) d'"
proof -
  define d1 where "d1 = d\<lparr>dc_limiter := snd (dc_check_and_consume (instant_now rd) (cc_client_id c) (dc_limiter d))\<rparr>"
  have ok: "daemon_ok (instant_now rd) d1"
    using assms(1,2) dc_check_ok [of t "dc_limiter d" "instant_now rd" "cc_client_id c"] by (simp add: daemon_ok_def d1_def)
  have "d' = d1 \<or> (\<exists>packet. d' = snd (dispatch_daemon_packet E rd (cc_client_id c) (cc_user_address c) (cc_node_id c) packet (cc_dc c) d1))"
    using assms(3)
    by (auto simp: on_message_def Let_def case_prod_beta prod_eq_iff simp flip: d1_def split: option.splits sum.splits if_splits)
  then show ?thesis using ok dispatch_ok by blast
qed

lemma keepalive_ok: "daemon_ok now d \<Longrightarrow> daemon_ok now (snd (keepalive_tick E rd d))"
  by (simp add: keepalive_tick_def Let_def fold_close_stale_ok)

section \<open>What each handler emits\<close>

definition is_broadcast :: "effect \<Rightarrow> bool" where
  "is_broadcast e \<longleftrightarrow> (case e of AudioBroadcast _ \<Rightarrow> True | _ \<Rightarrow> False)"

text \<open>The calls the daemon lets audio through for: the target is a client found under the address,
  alive, has not rejected the caller, and has approved the caller or has the caller as its own
  target.\<close>

definition consents :: "nat \<Rightarrow> daemon \<Rightarrow> client_id \<Rightarrow> UserAddress \<Rightarrow> UserAddress \<Rightarrow> bool" where
  "consents now d cid caller target \<longleftrightarrow>
     (case find_client_by_address (client_registry d) target of
        Found t \<Rightarrow>
          t \<noteq> cid \<and> t \<notin> set (get_stale_clients now (client_registry d) KEEP_ALIVE_TIMEOUT_SECS)
          \<and> \<not> is_call_rejected (client_registry d) t caller
          \<and> (is_call_approved (client_registry d) t caller
             \<or> (case hm_get (targets (client_registry d)) t of
                  Some a \<Rightarrow> matches_address_prefix a caller | None \<Rightarrow> False))
      | _ \<Rightarrow> False)"

lemma broadcast_to_room_members_iff:
  "DcSend h b \<in> set (broadcast_to_room_members room bytes excl d) \<longleftrightarrow>
     b = bytes \<and> (\<exists>m \<in> set (get_room_member_ids (client_registry d) room).
        Some m \<noteq> excl \<and> hm_get (data_channels (client_registry d)) m = Some h)"
  by (force simp: broadcast_to_room_members_def List.map_filter_def)

lemma room_members_no_broadcast:
  "AudioBroadcast m \<notin> set (broadcast_to_room_members room bytes excl d)"
  by (auto simp: broadcast_to_room_members_def List.map_filter_def split: if_splits)

lemma room_audio_no_broadcast:
  "AudioBroadcast m \<notin> set (fst (handle_room_group_audio E rd cid room codec payload d))"
  "AudioBroadcast m \<notin> set (fst (handle_room_group_audio_e2ee E rd cid room codec e payload d))"
  by (simp_all add: handle_room_group_audio_def handle_room_group_audio_e2ee_def Let_def case_prod_beta
      process_room_speaker_update_def room_members_no_broadcast)

lemma room_audio_targets:
  "targets (client_registry (snd (handle_room_group_audio E rd cid room codec payload d))) = targets (client_registry d)"
  by (simp add: handle_room_group_audio_def update_speaker_energy_def Let_def case_prod_beta)

lemma response_no_broadcast:
  "AudioBroadcast m \<notin> set (send_call_response_notification E rd cid a mk d)"
  by (auto simp: send_call_response_notification_def Let_def split: option.splits)

lemma route_to_client_broadcast:
  assumes "AudioBroadcast m \<in> set (fst (route_to_client E rd cid sa target codec node payload dc t d))"
  shows "m = \<lparr>am_sender_id = cid, am_sender_address = sa, am_target_address = target, am_codec_id = codec,
              am_origin_node = node, am_ttl = DEFAULT_INITIAL_TTL, am_data = payload\<rparr>"
    and "payload \<noteq> []" and "t \<noteq> cid"
    and "t \<notin> set (get_stale_clients (instant_now rd) (client_registry d) KEEP_ALIVE_TIMEOUT_SECS)"
    and "\<not> is_call_rejected (client_registry d) t (address_or_default E rd sa)"
    and "is_call_approved (client_registry d) t (address_or_default E rd sa) \<or>
         (case hm_get (targets (client_registry d)) t of
            Some a \<Rightarrow> matches_address_prefix a (address_or_default E rd sa) | None \<Rightarrow> False)"
    and "snd (route_to_client E rd cid sa target codec node payload dc t d) = set_target cid target d"
  using assms
  by (auto simp: route_to_client_def Let_def conn_defs split: if_splits option.splits)

lemma targeted_audio_broadcast:
  assumes "AudioBroadcast m \<in> set (fst (handle_client_targeted_audio E rd cid (Some addr) target codec node payload dc d))"
  shows "m = \<lparr>am_sender_id = cid, am_sender_address = Some addr, am_target_address = target, am_codec_id = codec,
              am_origin_node = node, am_ttl = DEFAULT_INITIAL_TTL, am_data = payload\<rparr>
         \<and> consents (instant_now rd) d cid addr target
         \<and> snd (handle_client_targeted_audio E rd cid (Some addr) target codec node payload dc d) = set_target cid target d"
proof -
  obtain t where t: "conn_find_client_by_address d target = Found t"
    and eq: "handle_client_targeted_audio E rd cid (Some addr) target codec node payload dc d
       = route_to_client E rd cid (Some addr) target codec node payload dc t d"
    using assms
    by (auto simp: handle_client_targeted_audio_def room_audio_no_broadcast split: if_splits AddressSearchResult.splits)
  note r = route_to_client_broadcast [OF assms [unfolded eq]]
  have "consents (instant_now rd) d cid addr target"
    using r(3-6) t by (simp add: consents_def conn_find_client_by_address_def address_or_default_def cong: option.case_cong)
  then show ?thesis using r(1,7) unfolding eq by blast
qed

lemma dispatch_broadcast:
  assumes "AudioBroadcast m \<in> set (fst (dispatch_daemon_packet E rd cid addr node packet dc d))"
  obtains target codec audio where "packet = ClientTargetedAudio target codec audio"
    and "AudioBroadcast m \<in> set (fst (handle_client_targeted_audio E rd cid (Some addr) target codec node audio dc d))"
  using assms
  by (cases packet)
     (auto simp: room_audio_no_broadcast response_no_broadcast room_members_no_broadcast
        handle_call_accept_response_def handle_call_reject_response_def handle_call_hangup_def
        handle_room_join_def handle_room_leave_def Let_def case_prod_beta)

lemma consents_limiter [simp]: "consents now (d\<lparr>dc_limiter := dl\<rparr>) cid a t = consents now d cid a t"
  by (simp add: consents_def split: AddressSearchResult.split)

lemma on_message_broadcast:
  assumes "on_message E rd c data d = Some (effs, d')" and "AudioBroadcast m \<in> set effs"
  shows "am_sender_id m = cc_client_id c \<and> am_sender_address m = Some (cc_user_address c)
         \<and> am_origin_node m = cc_node_id c \<and> am_ttl m = DEFAULT_INITIAL_TTL
         \<and> consents (instant_now rd) d (cc_client_id c) (cc_user_address c) (am_target_address m)"
proof -
  define d1 where "d1 = d\<lparr>dc_limiter := snd (dc_check_and_consume (instant_now rd) (cc_client_id c) (dc_limiter d))\<rparr>"
  obtain packet where "(effs, d') = dispatch_daemon_packet E rd (cc_client_id c) (cc_user_address c) (cc_node_id c) packet (cc_dc c) d1"
    using assms
    by (auto simp: on_message_def Let_def case_prod_beta prod_eq_iff simp flip: d1_def
          split: option.splits sum.splits if_splits)
  with assms(2) have "AudioBroadcast m \<in> set (fst (dispatch_daemon_packet E rd (cc_client_id c) (cc_user_address c)
      (cc_node_id c) packet (cc_dc c) d1))"
    by (metis fst_conv)
  then obtain target codec audio where
    "AudioBroadcast m \<in> set (fst (handle_client_targeted_audio E rd (cc_client_id c) (Some (cc_user_address c))
        target codec (cc_node_id c) audio (cc_dc c) d1))"
    by (rule dispatch_broadcast)
  from targeted_audio_broadcast [OF this] show ?thesis by (auto simp: d1_def)
qed

section \<open>Energy and keep-alive\<close>

lemma length_chunks4 [simp]: "length (chunks4 n bs) = n"
  by (induction n arbitrary: bs) simp_all

lemma f64_round_le_1: "0 \<le> x \<Longrightarrow> x \<le> 1 \<Longrightarrow> 0 \<le> f64_round x \<and> f64_round x \<le> 1"
  using f64_round_mono [of x 1] by (simp add: f64_round_nonneg)

lemma sample_power_bounds: "0 \<le> sample_power c" "sample_power c \<le> 1"
proof -
  have "0 \<le> f64_round (s * s) \<and> f64_round (s * s) \<le> 1" if "\<bar>s\<bar> \<le> 1" for s
    using that mult_le_one [of "\<bar>s\<bar>" "\<bar>s\<bar>"] by (intro f64_round_le_1) (simp_all add: abs_mult_self_eq)
  then have "0 \<le> sample_power c \<and> sample_power c \<le> 1"
    by (auto simp: sample_power_def Let_def abs_le_iff split: option.split)
  then show "0 \<le> sample_power c" "sample_power c \<le> 1" by simp_all
qed

lemma sum_power_bounds:
  assumes "0 \<le> acc" and "acc \<le> real k" and "k + length cs \<le> 2 ^ 53"
  shows "0 \<le> foldl (\<lambda>acc c. f64_round (acc + sample_power c)) acc cs
         \<and> foldl (\<lambda>acc c. f64_round (acc + sample_power c)) acc cs \<le> real (k + length cs)"
  using assms
proof (induction cs arbitrary: acc k)
  case (Cons c cs)
  have "0 \<le> acc + sample_power c" "acc + sample_power c \<le> real (Suc k)"
    using Cons.prems sample_power_bounds [of c] by simp_all
  then have "0 \<le> f64_round (acc + sample_power c)" "f64_round (acc + sample_power c) \<le> real (Suc k)"
    using f64_round_nonneg f64_round_mono [of "acc + sample_power c" "real (Suc k)"] f64_round_nat [of "Suc k"] Cons.prems(3)
    by simp_all
  then show ?case using Cons.IH [of "f64_round (acc + sample_power c)" "Suc k"] Cons.prems(3) by simp
qed simp

lemma close_stale_daemon: "snd (close_stale_client c st) = with_unregister c (snd st)"
  by (simp add: close_stale_client_def case_prod_beta)

lemma fold_close_stale_forgotten:
  "c \<in> set cids \<or> forgotten c (client_registry (snd st)) \<Longrightarrow>
   forgotten c (client_registry (snd (fold close_stale_client cids st)))"
proof (induction cids arbitrary: st)
  case (Cons a cids)
  have "c \<in> set cids \<or> forgotten c (client_registry (snd (close_stale_client a st)))"
    using Cons.prems
    by (auto simp: close_stale_daemon client_registry_with_unregister unregister_forgotten forgotten_unregister)
  from Cons.IH [OF this] show ?case by simp
qed simp

lemma fold_close_stale_buckets:
  "hm_get (dc_buckets (dc_limiter (snd (fold close_stale_client cids st)))) c =
     (if c \<in> set cids then None else hm_get (dc_buckets (dc_limiter (snd st))) c)"
  by (induction cids arbitrary: st)
     (auto simp: close_stale_daemon client_registry_with_unregister dc_remove_client_def hm_simps)

lemma fold_close_stale_entries:
  "c \<notin> set cids \<Longrightarrow>
   entries_of c (client_registry (snd (fold close_stale_client cids st))) = entries_of c (client_registry (snd st))"
  by (induction cids arbitrary: st)
     (auto simp: close_stale_daemon client_registry_with_unregister entries_of_def unregister_frames hm_simps)

lemma fold_close_stale_effects: "e \<in> set (fst st) \<Longrightarrow> e \<in> set (fst (fold close_stale_client cids st))"
  by (induction cids arbitrary: st) (simp_all add: close_stale_client_def case_prod_beta)

lemma fold_close_stale_closes:
  "PcClose pc \<in> set (fst (fold close_stale_client cids st)) \<longleftrightarrow>
     PcClose pc \<in> set (fst st) \<or> (\<exists>c \<in> set cids. hm_get (peer_connections (client_registry (snd st))) c = Some pc)"
proof (induction cids arbitrary: st)
  case (Cons c cids)
  show ?case
    unfolding fold_Cons comp_def Cons.IH
    by (cases "hm_get (peer_connections (client_registry (snd st))) c = Some pc")
       (auto simp: close_stale_client_def case_prod_beta client_registry_with_unregister unregister_frames hm_simps
          split: option.splits if_splits)
qed simp

lemma stale_iff:
  "hm_wf (last_pong reg) \<Longrightarrow> c \<in> set (get_stale_clients now reg secs) \<longleftrightarrow>
     (\<exists>t. hm_get (last_pong reg) c = Some t \<and> secs \<le> (now - t) div 1000000000)"
  by (force simp: get_stale_clients_def hm_in_get)

section \<open>Properties\<close>

text \<open>C9: audio is put on the broadcast channel for a client's packet only under that client's own
  identity and only towards a target that consents: found, responsive, not having rejected the
  caller, and having approved it or called it.\<close>

theorem audio_needs_consent:
  assumes "on_message E rd c data d = Some (effs, d')" and "AudioBroadcast m \<in> set effs"
  shows "am_sender_id m = cc_client_id c \<and> am_sender_address m = Some (cc_user_address c)
         \<and> am_origin_node m = cc_node_id c \<and> am_ttl m = DEFAULT_INITIAL_TTL
         \<and> consents (instant_now rd) d (cc_client_id c) (cc_user_address c) (am_target_address m)"
  using on_message_broadcast [OF assms] .

definition addr_a :: UserAddress where "addr_a = UserAddress_new (replicate 64 (CHR ''a''))"
definition addr_b :: UserAddress where "addr_b = UserAddress_new (replicate 64 (CHR ''b''))"

lemma addr_ab_facts [simp]:
  "addr_a \<noteq> addr_b" "addr_b \<noteq> addr_a"
  "matches_address_prefix x addr_a \<longleftrightarrow> x = addr_a" "matches_address_prefix x addr_b \<longleftrightarrow> x = addr_b"
  "length (addr_id addr_a) = 64" "length (addr_id addr_b) = 64"
  by (simp_all add: addr_a_def addr_b_def UserAddress_new_def matches_full_address)

lemma canonical_ab [simp]: "canonical std_crates addr_a" "canonical std_crates addr_b"
proof -
  have "addr_a = from_bytes std_crates (replicate 32 0xAA)" by code_simp
  then show "canonical std_crates addr_a" using std.canonical_from_bytes [of "replicate 32 0xAA"] by simp
  have "addr_b = from_bytes std_crates (replicate 32 0xBB)" by code_simp
  then show "canonical std_crates addr_b" using std.canonical_from_bytes [of "replicate 32 0xBB"] by simp
qed

text \<open>Two connected clients, 1 under \<open>addr_a\<close> and 2 under \<open>addr_b\<close>; 2 has approved 1.\<close>

definition approved_example :: daemon where
  "approved_example =
     \<lparr>client_registry = ClientRegistry_new\<lparr>
        addresses := [(1, addr_a), (2, addr_b)], data_channels := [(1, 11), (2, 12)],
        last_pong := [(1, 0), (2, 0)], approved_calls := [(2, [addr_a])]\<rparr>,
      dc_limiter = DATACHANNEL_RATE_LIMITER\<rparr>"

definition rd_example :: readings where
  "rd_example = \<lparr>instant_now = 5, wall_nanos = 0, time_counter = 0\<rparr>"

definition conn_example :: client_conn where
  "conn_example = \<lparr>cc_dc = 11, cc_client_id = 1, cc_user_address = addr_a, cc_node_id = 77\<rparr>"

lemma on_message_dispatch:
  assumes "crate_laws E" and "wf_packet E p" and "validate_packet_sender_identity p (cc_client_id c) (cc_user_address c)"
    and "dc_check_and_consume (instant_now rd) (cc_client_id c) (dc_limiter d) = (True, dl)"
  shows "on_message E rd c (encode E p) d =
     Some (dispatch_daemon_packet E rd (cc_client_id c) (cc_user_address c) (cc_node_id c) p (cc_dc c) (d\<lparr>dc_limiter := dl\<rparr>))"
  using assms(3,4) crate_laws.decode_encode_packet [OF assms(1,2)] by (simp add: on_message_def Let_def)

lemma fresh_limiter_accepts:
  "dc_check_and_consume now c DATACHANNEL_RATE_LIMITER =
     (True, DATACHANNEL_RATE_LIMITER\<lparr>dc_buckets := [(c, \<lparr>tokens = 199, last_update = now\<rparr>)]\<rparr>)"
  by (simp add: dc_check_and_consume_def DATACHANNEL_RATE_LIMITER_def DataChannelRateLimiter_new_def rate_consts
      bucket_take_def bucket_or_full_def hm_new_def hm_get_def hm_len_def Let_def)

lemmas daemon_eval =
  find_client_by_address_def is_client_in_room_def is_client_in_same_call_def is_room_or_target_full_def
  get_participant_count_for_room_def counts_for_room_def is_call_approved_def is_call_rejected_def
  has_been_notified_def get_stale_clients_def KEEP_ALIVE_TIMEOUT_SECS_def MAX_MESSAGE_SIZE_def
  hm_get_def ClientRegistry_new_def hm_new_def Let_def conn_defs

lemma approved_example_broadcast:
  "handle_client_targeted_audio E rd_example 1 (Some addr_a) addr_b CODEC_OPUS 77 [1, 2] 11
      (approved_example\<lparr>dc_limiter := dl\<rparr>)
   = ([AudioBroadcast \<lparr>am_sender_id = 1, am_sender_address = Some addr_a, am_target_address = addr_b,
       am_codec_id = CODEC_OPUS, am_origin_node = 77, am_ttl = DEFAULT_INITIAL_TTL, am_data = [1, 2]\<rparr>],
      set_target 1 addr_b (approved_example\<lparr>dc_limiter := dl\<rparr>))"
  by (simp add: handle_client_targeted_audio_def route_to_client_def address_or_default_def approved_example_def
      rd_example_def daemon_eval)

lemma approved_example_message:
  "on_message std_crates rd_example conn_example (encode std_crates (ClientTargetedAudio addr_b CODEC_OPUS [1, 2])) approved_example
   = Some ([AudioBroadcast \<lparr>am_sender_id = 1, am_sender_address = Some addr_a, am_target_address = addr_b,
       am_codec_id = CODEC_OPUS, am_origin_node = 77, am_ttl = DEFAULT_INITIAL_TTL, am_data = [1, 2]\<rparr>],
      set_target 1 addr_b (approved_example\<lparr>dc_limiter := DATACHANNEL_RATE_LIMITER\<lparr>dc_buckets := [(1, \<lparr>tokens = 199, last_update = 5\<rparr>)]\<rparr>\<rparr>))"
proof -
  have "dc_check_and_consume (instant_now rd_example) (cc_client_id conn_example) (dc_limiter approved_example)
      = (True, DATACHANNEL_RATE_LIMITER\<lparr>dc_buckets := [(1, \<lparr>tokens = 199, last_update = 5\<rparr>)]\<rparr>)"
    by (simp add: fresh_limiter_accepts approved_example_def rd_example_def conn_example_def)
  from on_message_dispatch [OF std.crate_laws_axioms _ _ this, of "ClientTargetedAudio addr_b CODEC_OPUS [1, 2]"]
  show ?thesis
    by (simp add: size_consts) (simp add: conn_example_def approved_example_broadcast)
qed

theorem audio_needs_consent_witness:
  "consents 5 approved_example 1 addr_a addr_b"
  using audio_needs_consent [OF approved_example_message, of "\<lparr>am_sender_id = 1, am_sender_address = Some addr_a,
      am_target_address = addr_b, am_codec_id = CODEC_OPUS, am_origin_node = 77, am_ttl = DEFAULT_INITIAL_TTL, am_data = [1, 2]\<rparr>"]
  by (simp add: rd_example_def conn_example_def)

text \<open>C10: whatever bytes a client sends, the daemon does not panic and keeps its invariant (registry
  well-formed, rate-limit buckets within bounds); closing a channel and the keep-alive task
  keep it too.\<close>

theorem daemon_invariant:
  assumes "crate_laws E" and "daemon_ok t d" and "t \<le> instant_now rd"
  shows "(\<exists>effs d'. on_message E rd c data d = Some (effs, d') \<and> daemon_ok (instant_now rd) d') \<and>
         daemon_ok t (on_close c d) \<and> daemon_ok t (snd (keepalive_tick E rd d))"
proof -
  have "on_message E rd c data d \<noteq> None"
    using crate_laws.decode_decodes_well [OF assms(1), of "wall_nanos rd" "time_counter rd" data]
    by (auto simp: on_message_def decodes_well_def Let_def case_prod_beta split: option.splits sum.splits)
  then show ?thesis
    using on_message_ok [OF assms(2,3)] with_unregister_ok [OF assms(2)] keepalive_ok [OF assms(2)]
    by (auto simp: on_close_def)
qed

lemma approved_example_ok: "daemon_ok t approved_example"
proof -
  have "reg_wf (client_registry approved_example)"
    by (simp add: approved_example_def reg_wf_def maps_wf_def lists_wf_def unique_addresses_def ClientRegistry_new_def
        hm_new_def hm_wf_def hm_all_def hm_values_def)
  then show ?thesis by (simp add: daemon_ok_def dc_ok_global) (simp add: approved_example_def dc_ok_global)
qed

theorem daemon_invariant_witness:
  "\<exists>effs d'. on_message std_crates rd_example conn_example [0x04, 9] approved_example = Some (effs, d') \<and> daemon_ok 5 d'"
  using daemon_invariant [OF std.crate_laws_axioms approved_example_ok [of 0], of rd_example conn_example "[0x04, 9]"]
  by (simp add: rd_example_def)

text \<open>a packet that claims another client's id or address is dropped: no effect, and the registry
  is untouched.\<close>

theorem spoofed_packet_dropped:
  assumes "decode E (wall_nanos rd) (time_counter rd) data = Some (Ok p)"
    and "\<not> validate_packet_sender_identity p (cc_client_id c) (cc_user_address c)"
  shows "\<exists>d'. on_message E rd c data d = Some ([], d') \<and> client_registry d' = client_registry d"
  using assms by (auto simp: on_message_def Let_def case_prod_beta)

theorem spoofed_packet_dropped_witness:
  "\<exists>d'. on_message std_crates rd_example conn_example (encode std_crates (CallRequest 2 addr_b)) approved_example = Some ([], d')
      \<and> client_registry d' = client_registry approved_example"
  by (rule spoofed_packet_dropped [OF std.decode_encode_packet]) (simp_all add: conn_example_def)

text \<open>C26: when audio of a client is let through to a target, that target is recorded as the client's; and as
  long as it is recorded, in whatever state, no targeted packet of that client to the target is put on
  the broadcast channel: the daemon treats it as audio of a room, and the record stays. So of a
  call's audio only the first packet is broadcast, until a hang-up, a call to another target or a
  disconnection removes the record.\<close>

theorem second_packet_not_broadcast:
  assumes "handle_client_targeted_audio E rd cid (Some addr) target codec node payload dc d = (effs, d')"
    and "AudioBroadcast m \<in> set effs"
  shows "hm_get (targets (client_registry d')) cid = Some target \<and>
         (\<forall>rd' codec' payload' later effs' after.
            hm_get (targets (client_registry later)) cid = Some target \<longrightarrow>
            handle_client_targeted_audio E rd' cid (Some addr) target codec' node payload' dc later = (effs', after) \<longrightarrow>
            (\<forall>m'. AudioBroadcast m' \<notin> set effs') \<and> hm_get (targets (client_registry after)) cid = Some target)"
proof -
  have "d' = set_target cid target d"
    using targeted_audio_broadcast [of m E rd cid addr target codec node payload dc d] assms by simp
  then have "hm_get (targets (client_registry d')) cid = Some target"
    by (simp add: set_target_def hm_simps)
  moreover have "AudioBroadcast m' \<notin> set effs' \<and> hm_get (targets (client_registry after)) cid = Some target"
    if t: "hm_get (targets (client_registry later)) cid = Some target"
      and h: "handle_client_targeted_audio E rd' cid (Some addr) target codec' node payload' dc later = (effs', after)"
    for rd' codec' payload' later effs' after m'
  proof -
    have "conn_is_client_in_room later cid target"
      using t by (simp add: conn_is_client_in_room_def is_client_in_room_def)
    then have "(effs', after) = (if MAX_MESSAGE_SIZE < length payload' then ([], later)
        else handle_room_group_audio E rd' cid target codec' payload' later)"
      using h unfolding handle_client_targeted_audio_def by (simp split: if_splits)
    then show ?thesis
      using t room_audio_no_broadcast(1) [of m' E rd' cid target codec' payload' later]
        room_audio_targets [of E rd' cid target codec' payload' later]
      by (cases "MAX_MESSAGE_SIZE < length payload'") (simp_all add: prod_eq_iff)
  qed
  ultimately show ?thesis by blast
qed

theorem second_packet_not_broadcast_witness:
  "\<forall>m'. AudioBroadcast m' \<notin> set (fst (handle_client_targeted_audio std_crates rd_example 1 (Some addr_a) addr_b CODEC_OPUS 77 [3] 11
      (set_target 1 addr_b (approved_example\<lparr>dc_limiter := DATACHANNEL_RATE_LIMITER\<rparr>))))"
proof -
  let ?d = "set_target 1 addr_b (approved_example\<lparr>dc_limiter := DATACHANNEL_RATE_LIMITER\<rparr>)"
  obtain effs' d' where r: "handle_client_targeted_audio std_crates rd_example 1 (Some addr_a) addr_b CODEC_OPUS 77 [3] 11 ?d = (effs', d')"
    by fastforce
  from second_packet_not_broadcast [OF approved_example_broadcast list.set_intros(1)] r
  have "\<forall>m'. AudioBroadcast m' \<notin> set effs'" by blast
  with r show ?thesis by simp
qed

text \<open>the energy of every audio payload that passes the size check lies between 0 and 1, also
  for samples that are NaN, infinite or out of range.\<close>

theorem audio_energy_bounds:
  assumes "length audio \<le> MAX_MESSAGE_SIZE"
  shows "0 \<le> calculate_audio_energy audio \<and> calculate_audio_energy audio \<le> 1"
proof -
  define chunks where "chunks = chunks4 (length audio div 4) audio"
  define sq where "sq = foldl (\<lambda>acc c. f64_round (acc + sample_power c)) 0 chunks"
  have "length chunks \<le> 2 ^ 53" using assms by (simp add: chunks_def MAX_MESSAGE_SIZE_def)
  then have sq: "0 \<le> sq" "sq \<le> real (length chunks)"
    using sum_power_bounds [of 0 0 chunks] by (simp_all add: sq_def)
  then have "0 \<le> sq / real (length chunks)" "sq / real (length chunks) \<le> 1"
    by (simp_all add: divide_le_eq_1)
  then have "0 \<le> f64_round (sq / real (length chunks)) \<and> f64_round (sq / real (length chunks)) \<le> 1"
    by (rule f64_round_le_1)
  moreover have "0 \<le> f64_round (real (unat (hd audio)) / 255) \<and> f64_round (real (unat (hd audio)) / 255) \<le> 1"
  proof (rule f64_round_le_1)
    have "real (unat (hd audio)) \<le> real 255" by (rule of_nat_mono) (use unat_byte_less [of "hd audio"] in linarith)
    then show "real (unat (hd audio)) / 255 \<le> 1" by simp
  qed (intro divide_nonneg_nonneg of_nat_0_le_iff; simp)
  ultimately show ?thesis
    by (simp add: calculate_audio_energy_def Let_def f64_sqrt_le_1 f64_sqrt_nonneg flip: chunks_def sq_def)
qed

theorem audio_energy_bounds_witness:
  "0 \<le> calculate_audio_energy [0, 0, 0x80, 0x7F] \<and> calculate_audio_energy [0, 0, 0x80, 0x7F] \<le> 1"
  by (rule audio_energy_bounds) (simp add: MAX_MESSAGE_SIZE_def)

text \<open>C40: room audio that is among the top three is sent to exactly the channels of the room's members
  other than the sender; nothing asks whether the sender is a member of the room itself.\<close>

theorem room_audio_recipients:
  assumes "bytes_laws E" and "length payload \<le> MAX_MESSAGE_SIZE"
    and "fst (fst (update_speaker_energy (instant_now rd) room cid (calculate_audio_energy payload) (client_registry d)))"
  shows "DcSend h (encode E (RoomGroupAudio room codec payload))
             \<in> set (fst (handle_room_group_audio E rd cid room codec payload d)) \<longleftrightarrow>
           (\<exists>m \<in> set (get_room_member_ids (client_registry d) room). m \<noteq> cid \<and> hm_get (data_channels (client_registry d)) m = Some h)"
proof -
  obtain speakers changed reg' where u:
    "update_speaker_energy (instant_now rd) room cid (calculate_audio_energy payload) (client_registry d)
       = ((True, speakers, changed), reg')"
    using assms(3) by (metis (full_types) prod.exhaust_sel)
  have reg: "room_members reg' = room_members (client_registry d)" "data_channels reg' = data_channels (client_registry d)"
    using u unfolding update_speaker_energy_eq [OF refl refl refl refl refl] by auto
  have ids: "get_room_member_ids reg' room = get_room_member_ids (client_registry d) room"
    by (simp add: get_room_member_ids_def reg)
  have ne: "encode E (RoomGroupAudio room codec payload) \<noteq> encode E (ActiveSpeakerNotice room speakers)"
    by (simp add: bytes_laws.encode_layout [OF assms(1)])
  show ?thesis
    using assms(2) ne
    by (simp add: handle_room_group_audio_def process_room_speaker_update_def broadcast_to_room_members_iff reg u Let_def ids)
qed

text \<open>Client 1 is not a member of the room, and its audio reaches member 2.\<close>

theorem room_audio_recipients_witness:
  "DcSend 12 (encode std_crates (RoomGroupAudio (UserAddress_new ''room'') CODEC_OPUS []))
     \<in> set (fst (handle_room_group_audio std_crates rd_example 1 (UserAddress_new ''room'') CODEC_OPUS []
         (approved_example\<lparr>client_registry := (client_registry approved_example)\<lparr>
            room_members := [(UserAddress_new ''room'', [2])]\<rparr>\<rparr>)))"
proof (rule room_audio_recipients [THEN iffD2, OF std.bytes_laws_axioms])
  show "fst (fst (update_speaker_energy (instant_now rd_example) (UserAddress_new ''room'') 1 (calculate_audio_energy [])
      (client_registry (approved_example\<lparr>client_registry := (client_registry approved_example)\<lparr>
            room_members := [(UserAddress_new ''room'', [2])]\<rparr>\<rparr>))))"
    by (subst update_speaker_energy_eq [OF refl refl refl refl refl])
       (simp add: approved_example_def ClientRegistry_new_def hm_new_def speakers_of_def hm_get_def live_speakers_def
          hm_retain_def ranked_def calculate_audio_energy_def)
qed (simp_all add: approved_example_def get_room_member_ids_def hm_get_def)

text \<open>a hang-up ends the target's call whoever sends it: for any sender, in a call with the target
  or not, the target's recorded call is dropped, with every call directed at the target.\<close>

theorem hangup_by_anyone:
  assumes "daemon_ok t d" and "find_client_by_address (client_registry d) victim = Found v"
  shows "hm_get (targets (client_registry (snd (handle_call_hangup E rd cid victim d)))) v = None \<and>
         (\<forall>c a. hm_get (targets (client_registry (snd (handle_call_hangup E rd cid victim d)))) c = Some a \<longrightarrow>
            \<not> matches_address_prefix a victim)"
proof -
  have "hm_wf (targets (client_registry d))" using assms(1) by (simp add: daemon_ok_def reg_wf_def maps_wf_def)
  then show ?thesis
    using assms(2)
    by (auto simp: handle_call_hangup_def clear_call_session_def Let_def hm_simps split: option.splits if_splits)
qed

theorem hangup_by_anyone_witness:
  "hm_get (targets (client_registry (snd (handle_call_hangup std_crates rd_example 9 addr_b (set_target 2 addr_a approved_example))))) 2 = None"
proof -
  have "find_client_by_address (client_registry (set_target 2 addr_a approved_example)) addr_b = Found 2"
    by (simp add: set_target_def approved_example_def daemon_eval)
  then show ?thesis
    using hangup_by_anyone [OF set_target_ok [OF approved_example_ok [of 0]]] by blast
qed



text \<open>the forwarding task of a channel delivers a broadcast message only to its own client, under
  the client's own address, and never back to the sender.\<close>

theorem forward_audio_only_to_target:
  "DcSend h b \<in> set (forward_audio E rd c m) \<longleftrightarrow>
     h = cc_dc c \<and> am_sender_id m \<noteq> cc_client_id c \<and> matches_address_prefix (cc_user_address c) (am_target_address m) \<and>
     b = encode E (ServerTargetedAudio (cc_user_address c) (am_sender_id m)
           (address_or_default E rd (am_sender_address m)) (am_codec_id m) (am_data m))"
  by (auto simp: forward_audio_def)

end
