(* ===== verification/WP_Auth.thy ===== *)
theory WP_Auth
  imports WP_HashMap WP_Address "HOL-Library.Monad_Syntax"
begin

text \<open>
  Identity and request authentication (\<^verbatim>\<open>crates/wpapi/src/address/auth.rs\<close>, \<^verbatim>\<open>keypair.rs\<close>,
  \<^verbatim>\<open>nostr.rs\<close>): key pairs, the \<^verbatim>\<open>Authorization\<close> header, its verification and the anti-replay cache.
  The signature schemes and Bech32 come from third-party crates and extend the record of
  crate functions; the locale \<open>crypto_laws\<close> states what their documentation promises
  (key and signature sizes, and that a signature verifies under the public key).
  Wall-clock readings in seconds are arguments.
\<close>

section \<open>The crates\<close>

record crypto_crates = wp_crates +
  ed25519_key_ok :: "bytes \<Rightarrow> bool"
  ed25519_verify :: "bytes \<Rightarrow> bytes \<Rightarrow> bytes \<Rightarrow> bool"
  ed25519_public :: "bytes \<Rightarrow> bytes"
  ed25519_sign :: "bytes \<Rightarrow> bytes \<Rightarrow> bytes"
  schnorr_secret_ok :: "bytes \<Rightarrow> (unit, string) result"
  schnorr_key_ok :: "bytes \<Rightarrow> bool"
  schnorr_sig_ok :: "bytes \<Rightarrow> bool"
  schnorr_verify :: "bytes \<Rightarrow> bytes \<Rightarrow> bytes \<Rightarrow> bool"
  schnorr_public :: "bytes \<Rightarrow> bytes"
  schnorr_sign :: "bytes \<Rightarrow> bytes \<Rightarrow> bytes"
  bech32_decode :: "string \<Rightarrow> (string \<times> bytes, string) result"
  bech32_hrp_ok :: "string \<Rightarrow> (unit, string) result"
  bech32_encode :: "string \<Rightarrow> bytes \<Rightarrow> (string, string) result"

text \<open>\<^verbatim>\<open>hex::decode_to_slice\<close> into an array of \<open>n\<close> bytes.\<close>

definition hex_decode_to_slice :: "'z hex_crate_scheme \<Rightarrow> nat \<Rightarrow> string \<Rightarrow> (bytes, string) result" where
  "hex_decode_to_slice E n s =
     (case hex_decode E s of
        Inr bs \<Rightarrow> if length bs = n then Ok bs else Err ''Invalid string length''
      | Inl e \<Rightarrow> Err e)"

section \<open>Nostr keys\<close>

definition decode_bech32 :: "'z crypto_crates_scheme \<Rightarrow> string \<Rightarrow> (string \<times> bytes, string) result" where
  "decode_bech32 E s =
     (case bech32_decode E (str_trim s) of
        Inr r \<Rightarrow> Ok r
      | Inl e \<Rightarrow> Err (''Bech32 decode error: '' @ e))"

definition encode_bech32 :: "'z crypto_crates_scheme \<Rightarrow> string \<Rightarrow> bytes \<Rightarrow> (string, string) result" where
  "encode_bech32 E hrp data_8bit =
     (case bech32_hrp_ok E hrp of
        Inl e \<Rightarrow> Err (''Invalid HRP: '' @ e)
      | Inr _ \<Rightarrow>
          (case bech32_encode E hrp data_8bit of
             Inr s \<Rightarrow> Ok s
           | Inl e \<Rightarrow> Err (''Bech32 encode error: '' @ e)))"

definition parse_nostr_key_to_bytes :: "'z crypto_crates_scheme \<Rightarrow> string \<Rightarrow> (bytes, string) result" where
  "parse_nostr_key_to_bytes E input =
     (let trimmed = str_trim input in
      if starts_with trimmed ''nsec1'' \<or> starts_with trimmed ''npub1''
      then (case decode_bech32 E trimmed of
              Inl e \<Rightarrow> Err e
            | Inr (hrp, data_bytes) \<Rightarrow>
                if hrp \<noteq> ''nsec'' \<and> hrp \<noteq> ''npub''
                then Err (''Unsupported Nostr HRP prefix: '' @ hrp)
                else if length data_bytes \<noteq> 32
                then Err (''Invalid Nostr key byte length: got '' @ show_nat (length data_bytes) @ '' bytes, expected 32'')
                else Ok data_bytes)
      else if length trimmed = 64
      then (case hex_decode_to_slice E 32 trimmed of
              Inr arr \<Rightarrow> Ok arr
            | Inl e \<Rightarrow> Err (''Invalid Hex key format: '' @ e))
      else Err ''Invalid Nostr key format (expected 64-char Hex or nsec1.../npub1... Bech32)'')"

section \<open>Key pairs\<close>

text \<open>A signing key is its 32 secret bytes.\<close>

datatype KeypairKind = Ed25519 bytes | Secp256k1 bytes

record UserKeypair =
  kind :: KeypairKind

text \<open>\<^verbatim>\<open>generate\<close>: \<open>seed\<close> is what the operating system's random generator returned.\<close>

definition keypair_generate :: "bytes \<Rightarrow> UserKeypair" where
  "keypair_generate seed = \<lparr>kind = Ed25519 seed\<rparr>"

definition keypair_from_bytes :: "bytes \<Rightarrow> UserKeypair" where
  "keypair_from_bytes bytes = \<lparr>kind = Ed25519 bytes\<rparr>"

definition from_secp256k1_bytes :: "'z crypto_crates_scheme \<Rightarrow> bytes \<Rightarrow> (UserKeypair, string) result" where
  "from_secp256k1_bytes E bytes =
     (case schnorr_secret_ok E bytes of
        Inr _ \<Rightarrow> Ok \<lparr>kind = Secp256k1 bytes\<rparr>
      | Inl e \<Rightarrow> Err (''Invalid secp256k1 secret key: '' @ e))"

definition from_nostr_key :: "'z crypto_crates_scheme \<Rightarrow> string \<Rightarrow> (UserKeypair, string) result" where
  "from_nostr_key E key_str =
     (case parse_nostr_key_to_bytes E key_str of
        Inr bytes \<Rightarrow> from_secp256k1_bytes E bytes
      | Inl e \<Rightarrow> Err e)"

definition keypair_to_bytes :: "UserKeypair \<Rightarrow> bytes" where
  "keypair_to_bytes kp = (case kind kp of Ed25519 sk \<Rightarrow> sk | Secp256k1 sk \<Rightarrow> sk)"

definition public_key_address :: "'z crypto_crates_scheme \<Rightarrow> UserKeypair \<Rightarrow> UserAddress" where
  "public_key_address E kp =
     (case kind kp of
        Ed25519 sk \<Rightarrow> from_bytes E (ed25519_public E sk)
      | Secp256k1 sk \<Rightarrow> UserAddress_new (hex_encode E (schnorr_public E sk)))"

definition sign :: "'z crypto_crates_scheme \<Rightarrow> UserKeypair \<Rightarrow> bytes \<Rightarrow> string" where
  "sign E kp message =
     (case kind kp of
        Ed25519 sk \<Rightarrow> hex_encode E (ed25519_sign E sk message)
      | Secp256k1 sk \<Rightarrow> hex_encode E (schnorr_sign E sk message))"

definition is_secp256k1 :: "UserKeypair \<Rightarrow> bool" where
  "is_secp256k1 kp = (case kind kp of Secp256k1 _ \<Rightarrow> True | _ \<Rightarrow> False)"

text \<open>\<^verbatim>\<open>UserKeypair::verify\<close>: Ed25519 first for 128-digit signatures, then Schnorr.\<close>

definition schnorr_verify_hex :: "'z crypto_crates_scheme \<Rightarrow> UserAddress \<Rightarrow> bytes \<Rightarrow> string \<Rightarrow> bool" where
  "schnorr_verify_hex E pubkey_address message signature_hex =
     (case hex_decode E (addr_id pubkey_address) of
        Inl _ \<Rightarrow> False
      | Inr pubkey_bytes \<Rightarrow>
          if \<not> schnorr_key_ok E pubkey_bytes then False
          else (case hex_decode E signature_hex of
                  Inl _ \<Rightarrow> False
                | Inr sig_bytes \<Rightarrow>
                    if \<not> schnorr_sig_ok E sig_bytes then False
                    else schnorr_verify E pubkey_bytes message sig_bytes))"

definition verify :: "'z crypto_crates_scheme \<Rightarrow> UserAddress \<Rightarrow> bytes \<Rightarrow> string \<Rightarrow> bool" where
  "verify E pubkey_address message signature_hex =
     (let pubkey_bytes = to_bytes E pubkey_address in
      if length signature_hex = 128
      then (if \<not> ed25519_key_ok E pubkey_bytes then False
            else (case hex_decode_to_slice E 64 signature_hex of
                    Inr sig_buf \<Rightarrow>
                      if ed25519_verify E pubkey_bytes message sig_buf then True
                      else schnorr_verify_hex E pubkey_address message signature_hex
                  | Inl _ \<Rightarrow> schnorr_verify_hex E pubkey_address message signature_hex))
      else schnorr_verify_hex E pubkey_address message signature_hex)"

section \<open>The Authorization header\<close>

definition auth_payload :: "u64 \<Rightarrow> string \<Rightarrow> bytes" where
  "auth_payload timestamp sdp_offer = as_bytes (show_nat (unat timestamp) @ '':'' @ sdp_offer)"

definition build_authorization_header :: "'z crypto_crates_scheme \<Rightarrow> u64 \<Rightarrow> UserKeypair \<Rightarrow> string \<Rightarrow> u64 \<times> string" where
  "build_authorization_header E timestamp keypair sdp_offer =
     (let sig_hex = sign E keypair (auth_payload timestamp sdp_offer);
          scheme = (if is_secp256k1 keypair then ''WP-Secp256k1'' else ''WP-Ed25519'')
      in (timestamp, scheme @ '' '' @ addr_id (public_key_address E keypair) @ '':'' @ show_nat (unat timestamp) @ '':'' @ sig_hex))"

definition MAX_TIMESTAMP_DRIFT_SECS :: u64 where "MAX_TIMESTAMP_DRIFT_SECS = 300"
definition MAX_ANTI_REPLAY_CACHE_SIZE :: nat where "MAX_ANTI_REPLAY_CACHE_SIZE = 10000"

datatype AuthError =
    InvalidScheme string
  | InvalidHeaderFormat
  | InvalidTimestamp
  | TimestampDrift u64 u64
  | InvalidEd25519Signature
  | InvalidSecp256k1Key
  | InvalidSecp256k1Signature
  | InvalidHex string
  | ReplayDetected
  | InvalidTurnUsernameFormat
  | TurnCredentialExpired u64 u64
  | InvalidTurnSignature
  | InvalidTurnBase64
  | MissingHeader

definition abs_diff :: "u64 \<Rightarrow> u64 \<Rightarrow> u64" where
  "abs_diff a b = (if a < b then b - a else a - b)"

record AntiReplayCache =
  signatures :: "(string, u64) hmap"

definition AntiReplayCache_new :: AntiReplayCache where
  "AntiReplayCache_new = \<lparr>signatures = hm_new\<rparr>"

definition check_and_insert ::
    "string \<Rightarrow> u64 \<Rightarrow> u64 \<Rightarrow> AntiReplayCache \<Rightarrow> (unit, AuthError) result \<times> AntiReplayCache" where
  "check_and_insert signature timestamp now cache =
     (let map = hm_retain (\<lambda>_ ts. abs_diff now ts \<le> MAX_TIMESTAMP_DRIFT_SECS) (signatures cache)
      in if hm_contains_key map signature
         then (Err ReplayDetected, cache\<lparr>signatures := map\<rparr>)
         else (let map = (if MAX_ANTI_REPLAY_CACHE_SIZE \<le> hm_len map
                     then (let entries = sort_key snd map;
                               keep_count = MAX_ANTI_REPLAY_CACHE_SIZE div 2
                           in foldl (\<lambda>m (sig, ts). hm_insert sig ts m) hm_new (drop keep_count entries))
                     else map)
               in (Ok (), cache\<lparr>signatures := hm_insert signature timestamp map\<rparr>)))"

definition cache_clear :: "AntiReplayCache \<Rightarrow> AntiReplayCache" where
  "cache_clear cache = cache\<lparr>signatures := hm_new\<rparr>"

definition verify_authorization_header_with_cache ::
    "'z crypto_crates_scheme \<Rightarrow> u64 \<Rightarrow> string \<Rightarrow> string \<Rightarrow> AntiReplayCache \<Rightarrow>
     (UserAddress, AuthError) result \<times> AntiReplayCache" where
  "verify_authorization_header_with_cache E now header_val sdp_offer cache =
     (case strip_prefix header_val ''WP-Ed25519 '' of
        None \<Rightarrow> (Err (InvalidScheme header_val), cache)
      | Some val \<Rightarrow>
          (case split_char (CHR '':'') val of
             [pubkey_hex, ts, sig_hex] \<Rightarrow>
               (case parse_u64 ts of
                  None \<Rightarrow> (Err InvalidTimestamp, cache)
                | Some timestamp \<Rightarrow>
                    (let diff = abs_diff now timestamp in
                     if MAX_TIMESTAMP_DRIFT_SECS < diff
                     then (Err (TimestampDrift diff MAX_TIMESTAMP_DRIFT_SECS), cache)
                     else (let addr = UserAddress_new pubkey_hex;
                               payload = auth_payload timestamp sdp_offer
                           in if \<not> verify E addr payload sig_hex
                              then (Err InvalidEd25519Signature, cache)
                              else (case check_and_insert sig_hex timestamp now cache of
                                      (Inl e, cache) \<Rightarrow> (Err e, cache)
                                    | (Inr _, cache) \<Rightarrow> (Ok addr, cache)))))
           | _ \<Rightarrow> (Err InvalidHeaderFormat, cache)))"

definition verify_secp256k1_authorization_header_with_cache ::
    "'z crypto_crates_scheme \<Rightarrow> u64 \<Rightarrow> string \<Rightarrow> string \<Rightarrow> AntiReplayCache \<Rightarrow>
     (UserAddress, AuthError) result \<times> AntiReplayCache" where
  "verify_secp256k1_authorization_header_with_cache E now header_val sdp_offer cache =
     (case strip_prefix header_val ''WP-Secp256k1 '' of
        None \<Rightarrow> (Err (InvalidScheme header_val), cache)
      | Some val \<Rightarrow>
          (case split_char (CHR '':'') val of
             [pubkey_hex, ts, sig_hex] \<Rightarrow>
               (case parse_u64 ts of
                  None \<Rightarrow> (Err InvalidTimestamp, cache)
                | Some timestamp \<Rightarrow>
                    (let diff = abs_diff now timestamp in
                     if MAX_TIMESTAMP_DRIFT_SECS < diff
                     then (Err (TimestampDrift diff MAX_TIMESTAMP_DRIFT_SECS), cache)
                     else (case hex_decode E pubkey_hex of
                             Inl e \<Rightarrow> (Err (InvalidHex e), cache)
                           | Inr pubkey_bytes \<Rightarrow>
                               if \<not> schnorr_key_ok E pubkey_bytes then (Err InvalidSecp256k1Key, cache)
                               else (case hex_decode E sig_hex of
                                       Inl e \<Rightarrow> (Err (InvalidHex e), cache)
                                     | Inr sig_bytes \<Rightarrow>
                                         if \<not> schnorr_sig_ok E sig_bytes then (Err InvalidSecp256k1Signature, cache)
                                         else if \<not> schnorr_verify E pubkey_bytes (auth_payload timestamp sdp_offer) sig_bytes
                                         then (Err InvalidSecp256k1Signature, cache)
                                         else (case check_and_insert sig_hex timestamp now cache of
                                                 (Inl e, cache) \<Rightarrow> (Err e, cache)
                                               | (Inr _, cache) \<Rightarrow> (Ok (UserAddress_new pubkey_hex), cache))))))
           | _ \<Rightarrow> (Err InvalidHeaderFormat, cache)))"

definition verify_any_authorization_header_with_cache ::
    "'z crypto_crates_scheme \<Rightarrow> u64 \<Rightarrow> string \<Rightarrow> string \<Rightarrow> AntiReplayCache \<Rightarrow>
     (UserAddress, AuthError) result \<times> AntiReplayCache" where
  "verify_any_authorization_header_with_cache E now header_val sdp_offer cache =
     (if starts_with header_val ''WP-Secp256k1 ''
      then verify_secp256k1_authorization_header_with_cache E now header_val sdp_offer cache
      else verify_authorization_header_with_cache E now header_val sdp_offer cache)"

text \<open>The variants on the global cache; the cache is part of the state the caller passes.\<close>

definition verify_authorization_header ::
    "'z crypto_crates_scheme \<Rightarrow> u64 \<Rightarrow> string \<Rightarrow> string \<Rightarrow> AntiReplayCache \<Rightarrow>
     (UserAddress, AuthError) result \<times> AntiReplayCache" where
  "verify_authorization_header E now header_val sdp_offer global_cache =
     verify_authorization_header_with_cache E now header_val sdp_offer global_cache"

definition verify_secp256k1_authorization_header ::
    "'z crypto_crates_scheme \<Rightarrow> u64 \<Rightarrow> string \<Rightarrow> string \<Rightarrow> AntiReplayCache \<Rightarrow>
     (UserAddress, AuthError) result \<times> AntiReplayCache" where
  "verify_secp256k1_authorization_header E now header_val sdp_offer global_cache =
     verify_secp256k1_authorization_header_with_cache E now header_val sdp_offer global_cache"

definition verify_any_authorization_header ::
    "'z crypto_crates_scheme \<Rightarrow> u64 \<Rightarrow> string \<Rightarrow> string \<Rightarrow> AntiReplayCache \<Rightarrow>
     (UserAddress, AuthError) result \<times> AntiReplayCache" where
  "verify_any_authorization_header E now header_val sdp_offer global_cache =
     verify_any_authorization_header_with_cache E now header_val sdp_offer global_cache"

section \<open>The documented behaviour of the signature crates\<close>

locale crypto_laws = crate_laws E for E :: "'z crypto_crates_scheme" +
  assumes length_ed25519_public: "length sk = 32 \<Longrightarrow> length (ed25519_public E sk) = 32"
    and length_ed25519_sign: "length sk = 32 \<Longrightarrow> length (ed25519_sign E sk m) = 64"
    and ed25519_public_ok: "length sk = 32 \<Longrightarrow> ed25519_key_ok E (ed25519_public E sk)"
    and ed25519_correct: "length sk = 32 \<Longrightarrow> ed25519_verify E (ed25519_public E sk) m (ed25519_sign E sk m)"
    and schnorr_public_ok: "schnorr_secret_ok E sk = Ok () \<Longrightarrow> schnorr_key_ok E (schnorr_public E sk)"
    and schnorr_sign_ok: "schnorr_secret_ok E sk = Ok () \<Longrightarrow> schnorr_sig_ok E (schnorr_sign E sk m)"
    and schnorr_correct: "schnorr_secret_ok E sk = Ok () \<Longrightarrow>
          schnorr_verify E (schnorr_public E sk) m (schnorr_sign E sk m)"

text \<open>An instance for the witnesses: the public key is the secret key, and a signature repeats it.\<close>

definition std_crypto :: crypto_crates where
  "std_crypto =
     \<lparr>hex_encode = hex_encode std_crates, hex_decode = hex_decode std_crates,
      put_u8 = put_u8 std_crates, put_u32_le = put_u32_le std_crates, put_u64_le = put_u64_le std_crates,
      put_slice = put_slice std_crates, remaining = remaining std_crates, get_u8 = get_u8 std_crates,
      get_u32_le = get_u32_le std_crates, get_u64_le = get_u64_le std_crates,
      copy_to_slice = copy_to_slice std_crates, copy_to_bytes = copy_to_bytes std_crates, sha256 = sha256 std_crates,
      ed25519_key_ok = (\<lambda>_. True),
      ed25519_verify = (\<lambda>pk m sig. take 32 sig = pk),
      ed25519_public = (\<lambda>sk. sk),
      ed25519_sign = (\<lambda>sk m. sk @ replicate 32 0),
      schnorr_secret_ok = (\<lambda>sk. if length sk = 32 then Ok () else Err ''length''),
      schnorr_key_ok = (\<lambda>pk. length pk = 32),
      schnorr_sig_ok = (\<lambda>sig. length sig = 64),
      schnorr_verify = (\<lambda>pk m sig. take 32 sig = pk),
      schnorr_public = (\<lambda>sk. sk),
      schnorr_sign = (\<lambda>sk m. sk @ replicate 32 1),
      bech32_decode = (\<lambda>_. Err ''checksum''),
      bech32_hrp_ok = (\<lambda>_. Ok ()),
      bech32_encode = (\<lambda>hrp _. Ok hrp)\<rparr>"

interpretation stdc: crypto_laws std_crypto
  by unfold_locales
     (auto simp: std_crypto_def std_crates_def hex_encode_impl_def hex_decode_impl_iff split: if_splits)

section \<open>Lemmas\<close>

lemma abs_diff_le_iff:
  "abs_diff a b \<le> MAX_TIMESTAMP_DRIFT_SECS \<longleftrightarrow> unat a \<le> unat b + 300 \<and> unat b \<le> unat a + 300"
proof -
  have "unat (abs_diff a b) = (if unat a < unat b then unat b - unat a else unat a - unat b)"
    by (simp add: abs_diff_def word_less_nat_alt unat_sub word_le_nat_alt)
  then show ?thesis by (auto simp: word_le_nat_alt MAX_TIMESTAMP_DRIFT_SECS_def)
qed

text \<open>What a header carries, whichever its scheme.\<close>

definition header_sig :: "string \<Rightarrow> (string \<times> u64) option" where
  "header_sig hdr =
     (case split_char (CHR '':'') (drop (length (if starts_with hdr ''WP-Secp256k1 '' then ''WP-Secp256k1 '' else ''WP-Ed25519 '')) hdr) of
        [_, ts, sig] \<Rightarrow> map_option (Pair sig) (parse_u64 ts)
      | _ \<Rightarrow> None)"

lemma verify_any_Ok:
  assumes "verify_any_authorization_header_with_cache E now hdr sdp cache = (Ok a, cache')"
  shows "\<exists>sig ts. header_sig hdr = Some (sig, ts) \<and> abs_diff now ts \<le> MAX_TIMESTAMP_DRIFT_SECS
     \<and> check_and_insert sig ts now cache = (Ok (), cache')"
  using assms
  by (auto simp: verify_any_authorization_header_with_cache_def verify_authorization_header_with_cache_def
      verify_secp256k1_authorization_header_with_cache_def header_sig_def strip_prefix_def Let_def not_less
      split: if_splits option.splits list.splits sum.splits prod.splits)

section \<open>The cache\<close>

definition cache_ok :: "AntiReplayCache \<Rightarrow> bool" where
  "cache_ok cache \<longleftrightarrow> hm_wf (signatures cache) \<and> hm_len (signatures cache) \<le> MAX_ANTI_REPLAY_CACHE_SIZE"

lemma foldl_insert_distinct:
  "distinct (map fst (m @ es)) \<Longrightarrow> foldl (\<lambda>m (s, t). hm_insert s t m) m es = m @ es"
proof (induction es arbitrary: m)
  case (Cons e es)
  obtain s t where e: "e = (s, t)" by (cases e)
  have "s \<notin> fst ` set m" using Cons.prems e by auto
  then have "hm_insert s t m = m @ [(s, t)]" by (induction m) auto
  then show ?case using Cons.IH [of "m @ [(s, t)]"] Cons.prems e by simp
qed simp

definition evicted :: "(string, u64) hmap \<Rightarrow> (string, u64) hmap" where
  "evicted m = (if MAX_ANTI_REPLAY_CACHE_SIZE \<le> hm_len m then drop (MAX_ANTI_REPLAY_CACHE_SIZE div 2) (sort_key snd m) else m)"

lemma evicted_wf: "hm_wf m \<Longrightarrow> hm_wf (evicted m)"
proof -
  assume "hm_wf m"
  then have "distinct (map fst (sort_key snd m))"
    by (metis hm_wf_def mset_map mset_sort mset_eq_imp_distinct_iff)
  then show ?thesis
    using \<open>hm_wf m\<close> by (simp add: evicted_def hm_wf_def distinct_drop flip: drop_map)
qed

lemma check_and_insert_eq:
  assumes "hm_wf (signatures cache)"
    and "live = hm_retain (\<lambda>_ ts. abs_diff now ts \<le> MAX_TIMESTAMP_DRIFT_SECS) (signatures cache)"
  shows "check_and_insert sig ts now cache =
     (if hm_get live sig \<noteq> None then (Err ReplayDetected, cache\<lparr>signatures := live\<rparr>)
      else (Ok (), cache\<lparr>signatures := hm_insert sig ts (evicted live)\<rparr>))"
proof -
  have "hm_wf (evicted live)" using assms by (intro evicted_wf) simp
  then have "MAX_ANTI_REPLAY_CACHE_SIZE \<le> hm_len live \<Longrightarrow>
      foldl (\<lambda>m (sig, ts). hm_insert sig ts m) hm_new (drop (MAX_ANTI_REPLAY_CACHE_SIZE div 2) (sort_key snd live)) = evicted live"
    using foldl_insert_distinct [of "[]" "evicted live"] by (simp add: evicted_def hm_wf_def hm_new_def)
  then show ?thesis
    unfolding check_and_insert_def Let_def assms(2) [symmetric] hm_contains_key_def
    by (auto simp: evicted_def)
qed

lemma hm_len_evicted: "hm_len m \<le> MAX_ANTI_REPLAY_CACHE_SIZE \<Longrightarrow> hm_len (evicted m) < MAX_ANTI_REPLAY_CACHE_SIZE"
  by (simp add: evicted_def hm_len_def MAX_ANTI_REPLAY_CACHE_SIZE_def)

lemma check_and_insert_ok:
  assumes "cache_ok cache"
  shows "cache_ok (snd (check_and_insert sig ts now cache))"
proof -
  define live where "live = hm_retain (\<lambda>_ ts. abs_diff now ts \<le> MAX_TIMESTAMP_DRIFT_SECS) (signatures cache)"
  have w: "hm_wf live" "hm_len live \<le> MAX_ANTI_REPLAY_CACHE_SIZE"
    using assms hm_len_retain_le [of "\<lambda>_ ts. abs_diff now ts \<le> MAX_TIMESTAMP_DRIFT_SECS" "signatures cache"]
    by (auto simp: cache_ok_def live_def)
  have "hm_len (hm_insert sig ts (evicted live)) \<le> MAX_ANTI_REPLAY_CACHE_SIZE"
    using hm_len_evicted [OF w(2)] by (simp add: hm_len_insert)
  then show ?thesis
    using assms w evicted_wf [OF w(1)]
    by (simp add: check_and_insert_eq [OF _ live_def] cache_ok_def)
qed

text \<open>A sequence of verifications of others, and that none of them has to evict.\<close>

primrec cache_run :: "(string \<times> u64 \<times> u64) list \<Rightarrow> AntiReplayCache \<Rightarrow> AntiReplayCache" where
  "cache_run [] cache = cache"
| "cache_run (c # cs) cache = cache_run cs (snd (check_and_insert (fst c) (fst (snd c)) (snd (snd c)) cache))"

primrec never_full :: "(string \<times> u64 \<times> u64) list \<Rightarrow> AntiReplayCache \<Rightarrow> bool" where
  "never_full [] cache = (hm_len (signatures cache) < MAX_ANTI_REPLAY_CACHE_SIZE)"
| "never_full (c # cs) cache =
     (hm_len (signatures cache) < MAX_ANTI_REPLAY_CACHE_SIZE
      \<and> never_full cs (snd (check_and_insert (fst c) (fst (snd c)) (snd (snd c)) cache)))"

lemma entry_survives:
  assumes "cache_ok cache" and "hm_get (signatures cache) s = Some t" and "abs_diff now t \<le> MAX_TIMESTAMP_DRIFT_SECS"
    and "hm_len (signatures cache) < MAX_ANTI_REPLAY_CACHE_SIZE"
  shows "hm_get (signatures (snd (check_and_insert sig ts now cache))) s = Some t"
proof -
  define live where "live = hm_retain (\<lambda>_ ts. abs_diff now ts \<le> MAX_TIMESTAMP_DRIFT_SECS) (signatures cache)"
  have w: "hm_wf (signatures cache)" using assms(1) by (simp add: cache_ok_def)
  have l: "hm_get live s = Some t" using assms w by (simp add: live_def hm_simps)
  have "hm_len live < MAX_ANTI_REPLAY_CACHE_SIZE"
    using assms(4) hm_len_retain_le [of "\<lambda>_ ts. abs_diff now ts \<le> MAX_TIMESTAMP_DRIFT_SECS" "signatures cache"]
    by (simp add: live_def)
  then have "evicted live = live" by (simp add: evicted_def)
  then show ?thesis
    using l by (auto simp: check_and_insert_eq [OF w live_def] hm_simps)
qed

lemma entry_survives_run:
  assumes "cache_ok cache" and "hm_get (signatures cache) s = Some t" and "never_full cs cache"
    and "\<forall>c \<in> set cs. abs_diff (snd (snd c)) t \<le> MAX_TIMESTAMP_DRIFT_SECS"
  shows "hm_get (signatures (cache_run cs cache)) s = Some t \<and> cache_ok (cache_run cs cache)"
  using assms
  by (induction cs arbitrary: cache) (simp_all add: entry_survives check_and_insert_ok)

section \<open>Headers built by a key pair\<close>

definition keypair_ok :: "'z crypto_crates_scheme \<Rightarrow> UserKeypair \<Rightarrow> bool" where
  "keypair_ok E kp = (case kind kp of Ed25519 sk \<Rightarrow> length sk = 32 | Secp256k1 sk \<Rightarrow> schnorr_secret_ok E sk = Ok ())"

lemma hex_digit_not_colon: "d < 16 \<Longrightarrow> hex_digit d \<noteq> CHR '':''"
proof
  assume "d < 16" "hex_digit d = CHR '':''"
  then have "(of_char (hex_digit d) :: nat) = 58" by simp
  with \<open>d < 16\<close> show False by (simp add: of_char_hex_digit split: if_splits)
qed

lemma hex_decode_to_slice_Ok:
  "hex_decode_to_slice E n s = Ok bs \<longleftrightarrow> hex_decode E s = Ok bs \<and> length bs = n"
  by (auto simp: hex_decode_to_slice_def split: sum.splits)

context hex_laws
begin

lemma colon_notin_hex [simp]: "CHR '':'' \<notin> set (hex_encode E bs)"
proof
  assume "CHR '':'' \<in> set (hex_encode E bs)"
  then obtain b where "CHR '':'' \<in> set (hex_pair b)" by (auto simp: hex_encode_pairs)
  then show False
    using hex_digit_not_colon [of "unat b div 16"] hex_digit_not_colon [of "unat b mod 16"] nibbles [of b]
    by (auto simp: hex_pair_def)
qed

text \<open>Hexadecimal spellings that agree up to case are the same signature.\<close>

lemma hex_decode_to_slice_case:
  assumes "map ascii_lower s = map ascii_lower t"
  shows "hex_decode_to_slice E n s = Ok bs \<longleftrightarrow> hex_decode_to_slice E n t = Ok bs"
  unfolding hex_decode_to_slice_Ok hex_decode_case_insensitive [OF assms] ..

end

lemma schnorr_verify_hex_iff:
  "schnorr_verify_hex E addr m s \<longleftrightarrow>
     (\<exists>pk sb. hex_decode E (addr_id addr) = Ok pk \<and> hex_decode E s = Ok sb \<and> schnorr_key_ok E pk
        \<and> schnorr_sig_ok E sb \<and> schnorr_verify E pk m sb)"
  by (auto simp: schnorr_verify_hex_def split: sum.splits if_splits)

lemma verify_iff:
  "verify E addr m s \<longleftrightarrow>
     (length s = 128 \<longrightarrow> ed25519_key_ok E (to_bytes E addr)) \<and>
     ((length s = 128 \<and> (\<exists>sb. hex_decode_to_slice E 64 s = Ok sb \<and> ed25519_verify E (to_bytes E addr) m sb))
      \<or> schnorr_verify_hex E addr m s)"
  by (auto simp: verify_def Let_def split: sum.splits if_splits)

context crypto_laws
begin

lemma verify_case_insensitive:
  assumes "map ascii_lower s = map ascii_lower t"
  shows "verify E addr m s \<longleftrightarrow> verify E addr m t"
proof -
  have "length s = length t" using assms by (metis length_map)
  then show ?thesis
    using hex_decode_case_insensitive [OF assms] hex_decode_to_slice_case [OF assms]
    by (simp add: verify_iff schnorr_verify_hex_iff)
qed

lemma verify_sign_ed25519:
  assumes "length sk = 32"
  shows "verify E (from_bytes E (ed25519_public E sk)) m (hex_encode E (ed25519_sign E sk m))"
  using assms
  by (simp add: verify_iff length_hex_encode length_ed25519_sign to_bytes_from_bytes length_ed25519_public
      ed25519_public_ok hex_decode_to_slice_def hex_decode_encode ed25519_correct)

end

lemma split_header:
  assumes "CHR '':'' \<notin> set pk" and "CHR '':'' \<notin> set sig"
  shows "split_char (CHR '':'') (pk @ '':'' @ show_nat n @ '':'' @ sig) = [pk, show_nat n, sig]"
  using assms split_char_append [of "CHR '':''" pk "show_nat n @ '':'' @ sig"]
    split_char_append [of "CHR '':''" "show_nat n" sig] split_char_single [of "CHR '':''" sig]
  by simp

lemma parse_show_timestamp [simp]: "parse_u64 (show_nat (unat (t :: u64))) = Some t"
  using parse_show_u64 [of "unat t"] unsigned_less [of t, where ?'a = nat] by simp

lemma verify_ed25519_header:
  assumes "CHR '':'' \<notin> set pk" and "CHR '':'' \<notin> set sig"
  shows "verify_authorization_header_with_cache E now (''WP-Ed25519 '' @ pk @ '':'' @ show_nat (unat ts) @ '':'' @ sig) sdp cache =
     (if MAX_TIMESTAMP_DRIFT_SECS < abs_diff now ts
      then (Err (TimestampDrift (abs_diff now ts) MAX_TIMESTAMP_DRIFT_SECS), cache)
      else if \<not> verify E (UserAddress_new pk) (auth_payload ts sdp) sig then (Err InvalidEd25519Signature, cache)
      else (case check_and_insert sig ts now cache of
              (Inl e, cache) \<Rightarrow> (Err e, cache) | (Inr _, cache) \<Rightarrow> (Ok (UserAddress_new pk), cache)))"
  unfolding verify_authorization_header_with_cache_def strip_prefix_append option.case
  unfolding split_header [OF assms] list.case parse_show_timestamp option.case Let_def ..

lemma check_fresh_signature:
  assumes "cache_ok cache" and "hm_get (signatures cache) sig = None"
  shows "fst (check_and_insert sig ts now cache) = Ok ()"
proof -
  have "hm_wf (signatures cache)" using assms(1) by (simp add: cache_ok_def)
  then show ?thesis
    using assms(2) by (simp add: check_and_insert_eq [OF _ refl] hm_get_retain_None)
qed

lemma verify_secp256k1_header:
  assumes "CHR '':'' \<notin> set pk" and "CHR '':'' \<notin> set sig" and "abs_diff now ts \<le> MAX_TIMESTAMP_DRIFT_SECS"
    and "schnorr_verify_hex E (UserAddress_new pk) (auth_payload ts sdp) sig"
  shows "verify_secp256k1_authorization_header_with_cache E now (''WP-Secp256k1 '' @ pk @ '':'' @ show_nat (unat ts) @ '':'' @ sig) sdp cache =
     (case check_and_insert sig ts now cache of
        (Inl e, cache) \<Rightarrow> (Err e, cache) | (Inr _, cache) \<Rightarrow> (Ok (UserAddress_new pk), cache))"
  unfolding verify_secp256k1_authorization_header_with_cache_def strip_prefix_append option.case
  unfolding split_header [OF assms(1,2)] list.case parse_show_timestamp option.case Let_def
  using assms(3,4) by (auto simp: schnorr_verify_hex_iff UserAddress_new_def not_less)

lemma addr_id_new [simp]: "addr_id (UserAddress_new s) = s"
  by (simp add: UserAddress_new_def)

lemma fst_after_check:
  "fst (check_and_insert sig ts now cache) = Ok () \<Longrightarrow>
   fst (case check_and_insert sig ts now cache of
          (Inl e, cache) \<Rightarrow> (Err e, cache) | (Inr _, cache) \<Rightarrow> (Ok a, cache)) = Ok a"
  by (auto split: prod.splits sum.splits)

context crypto_laws
begin

lemma ed25519_header_accepted:
  assumes "length sk = 32" and "cache_ok cache" and "abs_diff now ts \<le> MAX_TIMESTAMP_DRIFT_SECS"
    and "sig = hex_encode E (ed25519_sign E sk (auth_payload ts sdp))" and "hm_get (signatures cache) sig = None"
  shows "fst (verify_any_authorization_header_with_cache E now
      (''WP-Ed25519 '' @ addr_id (from_bytes E (ed25519_public E sk)) @ '':'' @ show_nat (unat ts) @ '':'' @ sig) sdp cache)
      = Ok (from_bytes E (ed25519_public E sk))"
proof -
  define pk where "pk = addr_id (from_bytes E (ed25519_public E sk))"
  have pk: "UserAddress_new pk = from_bytes E (ed25519_public E sk)" by (simp add: pk_def UserAddress_new_def)
  have nc: "CHR '':'' \<notin> set pk" "CHR '':'' \<notin> set sig"
    by (simp_all add: pk_def assms(4) from_bytes_def)
  have "\<not> starts_with (''WP-Ed25519 '' @ r) ''WP-Secp256k1 ''" for r by (simp add: starts_with_def)
  then show ?thesis
    unfolding verify_any_authorization_header_with_cache_def pk_def [symmetric]
    using assms(3) verify_sign_ed25519 [OF assms(1), of "auth_payload ts sdp", folded assms(4)]
      fst_after_check [OF check_fresh_signature [OF assms(2,5)]]
    by (simp add: verify_ed25519_header [OF nc] pk [symmetric] not_less del: append_Cons append.simps)
qed

lemma secp256k1_header_accepted:
  assumes "schnorr_secret_ok E sk = Ok ()" and "cache_ok cache" and "abs_diff now ts \<le> MAX_TIMESTAMP_DRIFT_SECS"
    and "sig = hex_encode E (schnorr_sign E sk (auth_payload ts sdp))" and "hm_get (signatures cache) sig = None"
  shows "fst (verify_any_authorization_header_with_cache E now
      (''WP-Secp256k1 '' @ hex_encode E (schnorr_public E sk) @ '':'' @ show_nat (unat ts) @ '':'' @ sig) sdp cache)
      = Ok (UserAddress_new (hex_encode E (schnorr_public E sk)))"
proof -
  have nc: "CHR '':'' \<notin> set (hex_encode E (schnorr_public E sk))" "CHR '':'' \<notin> set sig"
    by (simp_all add: assms(4))
  have "schnorr_verify_hex E (UserAddress_new (hex_encode E (schnorr_public E sk))) (auth_payload ts sdp) sig"
    using assms(1) by (simp add: schnorr_verify_hex_iff UserAddress_new_def hex_decode_encode assms(4)
        schnorr_public_ok schnorr_sign_ok schnorr_correct)
  from verify_secp256k1_header [OF nc assms(3) this]
  show ?thesis
    unfolding verify_any_authorization_header_with_cache_def
    using fst_after_check [OF check_fresh_signature [OF assms(2,5)]]
    by (simp del: append_Cons append.simps)
qed

end

lemma abs_diff_between:
  assumes "now \<le> t" and "t \<le> later" and "abs_diff now ts \<le> MAX_TIMESTAMP_DRIFT_SECS"
    and "abs_diff later ts \<le> MAX_TIMESTAMP_DRIFT_SECS"
  shows "abs_diff t ts \<le> MAX_TIMESTAMP_DRIFT_SECS"
  using assms(1,2) [unfolded word_le_nat_alt] assms(3,4) unfolding abs_diff_le_iff by linarith

lemma check_and_insert_stores:
  assumes "cache_ok cache" and "check_and_insert sig ts now cache = (Ok (), cache')"
  shows "hm_get (signatures cache') sig = Some ts"
  using assms by (auto simp: cache_ok_def check_and_insert_eq [OF _ refl] hm_simps split: if_splits)

lemma check_and_insert_replay:
  assumes "cache_ok cache" and "hm_get (signatures cache) sig = Some t" and "abs_diff now t \<le> MAX_TIMESTAMP_DRIFT_SECS"
  shows "fst (check_and_insert sig ts now cache) = Err ReplayDetected"
  using assms by (simp add: cache_ok_def check_and_insert_eq [OF _ refl] hm_simps)

lemma verify_any_cache:
  "\<exists>sig ts. snd (verify_any_authorization_header_with_cache E now hdr sdp cache) \<in> {cache, snd (check_and_insert sig ts now cache)}"
proof -
  have 1: "\<exists>sig ts. snd (verify_authorization_header_with_cache E now hdr sdp cache) \<in> {cache, snd (check_and_insert sig ts now cache)}"
    unfolding verify_authorization_header_with_cache_def Let_def
    by (auto split: option.splits list.splits sum.splits prod.splits) (metis snd_conv)+
  have 2: "\<exists>sig ts. snd (verify_secp256k1_authorization_header_with_cache E now hdr sdp cache) \<in> {cache, snd (check_and_insert sig ts now cache)}"
    unfolding verify_secp256k1_authorization_header_with_cache_def Let_def
    by (auto split: option.splits list.splits sum.splits prod.splits) (metis snd_conv)+
  show ?thesis using 1 2 by (simp add: verify_any_authorization_header_with_cache_def)
qed

section \<open>Properties\<close>

text \<open>C4: a header that has been accepted is not accepted again. Whatever other verifications happen
  in between at later times, as long as the cache does not fill up, the second verification of
  the same header fails, for every offer it is presented with.\<close>

theorem replay_rejected:
  assumes "cache_ok cache"
    and "verify_any_authorization_header_with_cache E now hdr sdp cache = (Ok a, cache1)"
    and "never_full others cache1" and "\<forall>c \<in> set others. now \<le> snd (snd c) \<and> snd (snd c) \<le> later" and "now \<le> later"
  shows "\<exists>e. fst (verify_any_authorization_header_with_cache E later hdr sdp2 (cache_run others cache1)) = Err e"
proof (rule ccontr)
  assume "\<not> ?thesis"
  then obtain b cache2 where again: "verify_any_authorization_header_with_cache E later hdr sdp2 (cache_run others cache1) = (Ok b, cache2)"
    by (metis prod.collapse sum.exhaust)
  obtain sig ts where h: "header_sig hdr = Some (sig, ts)" and d: "abs_diff now ts \<le> MAX_TIMESTAMP_DRIFT_SECS"
    and c: "check_and_insert sig ts now cache = (Ok (), cache1)"
    using verify_any_Ok [OF assms(2)] by blast
  have d2: "abs_diff later ts \<le> MAX_TIMESTAMP_DRIFT_SECS"
    and c2: "check_and_insert sig ts later (cache_run others cache1) = (Ok (), cache2)"
    using verify_any_Ok [OF again] h by auto
  have "cache_ok cache1" using check_and_insert_ok [OF assms(1), of sig ts now] c by simp
  moreover have "\<forall>c \<in> set others. abs_diff (snd (snd c)) ts \<le> MAX_TIMESTAMP_DRIFT_SECS"
    using assms(4) abs_diff_between [OF _ _ d d2] by blast
  ultimately have "hm_get (signatures (cache_run others cache1)) sig = Some ts \<and> cache_ok (cache_run others cache1)"
    using entry_survives_run check_and_insert_stores [OF assms(1) c] assms(3) by blast
  then show False using check_and_insert_replay [of "cache_run others cache1" sig ts later ts] d2 c2 by simp
qed

lemma cache_ok_new: "cache_ok AntiReplayCache_new"
  by (simp add: cache_ok_def AntiReplayCache_new_def hm_new_def hm_wf_def hm_len_def)

text \<open>The key pair, header parts and first verification of the examples.\<close>

definition pk_example :: string where "pk_example = concat (replicate 32 ''ab'')"
definition sig_example :: string where "sig_example = concat (replicate 32 ''ab'') @ replicate 64 (CHR ''0'')"
definition sig_upper_example :: string where "sig_upper_example = concat (replicate 32 ''AB'') @ replicate 64 (CHR ''0'')"

definition hdr_example :: "string \<Rightarrow> string" where
  "hdr_example sig = ''WP-Ed25519 '' @ pk_example @ '':'' @ show_nat (unat (1000 :: u64)) @ '':'' @ sig"

definition cache_example :: AntiReplayCache where
  "cache_example = \<lparr>signatures = [(sig_example, 1000)]\<rparr>"

lemma examples_eq:
  "hex_encode std_crypto (replicate 32 0xAB) = pk_example"
  "hex_encode std_crypto (replicate 32 0xAB @ replicate 32 0) = sig_example"
  "map ascii_lower sig_upper_example = map ascii_lower sig_example"
  "CHR '':'' \<notin> set pk_example" "CHR '':'' \<notin> set sig_example" "CHR '':'' \<notin> set sig_upper_example"
  "sig_upper_example \<noteq> sig_example"
proof -
  have p: "hex_pair 0xAB = ''ab''" by code_simp
  have l: "ascii_lower (CHR ''A'') = CHR ''a''" "ascii_lower (CHR ''B'') = CHR ''b''"
    "ascii_lower (CHR ''a'') = CHR ''a''" "ascii_lower (CHR ''b'') = CHR ''b''"
    by (code_simp, code_simp, code_simp, code_simp)
  show pk: "hex_encode std_crypto (replicate 32 0xAB) = pk_example"
    by (simp only: stdc.hex_encode_pairs map_replicate p pk_example_def)
  show "hex_encode std_crypto (replicate 32 0xAB @ replicate 32 0) = sig_example"
    unfolding stdc.hex_encode_append pk stdc.hex_encode_zeros by (simp add: pk_example_def sig_example_def)
  show "map ascii_lower sig_upper_example = map ascii_lower sig_example"
    by (simp add: sig_upper_example_def sig_example_def l map_concat)
  show "CHR '':'' \<notin> set pk_example" "CHR '':'' \<notin> set sig_example" "CHR '':'' \<notin> set sig_upper_example"
    by (simp_all add: pk_example_def sig_example_def sig_upper_example_def)
  have "CHR ''A'' \<in> set sig_upper_example" "CHR ''A'' \<notin> set sig_example"
    by (simp_all add: sig_example_def sig_upper_example_def)
  then show "sig_upper_example \<noteq> sig_example" by metis
qed

lemma check_example: "check_and_insert sig_example 1000 1005 AntiReplayCache_new = (Ok (), cache_example)"
  by (simp add: check_and_insert_def AntiReplayCache_new_def cache_example_def hm_new_def hm_retain_def
      hm_contains_key_def hm_get_def hm_len_def MAX_ANTI_REPLAY_CACHE_SIZE_def)

lemma verify_example: "verify std_crypto (UserAddress_new pk_example) m sig_example"
  using stdc.verify_sign_ed25519 [of "replicate 32 0xAB" m]
  by (simp add: from_bytes_def examples_eq(1,2) [symmetric] UserAddress_new_def)
     (simp add: std_crypto_def)

lemma first_verification:
  "verify_authorization_header_with_cache std_crypto 1005 (hdr_example sig_example) sdp AntiReplayCache_new
     = (Ok (UserAddress_new pk_example), cache_example)"
  unfolding hdr_example_def verify_ed25519_header [OF examples_eq(4,5)]
  by (simp add: verify_example check_example abs_diff_def MAX_TIMESTAMP_DRIFT_SECS_def)

lemma first_verification_any:
  "verify_any_authorization_header_with_cache std_crypto 1005 (hdr_example sig_example) sdp AntiReplayCache_new
     = (Ok (UserAddress_new pk_example), cache_example)"
proof -
  have "\<not> starts_with (hdr_example sig_example) ''WP-Secp256k1 ''"
    by (simp add: hdr_example_def starts_with_def)
  then show ?thesis
    using first_verification by (simp add: verify_any_authorization_header_with_cache_def)
qed

theorem replay_rejected_witness:
  "\<exists>e. fst (verify_any_authorization_header_with_cache std_crypto 1010 (hdr_example sig_example) ''other offer'' cache_example) = Err e"
  using replay_rejected [OF cache_ok_new first_verification_any, of "[]" 1010]
  by (simp add: cache_example_def hm_len_def MAX_ANTI_REPLAY_CACHE_SIZE_def)

text \<open>verification keeps the anti-replay cache well-formed and within 10000 entries, whatever the
  header.\<close>

theorem replay_cache_bounded:
  assumes "cache_ok cache"
  shows "cache_ok (snd (verify_any_authorization_header_with_cache E now hdr sdp cache))"
proof -
  obtain sig ts where "snd (verify_any_authorization_header_with_cache E now hdr sdp cache) \<in> {cache, snd (check_and_insert sig ts now cache)}"
    using verify_any_cache by blast
  then show ?thesis using assms check_and_insert_ok [OF assms, of sig ts now] by (elim insertE) simp_all
qed

theorem replay_cache_bounded_witness:
  "cache_ok (snd (verify_any_authorization_header_with_cache std_crypto 1000 ''WP-Ed25519 00:1000:00'' ''v=0'' AntiReplayCache_new))"
  by (rule replay_cache_bounded [OF cache_ok_new])

lemma built_header_accepted:
  assumes "crypto_laws E" and "keypair_ok E kp" and "cache_ok cache"
    and "abs_diff now ts \<le> MAX_TIMESTAMP_DRIFT_SECS"
    and "hm_get (signatures cache) (sign E kp (auth_payload ts sdp)) = None"
  shows "fst (verify_any_authorization_header_with_cache E now (snd (build_authorization_header E ts kp sdp)) sdp cache)
           = Ok (public_key_address E kp)"
proof (cases "kind kp")
  case (Ed25519 sk)
  then show ?thesis
    using crypto_laws.ed25519_header_accepted [OF assms(1) _ assms(3,4)] assms(2,5)
    by (simp add: keypair_ok_def public_key_address_def sign_def build_authorization_header_def is_secp256k1_def Let_def)
next
  case (Secp256k1 sk)
  then show ?thesis
    using crypto_laws.secp256k1_header_accepted [OF assms(1) _ assms(3,4)] assms(2,5)
    by (simp add: keypair_ok_def public_key_address_def sign_def build_authorization_header_def is_secp256k1_def Let_def)
qed

text \<open>the header a key pair builds is accepted within 300 seconds, for Ed25519 and secp256k1 keys
  alike, and yields the key pair's own address, unless its signature is already in the cache.\<close>

theorem auth_header_roundtrip:
  assumes "crypto_laws E" and "keypair_ok E kp" and "cache_ok cache"
    and "abs_diff now ts \<le> MAX_TIMESTAMP_DRIFT_SECS"
    and "hm_get (signatures cache) (sign E kp (auth_payload ts sdp)) = None"
  shows "fst (verify_any_authorization_header_with_cache E now (snd (build_authorization_header E ts kp sdp)) sdp cache)
           = Ok (public_key_address E kp)"
  by (rule built_header_accepted [OF assms])

theorem auth_header_roundtrip_witness:
  "fst (verify_any_authorization_header_with_cache std_crypto 1010
      (snd (build_authorization_header std_crypto 1000 (keypair_from_bytes (replicate 32 7)) ''v=0'')) ''v=0'' AntiReplayCache_new)
   = Ok (public_key_address std_crypto (keypair_from_bytes (replicate 32 7)))"
  by (rule auth_header_roundtrip [OF stdc.crypto_laws_axioms _ cache_ok_new])
     (simp_all add: keypair_ok_def keypair_from_bytes_def abs_diff_def MAX_TIMESTAMP_DRIFT_SECS_def AntiReplayCache_new_def hm_simps)

text \<open>C22: an accepted header has a timestamp within 300 seconds of the clock and a signature over the
  timestamp and the offer that verifies under the address it yields.\<close>

theorem auth_success_sound:
  assumes "verify_any_authorization_header_with_cache E now hdr sdp cache = (Ok a, cache')"
  shows "\<exists>sig ts. header_sig hdr = Some (sig, ts) \<and> unat now \<le> unat ts + 300 \<and> unat ts \<le> unat now + 300 \<and>
           (verify E a (auth_payload ts sdp) sig \<or> schnorr_verify_hex E a (auth_payload ts sdp) sig)"
  using assms
  by (auto simp: verify_any_authorization_header_with_cache_def verify_authorization_header_with_cache_def
      verify_secp256k1_authorization_header_with_cache_def header_sig_def strip_prefix_def Let_def not_less
      schnorr_verify_hex_iff UserAddress_new_def abs_diff_le_iff
      split: if_splits option.splits list.splits sum.splits prod.splits)

theorem auth_success_sound_witness:
  "\<exists>sig ts. header_sig (hdr_example sig_example) = Some (sig, ts) \<and> unat ts \<le> unat (1005 :: u64) + 300"
  using auth_success_sound [OF first_verification_any, of "''v=0''"] by blast

text \<open>the replay check compares signatures as strings while verification reads them as hexadecimal,
  so an accepted Ed25519 header is accepted a second time with its signature in upper case.\<close>

theorem signature_case_replay:
  fixes ts :: u64
  assumes "crypto_laws E" and "cache_ok cache" and "CHR '':'' \<notin> set pk" and "CHR '':'' \<notin> set sig" and "CHR '':'' \<notin> set sig2"
    and "map ascii_lower sig2 = map ascii_lower sig"
    and "verify_authorization_header_with_cache E now (''WP-Ed25519 '' @ pk @ '':'' @ show_nat (unat ts) @ '':'' @ sig) sdp cache = (Ok a, cache1)"
    and "hm_get (signatures cache1) sig2 = None"
  shows "fst (verify_authorization_header_with_cache E now (''WP-Ed25519 '' @ pk @ '':'' @ show_nat (unat ts) @ '':'' @ sig2) sdp cache1) = Ok a"
proof -
  note first = assms(7) [unfolded verify_ed25519_header [OF assms(3,4)]]
  have "\<not> MAX_TIMESTAMP_DRIFT_SECS < abs_diff now ts" and v: "verify E (UserAddress_new pk) (auth_payload ts sdp) sig"
    and a: "a = UserAddress_new pk" and c: "cache1 = snd (check_and_insert sig ts now cache)"
    using first by (auto split: if_splits sum.splits prod.splits)
  moreover have "verify E (UserAddress_new pk) (auth_payload ts sdp) sig2"
    using v crypto_laws.verify_case_insensitive [OF assms(1,6)] by simp
  moreover have "fst (check_and_insert sig2 ts now cache1) = Ok ()"
    using check_and_insert_ok [OF assms(2)] assms(8) unfolding c by (intro check_fresh_signature) auto
  ultimately show ?thesis
    unfolding verify_ed25519_header [OF assms(3,5)] by (auto split: prod.splits sum.splits)
qed

theorem signature_case_replay_witness:
  "fst (verify_authorization_header_with_cache std_crypto 1005 (hdr_example sig_upper_example) ''v=0'' cache_example)
     = Ok (UserAddress_new pk_example)"
  unfolding hdr_example_def
  by (rule signature_case_replay [OF stdc.crypto_laws_axioms cache_ok_new examples_eq(4,5,6,3) first_verification [unfolded hdr_example_def]])
     (simp add: cache_example_def hm_get_def examples_eq(7))

end
