(* ===== verification/WP_Signaling.thy ===== *)
theory WP_Signaling
  imports WP_Daemon WP_Auth
begin

text \<open>
  Signaling over HTTP and the life of a client connection
  (\<^verbatim>\<open>crates/wpdaemon/src/config.rs\<close>, \<^verbatim>\<open>error.rs\<close>, \<^verbatim>\<open>handlers/address.rs\<close>,
  \<^verbatim>\<open>connection/handshake.rs\<close>). What the \<^verbatim>\<open>webrtc\<close> crate answers during a negotiation is an
  argument of the handler (\<open>rtc_session\<close>). The interleaving of these handlers in a running
  daemon is the subject of the theory \<open>WP_Node\<close>.
\<close>

section \<open>Configuration and errors\<close>

type_synonym SocketAddr = "IpAddr \<times> u16"

record ServerConfig =
  bind_address :: SocketAddr
  max_connections :: nat
  max_room_members :: nat
  allow_anonymous :: bool

definition default_bind_address :: SocketAddr where
  "default_bind_address = (V4 127 0 0 1, 15000)"

definition default_max_connections :: nat where "default_max_connections = 1000"
definition default_max_room_members :: nat where "default_max_room_members = 50"

definition ServerConfig_default :: ServerConfig where
  "ServerConfig_default =
     \<lparr>bind_address = default_bind_address, max_connections = default_max_connections,
      max_room_members = default_max_room_members, allow_anonymous = False\<rparr>"

record TlsConfig =
  tls_cert :: "string option"
  tls_key :: "string option"

record NetworkConfig =
  ice_servers :: "string list"

definition default_ice_servers :: "string list" where
  "default_ice_servers = [''stun:stun.l.google.com:19302'']"

definition NetworkConfig_default :: NetworkConfig where
  "NetworkConfig_default = \<lparr>ice_servers = default_ice_servers\<rparr>"

record MeshConfig =
  peers :: "string list"
  node_id :: u64
  max_mesh_peers :: nat
  peer_secret :: "string option"

definition default_max_mesh_peers :: nat where "default_max_mesh_peers = 16"

text \<open>\<^verbatim>\<open>generate_node_id\<close>: the wall clock in nanoseconds, the process id and the counter are
  arguments; the new counter is returned.\<close>

definition generate_node_id :: "'z wp_crates_scheme \<Rightarrow> nat \<Rightarrow> u32 \<Rightarrow> u64 \<Rightarrow> u64 \<times> u64" where
  "generate_node_id E nanos pid cnt =
     (let hash = sha256 E (as_bytes (show_nat nanos @ ''-'' @ show_nat (unat pid) @ ''-'' @ show_nat (unat cnt)))
      in (u64_from_le_bytes (take 8 hash), cnt + 1))"

definition MeshConfig_default :: "u64 \<Rightarrow> MeshConfig" where
  "MeshConfig_default generated_node_id =
     \<lparr>peers = [], node_id = generated_node_id, max_mesh_peers = default_max_mesh_peers, peer_secret = None\<rparr>"

record Configuration =
  server :: ServerConfig
  tls :: TlsConfig
  network :: NetworkConfig
  mesh :: MeshConfig

datatype SignalingError =
    MaxConnectionsReached nat
  | MaxMeshPeersReached nat
  | Unauthorized AuthError
  | InvalidSdpOffer string
  | InternalError string
  | AddressAmbiguous
  | AddrNotFound string
  | RateLimitExceeded

fun status_code :: "SignalingError \<Rightarrow> nat" where
  "status_code (MaxConnectionsReached _) = 503"
| "status_code (MaxMeshPeersReached _) = 503"
| "status_code (Unauthorized _) = 401"
| "status_code (InvalidSdpOffer _) = 400"
| "status_code AddressAmbiguous = 409"
| "status_code (AddrNotFound _) = 404"
| "status_code (InternalError _) = 500"
| "status_code RateLimitExceeded = 429"

section \<open>Signaling state\<close>

record signaling =
  sg_daemon :: daemon
  sg_client_count :: u64
  sg_cache :: AntiReplayCache

text \<open>A header map: for a lower-case name the value \<^verbatim>\<open>get\<close> finds, as the result of its \<^verbatim>\<open>to_str\<close>
  (\<open>None\<close> when the value is not visible ASCII).\<close>

type_synonym HeaderMap = "string \<Rightarrow> string option option"

definition auth_header :: "HeaderMap \<Rightarrow> string \<Rightarrow> string option" where
  "auth_header headers fallback =
     (case (case headers ''authorization'' of Some v \<Rightarrow> Some v | None \<Rightarrow> headers fallback) of
        Some v \<Rightarrow> v
      | None \<Rightarrow> None)"

text \<open>\<^verbatim>\<open>duration_since(UNIX_EPOCH).as_secs()\<close> of the wall-clock reading.\<close>

definition unix_secs :: "readings \<Rightarrow> u64" where
  "unix_secs rd = of_nat (wall_nanos rd div 1000000000)"

record RTCSessionDescription =
  sd_type :: string
  sd_sdp :: string

section \<open>Address queries\<close>

definition check_address_request_authorization ::
    "'z crypto_crates_scheme \<Rightarrow> Configuration \<Rightarrow> readings \<Rightarrow> HeaderMap \<Rightarrow> AntiReplayCache \<Rightarrow>
     (unit, SignalingError) result \<times> AntiReplayCache" where
  "check_address_request_authorization E daemon_config rd headers cache =
     (case auth_header headers ''x-webphone-sign'' of
        Some auth_val \<Rightarrow>
          (case verify_any_authorization_header E (unix_secs rd) auth_val '''' cache of
             (Inr _, cache) \<Rightarrow> (Ok (), cache)
           | (Inl e, cache) \<Rightarrow> (Err (Unauthorized e), cache))
      | None \<Rightarrow>
          if allow_anonymous (server daemon_config) then (Ok (), cache)
          else (Err (Unauthorized MissingHeader), cache))"

definition list_registered_addresses ::
    "'z crypto_crates_scheme \<Rightarrow> Configuration \<Rightarrow> readings \<Rightarrow> HeaderMap \<Rightarrow> 'y signaling_scheme \<Rightarrow>
     (UserAddress list, SignalingError) result \<times> 'y signaling_scheme" where
  "list_registered_addresses E cfg rd headers s =
     (case check_address_request_authorization E cfg rd headers (sg_cache s) of
        (Inl e, cache) \<Rightarrow> (Err e, s\<lparr>sg_cache := cache\<rparr>)
      | (Inr _, cache) \<Rightarrow> (Ok (conn_get_registered_addresses (sg_daemon s)), s\<lparr>sg_cache := cache\<rparr>))"

definition resolve_registered_address ::
    "'z crypto_crates_scheme \<Rightarrow> Configuration \<Rightarrow> readings \<Rightarrow> HeaderMap \<Rightarrow> string \<Rightarrow> 'y signaling_scheme \<Rightarrow>
     (UserAddress, SignalingError) result \<times> 'y signaling_scheme" where
  "resolve_registered_address E cfg rd headers key s =
     (case check_address_request_authorization E cfg rd headers (sg_cache s) of
        (Inl e, cache) \<Rightarrow> (Err e, s\<lparr>sg_cache := cache\<rparr>)
      | (Inr _, cache) \<Rightarrow>
          (case conn_find_client_by_address (sg_daemon s) (UserAddress_new key) of
             Found cid \<Rightarrow>
               (case get_client_address (sg_daemon s) cid of
                  Some addr \<Rightarrow> Ok addr
                | None \<Rightarrow> Err (AddrNotFound ''Client address not found''))
           | Ambiguous \<Rightarrow> Err AddressAmbiguous
           | NotFound \<Rightarrow> Err (AddrNotFound ''Address prefix not found''),
           s\<lparr>sg_cache := cache\<rparr>))"

section \<open>The SDP handshake\<close>

record ClientConnectionHandler =
  h_client_id :: client_id
  h_user_address :: UserAddress
  h_my_node_id :: u64

record SdpAnswerResponse =
  answer_type :: string
  answer_sdp :: string
  answer_ice_servers :: "string list option"

text \<open>What the \<^verbatim>\<open>webrtc\<close> crate returns for the calls of one negotiation.\<close>

record rtc_session =
  rtc_build :: "string list \<Rightarrow> (pc_handle, string) result"
  rtc_set_remote :: "RTCSessionDescription \<Rightarrow> (unit, string) result"
  rtc_create_answer :: "(RTCSessionDescription, string) result"
  rtc_set_local :: "RTCSessionDescription \<Rightarrow> (unit, string) result"
  rtc_local_description :: "RTCSessionDescription option"

text \<open>Identity of the offer: the verified address, or a generated one where anonymous clients
  are allowed.\<close>

definition authenticate_offer ::
    "'z crypto_crates_scheme \<Rightarrow> Configuration \<Rightarrow> readings \<Rightarrow> HeaderMap \<Rightarrow> RTCSessionDescription \<Rightarrow> AntiReplayCache \<Rightarrow>
     (UserAddress, SignalingError) result \<times> AntiReplayCache" where
  "authenticate_offer E daemon_config rd headers offer cache =
     (case auth_header headers ''x-webphone-sign'' of
        Some auth_val \<Rightarrow>
          (case verify_any_authorization_header E (unix_secs rd) auth_val (sd_sdp offer) cache of
             (Inr addr, cache) \<Rightarrow> (Ok addr, cache)
           | (Inl err, cache) \<Rightarrow> (Err (Unauthorized err), cache))
      | None \<Rightarrow>
          if allow_anonymous (server daemon_config)
          then (Ok (fst (generate_from_time E (wall_nanos rd) (time_counter rd))), cache)
          else (Err (Unauthorized MissingHeader), cache))"

text \<open>Up to the new client id: authentication, connection limit, \<^verbatim>\<open>CLIENT_COUNT.fetch_add\<close>.\<close>

definition admit_offer ::
    "'z crypto_crates_scheme \<Rightarrow> Configuration \<Rightarrow> readings \<Rightarrow> HeaderMap \<Rightarrow> RTCSessionDescription \<Rightarrow> 'y signaling_scheme \<Rightarrow>
     (ClientConnectionHandler, SignalingError) result \<times> 'y signaling_scheme" where
  "admit_offer E daemon_config rd headers offer s =
     (case authenticate_offer E daemon_config rd headers offer (sg_cache s) of
        (Inl e, cache) \<Rightarrow> (Err e, s\<lparr>sg_cache := cache\<rparr>)
      | (Inr user_address, cache) \<Rightarrow>
          (let s = s\<lparr>sg_cache := cache\<rparr>;
               active_connections = hm_len (peer_connections (client_registry (sg_daemon s)))
           in if max_connections (server daemon_config) \<le> active_connections
              then (Err (MaxConnectionsReached (max_connections (server daemon_config))), s)
              else (Ok \<lparr>h_client_id = sg_client_count s, h_user_address = user_address,
                        h_my_node_id = node_id (mesh daemon_config)\<rparr>,
                    s\<lparr>sg_client_count := sg_client_count s + 1\<rparr>)))"

definition with_register :: "nat \<Rightarrow> ClientConnectionHandler \<Rightarrow> pc_handle \<Rightarrow> daemon \<Rightarrow> daemon" where
  "with_register now h pc d =
     (let (reg, dl) = register_client now (h_client_id h) (h_user_address h) pc (client_registry d, dc_limiter d)
      in d\<lparr>client_registry := reg, dc_limiter := dl\<rparr>)"

definition register_offer ::
    "Configuration \<Rightarrow> readings \<Rightarrow> rtc_session \<Rightarrow> ClientConnectionHandler \<Rightarrow> 'y signaling_scheme \<Rightarrow>
     (pc_handle, SignalingError) result \<times> 'y signaling_scheme" where
  "register_offer daemon_config rd rtc h s =
     (case rtc_build rtc (ice_servers (network daemon_config)) of
        Inl e \<Rightarrow> (Err (InternalError (''Failed to build PeerConnection: '' @ e)), s)
      | Inr pc \<Rightarrow> (Ok pc, s\<lparr>sg_daemon := with_register (instant_now rd) h pc (sg_daemon s)\<rparr>))"

definition negotiate_answer :: "rtc_session \<Rightarrow> RTCSessionDescription \<Rightarrow> (SdpAnswerResponse, SignalingError) result" where
  "negotiate_answer rtc offer =
     (case rtc_set_remote rtc offer of
        Inl e \<Rightarrow> Err (InvalidSdpOffer e)
      | Inr _ \<Rightarrow>
     (case rtc_create_answer rtc of
        Inl e \<Rightarrow> Err (InternalError (''Failed to create SDP answer: '' @ e))
      | Inr answer \<Rightarrow>
     (case rtc_set_local rtc answer of
        Inl e \<Rightarrow> Err (InternalError (''Failed to set local description: '' @ e))
      | Inr _ \<Rightarrow>
     (case rtc_local_description rtc of
        None \<Rightarrow> Err (InternalError ''No local description available'')
      | Some local_desc \<Rightarrow>
          Ok \<lparr>answer_type = sd_type local_desc, answer_sdp = sd_sdp local_desc, answer_ice_servers = None\<rparr>))))"

definition handle_sdp_offer ::
    "'z crypto_crates_scheme \<Rightarrow> Configuration \<Rightarrow> readings \<Rightarrow> rtc_session \<Rightarrow> HeaderMap \<Rightarrow> RTCSessionDescription \<Rightarrow>
     'y signaling_scheme \<Rightarrow> (SdpAnswerResponse, SignalingError) result \<times> 'y signaling_scheme" where
  "handle_sdp_offer E cfg rd rtc headers offer s =
     (case admit_offer E cfg rd headers offer s of
        (Inl e, s) \<Rightarrow> (Err e, s)
      | (Inr h, s) \<Rightarrow>
          (case register_offer cfg rd rtc h s of
             (Inl e, s) \<Rightarrow> (Err e, s)
           | (Inr pc, s) \<Rightarrow> (negotiate_answer rtc offer, s)))"

text \<open>The task that wakes up \<^verbatim>\<open>HANDSHAKE_TIMEOUT\<close> (15 s) after the registration.\<close>

definition handshake_timeout :: "client_id \<Rightarrow> pc_handle \<Rightarrow> daemon \<Rightarrow> effect list \<times> daemon" where
  "handshake_timeout client_id pc d =
     (if \<not> hm_contains_key (data_channels (client_registry d)) client_id
      then ([PcClose pc], with_unregister client_id d)
      else ([], d))"

datatype RTCPeerConnectionState = PcNew | PcConnecting | PcConnected | PcDisconnected | PcFailed | PcClosed

definition on_connection_state_change ::
    "ClientConnectionHandler \<Rightarrow> RTCPeerConnectionState \<Rightarrow> daemon \<Rightarrow> daemon" where
  "on_connection_state_change h state d =
     (if state = PcFailed \<or> state = PcClosed \<or> state = PcDisconnected
      then with_unregister (h_client_id h) d
      else d)"

text \<open>A new data channel: its handle is recorded and its event loop starts.\<close>

definition on_data_channel :: "ClientConnectionHandler \<Rightarrow> dc_handle \<Rightarrow> daemon \<Rightarrow> client_conn \<times> daemon" where
  "on_data_channel h dc d =
     (\<lparr>cc_dc = dc, cc_client_id = h_client_id h, cc_user_address = h_user_address h, cc_node_id = h_my_node_id h\<rparr>,
      d\<lparr>client_registry := (client_registry d)\<lparr>data_channels :=
          hm_insert (h_client_id h) dc (data_channels (client_registry d))\<rparr>\<rparr>)"

section \<open>Lemmas\<close>

lemma verify_any_cache_ok:
  "cache_ok cache \<Longrightarrow> cache_ok (snd (verify_any_authorization_header E now hdr sdp cache))"
  using verify_any_cache [of E now hdr sdp cache] check_and_insert_ok [of cache]
  by (auto simp: verify_any_authorization_header_def)

lemma with_register_ok:
  assumes "daemon_ok now d"
  shows "daemon_ok now (with_register t h pc d)"
proof -
  have "dc_ok now (snd st) \<Longrightarrow> dc_ok now (snd (fold unregister_client cids st))" for st cids
    by (induction cids arbitrary: st) (simp_all add: snd_unregister dc_ok_remove)
  then have "dc_ok now (snd (register_client t (h_client_id h) (h_user_address h) pc (client_registry d, dc_limiter d)))"
    using assms by (simp add: register_client_def Let_def case_prod_beta daemon_ok_def)
  then show ?thesis
    using assms register_client_wf [of "(client_registry d, dc_limiter d)"]
    by (simp add: with_register_def daemon_ok_def Let_def case_prod_beta)
qed

lemma on_data_channel_ok: "daemon_ok now d \<Longrightarrow> daemon_ok now (snd (on_data_channel h dc d))"
  by (simp add: daemon_ok_def on_data_channel_def reg_wf_def maps_wf_def lists_wf_def unique_addresses_def)

lemma lifecycle_ok:
  assumes "daemon_ok now d"
  shows "daemon_ok now (snd (handshake_timeout cid pc d))" "daemon_ok now (on_connection_state_change h st d)"
  using assms by (simp_all add: handshake_timeout_def on_connection_state_change_def with_unregister_ok)

text \<open>The number of connections never grows but by a registration.\<close>

definition connections :: "daemon \<Rightarrow> nat" where
  "connections d = hm_len (peer_connections (client_registry d))"

lemma connections_unregister_le: "connections (with_unregister cid d) \<le> connections d"
  by (simp add: connections_def client_registry_with_unregister unregister_frames hm_len_remove_le)

lemma fold_unregister_connections:
  "hm_len (peer_connections (fst (fold unregister_client cids st))) \<le> hm_len (peer_connections (fst st))"
proof (induction cids arbitrary: st)
  case (Cons c cids)
  show ?case using Cons.IH [of "unregister_client c st"] hm_len_remove_le [of c "peer_connections (fst st)"]
    by (simp add: unregister_frames)
qed simp

lemma connections_register_le: "connections (with_register t h pc d) \<le> Suc (connections d)"
  using fold_unregister_connections [of _ "(client_registry d, dc_limiter d)"]
  by (auto simp: connections_def with_register_def register_client_def Let_def case_prod_beta hm_len_insert
        intro: le_SucI)

lemmas offer_defs = handle_sdp_offer_def admit_offer_def register_offer_def

lemma authenticate_error: "authenticate_offer E cfg rd headers offer cache = (Err e, cache') \<Longrightarrow> \<exists>a. e = Unauthorized a"
  by (auto simp: authenticate_offer_def split: option.splits prod.splits sum.splits if_splits)

lemma negotiate_error: "negotiate_answer rtc offer = Err e \<Longrightarrow> (\<exists>m. e = InvalidSdpOffer m) \<or> (\<exists>m. e = InternalError m)"
  by (auto simp: negotiate_answer_def split: sum.splits option.splits)

lemma with_register_addresses:
  "hm_get (addresses (client_registry (with_register t h pc d))) (h_client_id h) = Some (h_user_address h)"
  "hm_get (peer_connections (client_registry (with_register t h pc d))) (h_client_id h) = Some pc"
  by (simp_all add: with_register_def register_client_def Let_def case_prod_beta hm_simps)

lemma get_data_channels_unregister:
  "data_channels (fst (unregister_client cid st)) = hm_remove cid (data_channels (fst st))"
  by (simp add: unregister_client_def Let_def case_prod_beta drop_from_rooms_def drop_address_approvals_def
      drop_client_entries_def split: option.splits)

lemma with_register_no_channel:
  assumes "hm_get (data_channels (client_registry d)) c = None"
  shows "hm_get (data_channels (client_registry (with_register t h pc d))) c = None"
proof -
  have "hm_get (data_channels (fst st)) c = None \<Longrightarrow> hm_get (data_channels (fst (fold unregister_client cids st))) c = None" for cids st
    by (induction cids arbitrary: st) (simp_all add: get_data_channels_unregister hm_simps)
  with assms show ?thesis
    by (simp add: with_register_def register_client_def Let_def case_prod_beta)
qed

lemma forgotten_timeout:
  "hm_get (data_channels (client_registry d)) cid = None \<Longrightarrow> forgotten cid (client_registry (snd (handshake_timeout cid pc d)))"
  by (simp add: handshake_timeout_def hm_contains_key_def client_registry_with_unregister unregister_forgotten)

section \<open>An example node\<close>

text \<open>The node of the examples accepts signed offers only; its WebRTC stack answers every offer.\<close>

definition cfg_example :: Configuration where
  "cfg_example =
     \<lparr>server = ServerConfig_default, tls = \<lparr>tls_cert = None, tls_key = None\<rparr>,
      network = NetworkConfig_default, mesh = MeshConfig_default 7\<rparr>"

definition rtc_example :: rtc_session where
  "rtc_example =
     \<lparr>rtc_build = (\<lambda>_. Ok 5), rtc_set_remote = (\<lambda>_. Ok ()), rtc_create_answer = Ok \<lparr>sd_type = ''answer'', sd_sdp = ''v=0''\<rparr>,
      rtc_set_local = (\<lambda>_. Ok ()), rtc_local_description = Some \<lparr>sd_type = ''answer'', sd_sdp = ''v=0''\<rparr>\<rparr>"

definition signed_headers :: HeaderMap where
  "signed_headers = [''authorization'' \<mapsto> Some (hdr_example sig_example)]"

definition rd_1005 :: readings where
  "rd_1005 = \<lparr>instant_now = 5, wall_nanos = 1005000000000, time_counter = 0\<rparr>"

definition sg_example :: signaling where
  "sg_example = \<lparr>sg_daemon = approved_example, sg_client_count = 3, sg_cache = AntiReplayCache_new\<rparr>"

definition offer_example :: RTCSessionDescription where
  "offer_example = \<lparr>sd_type = ''offer'', sd_sdp = ''v=0''\<rparr>"

lemma example_facts:
  "max_connections (server cfg_example) = 1000" "allow_anonymous (server cfg_example) = False" "node_id (mesh cfg_example) = 7"
  "rtc_build (rtc_example\<lparr>rtc_set_remote := rem\<rparr>) urls = Ok 5" "rtc_build rtc_example urls = Ok 5" "instant_now rd_1005 = 5"
  "hm_len (peer_connections (client_registry approved_example)) = 0"
  by (simp_all add: cfg_example_def ServerConfig_default_def default_max_connections_def approved_example_def
      ClientRegistry_new_def hm_new_def hm_len_def rtc_example_def rd_1005_def MeshConfig_default_def)

lemma authenticate_example:
  "authenticate_offer std_crypto cfg_example rd_1005 signed_headers offer_example AntiReplayCache_new
     = (Ok (UserAddress_new pk_example), cache_example)"
  by (simp add: authenticate_offer_def auth_header_def signed_headers_def unix_secs_def rd_1005_def
      verify_any_authorization_header_def first_verification_any)

lemma offer_example_handled:
  "handle_sdp_offer std_crypto cfg_example rd_1005 (rtc_example\<lparr>rtc_set_remote := rem\<rparr>) signed_headers offer_example sg_example =
     (negotiate_answer (rtc_example\<lparr>rtc_set_remote := rem\<rparr>) offer_example,
      sg_example\<lparr>sg_cache := cache_example, sg_client_count := 4,
        sg_daemon := with_register 5 \<lparr>h_client_id = 3, h_user_address = UserAddress_new pk_example, h_my_node_id = 7\<rparr> 5 approved_example\<rparr>)"
  by (simp add: offer_defs authenticate_example sg_example_def example_facts)

section \<open>Properties\<close>

text \<open>C28: an offer fails with 401, 503, 400 or 500 only. It is 401 exactly when authentication fails
  and 503 exactly when the node is full; then no client is registered and no id is used up.\<close>

theorem sdp_offer_errors:
  assumes "handle_sdp_offer E cfg rd rtc headers offer s = (Err e, s')"
  shows "status_code e \<in> {400, 401, 500, 503} \<and>
         (status_code e = 401 \<longleftrightarrow> (\<exists>err. fst (authenticate_offer E cfg rd headers offer (sg_cache s)) = Err err)) \<and>
         (status_code e = 503 \<longleftrightarrow> (\<exists>a. fst (authenticate_offer E cfg rd headers offer (sg_cache s)) = Ok a)
            \<and> max_connections (server cfg) \<le> connections (sg_daemon s)) \<and>
         (status_code e \<in> {401, 503} \<longrightarrow> sg_daemon s' = sg_daemon s \<and> sg_client_count s' = sg_client_count s)"
proof (cases "authenticate_offer E cfg rd headers offer (sg_cache s)")
  case (Pair r cache)
  show ?thesis
  proof (cases r)
    case (Inl err)
    then show ?thesis using assms Pair authenticate_error [of E cfg rd headers offer "sg_cache s" err cache]
      by (auto simp: offer_defs)
  next
    case (Inr a)
    then show ?thesis using assms Pair negotiate_error [of rtc offer e]
      by (auto simp: offer_defs Let_def connections_def split: if_splits sum.splits prod.splits)
  qed
qed

theorem sdp_offer_errors_witness:
  "\<exists>e s'. handle_sdp_offer std_crypto cfg_example rd_example rtc_example (\<lambda>_. None) offer_example sg_example = (Err e, s')
     \<and> status_code e = 401 \<and> sg_daemon s' = approved_example"
proof -
  have *: "handle_sdp_offer std_crypto cfg_example rd_example rtc_example (\<lambda>_. None) offer_example sg_example
      = (Err (Unauthorized MissingHeader), sg_example)"
    by (simp add: offer_defs authenticate_offer_def auth_header_def example_facts)
  from sdp_offer_errors [OF *] * show ?thesis by (auto simp: sg_example_def)
qed

text \<open>when anonymous clients are not allowed, an offer is answered only if its header verifies for
  that very SDP text, and then the new client is registered under the verified address.\<close>

theorem sdp_offer_authenticated:
  assumes "handle_sdp_offer E cfg rd rtc headers offer s = (Ok answer, s')" and "\<not> allow_anonymous (server cfg)"
  shows "\<exists>hdr a pc. auth_header headers ''x-webphone-sign'' = Some hdr \<and>
           fst (verify_any_authorization_header E (unix_secs rd) hdr (sd_sdp offer) (sg_cache s)) = Ok a \<and>
           hm_get (addresses (client_registry (sg_daemon s'))) (sg_client_count s) = Some a \<and>
           hm_get (peer_connections (client_registry (sg_daemon s'))) (sg_client_count s) = Some pc \<and>
           sg_client_count s' = sg_client_count s + 1"
proof -
  obtain a cache where a: "authenticate_offer E cfg rd headers offer (sg_cache s) = (Ok a, cache)"
    using assms(1) by (auto simp: offer_defs split: sum.splits prod.splits)
  define h where "h = \<lparr>h_client_id = sg_client_count s, h_user_address = a, h_my_node_id = node_id (mesh cfg)\<rparr>"
  obtain pc where s': "s' = s\<lparr>sg_cache := cache, sg_client_count := sg_client_count s + 1,
       sg_daemon := with_register (instant_now rd) h pc (sg_daemon s)\<rparr>"
    using assms(1) a by (auto simp: offer_defs Let_def h_def split: if_splits sum.splits prod.splits)
  show ?thesis
    using assms(2) a with_register_addresses [of "instant_now rd" h pc "sg_daemon s"]
    by (auto simp: s' h_def authenticate_offer_def split: option.splits sum.splits prod.splits)
qed

theorem sdp_offer_authenticated_witness:
  "\<exists>a. fst (verify_any_authorization_header std_crypto 1005 (hdr_example sig_example) ''v=0'' AntiReplayCache_new) = Ok a \<and>
     hm_get (addresses (client_registry (sg_daemon (snd (handle_sdp_offer std_crypto cfg_example rd_1005 rtc_example
        signed_headers offer_example sg_example))))) 3 = Some a"
proof -
  have "handle_sdp_offer std_crypto cfg_example rd_1005 rtc_example signed_headers offer_example sg_example =
      (Ok \<lparr>answer_type = ''answer'', answer_sdp = ''v=0'', answer_ice_servers = None\<rparr>,
       snd (handle_sdp_offer std_crypto cfg_example rd_1005 rtc_example signed_headers offer_example sg_example))"
    using offer_example_handled [of "\<lambda>_. Ok ()"]
    by (simp add: negotiate_answer_def) (simp add: rtc_example_def negotiate_answer_def)
  from sdp_offer_authenticated [OF this] show ?thesis
    by (auto simp: cfg_example_def ServerConfig_default_def signed_headers_def auth_header_def sg_example_def
          unix_secs_def rd_1005_def offer_example_def)
qed

text \<open>an offer the WebRTC stack refuses (status 400) leaves its client registered, so it occupies a
  connection; the handshake task removes every trace of it when it fires.\<close>

theorem refused_offer_keeps_slot:
  assumes "handle_sdp_offer E cfg rd rtc headers offer s = (Err e, s')" and "status_code e = 400"
    and "hm_get (data_channels (client_registry (sg_daemon s))) (sg_client_count s) = None"
  shows "\<exists>pc. hm_get (peer_connections (client_registry (sg_daemon s'))) (sg_client_count s) = Some pc \<and>
           forgotten (sg_client_count s) (client_registry (snd (handshake_timeout (sg_client_count s) pc (sg_daemon s'))))"
proof -
  obtain a cache where a: "authenticate_offer E cfg rd headers offer (sg_cache s) = (Ok a, cache)"
    using assms(1,2) authenticate_error by (fastforce simp: offer_defs split: sum.splits prod.splits)
  define h where "h = \<lparr>h_client_id = sg_client_count s, h_user_address = a, h_my_node_id = node_id (mesh cfg)\<rparr>"
  obtain pc where s': "s' = s\<lparr>sg_cache := cache, sg_client_count := sg_client_count s + 1,
       sg_daemon := with_register (instant_now rd) h pc (sg_daemon s)\<rparr>"
    using assms(1,2) a by (auto simp: offer_defs Let_def h_def split: if_splits sum.splits prod.splits)
  have "h_client_id h = sg_client_count s" by (simp add: h_def)
  then show ?thesis
    using with_register_addresses(2) [of "instant_now rd" h pc "sg_daemon s"]
      with_register_no_channel [OF assms(3), of "instant_now rd" h pc]
    by (auto simp: s' intro!: forgotten_timeout)
qed

theorem refused_offer_keeps_slot_witness:
  "\<exists>pc. hm_get (peer_connections (client_registry (with_register 5 \<lparr>h_client_id = 3, h_user_address = UserAddress_new pk_example, h_my_node_id = 7\<rparr> 5 approved_example))) 3 = Some pc"
proof -
  have "handle_sdp_offer std_crypto cfg_example rd_1005 (rtc_example\<lparr>rtc_set_remote := \<lambda>_. Err ''bad''\<rparr>) signed_headers offer_example sg_example =
      (Err (InvalidSdpOffer ''bad''), sg_example\<lparr>sg_cache := cache_example, sg_client_count := 4,
        sg_daemon := with_register 5 \<lparr>h_client_id = 3, h_user_address = UserAddress_new pk_example, h_my_node_id = 7\<rparr> 5 approved_example\<rparr>)"
    unfolding offer_example_handled by (simp add: negotiate_answer_def)
  from refused_offer_keeps_slot [OF this] show ?thesis
    by (auto simp: sg_example_def approved_example_def hm_get_def)
qed

text \<open>an authorised query for a (short) address returns the one registered address it matches, 409
  when it matches several clients, and 404 when it matches none or has fewer than 12 characters.\<close>

theorem resolve_address_spec:
  assumes "daemon_ok t (sg_daemon s)" and "fst (check_address_request_authorization E cfg rd headers (sg_cache s)) = Ok ()"
    and "hits = {c. \<exists>a. hm_get (addresses (client_registry (sg_daemon s))) c = Some a \<and> matches_address_prefix a (UserAddress_new key)}"
  shows "case fst (resolve_registered_address E cfg rd headers key s) of
           Inr a \<Rightarrow> 12 \<le> length key \<and> (\<exists>c. hits = {c} \<and> hm_get (addresses (client_registry (sg_daemon s))) c = Some a)
         | Inl e \<Rightarrow> status_code e = (if length key < 12 \<or> hits = {} then 404 else 409) \<and> \<not> (12 \<le> length key \<and> (\<exists>c. hits = {c}))"
proof -
  let ?reg = "client_registry (sg_daemon s)"
  have w: "hm_wf (addresses ?reg)" using assms(1) by (simp add: daemon_ok_def reg_wf_def maps_wf_def)
  obtain cache where c: "check_address_request_authorization E cfg rd headers (sg_cache s) = (Ok (), cache)"
    using assms(2) by (metis prod.collapse)
  note found = find_client_Found_iff [OF w, of "UserAddress_new key"]
    and none = find_client_NotFound_iff [OF w, of "UserAddress_new key"]
  show ?thesis
  proof (cases "find_client_by_address ?reg (UserAddress_new key)")
    case (Found cid)
    then have h: "12 \<le> length key" "hits = {cid}" using found [of cid] by (simp_all add: assms(3) UserAddress_new_def)
    then have "cid \<in> hits" by simp
    then obtain a where "hm_get (addresses ?reg) cid = Some a" by (auto simp: assms(3))
    then show ?thesis using h
      by (simp add: resolve_registered_address_def c conn_find_client_by_address_def Found get_client_address_def)
  next
    case NotFound
    then have "length key < 12 \<or> hits = {}" using none by (auto simp: assms(3) UserAddress_new_def)
    then show ?thesis by (auto simp: resolve_registered_address_def c conn_find_client_by_address_def NotFound)
  next
    case Ambiguous
    then have "\<not> (length key < 12 \<or> hits = {})" "\<And>c. \<not> (12 \<le> length key \<and> hits = {c})"
      using none found by (auto simp: assms(3) UserAddress_new_def)
    then show ?thesis by (auto simp: resolve_registered_address_def c conn_find_client_by_address_def Ambiguous)
  qed
qed

theorem resolve_address_spec_witness:
  "case fst (resolve_registered_address std_crypto (cfg_example\<lparr>server := ServerConfig_default\<lparr>allow_anonymous := True\<rparr>\<rparr>)
       rd_example (\<lambda>_. None) ''aaaa'' sg_example) of Inr _ \<Rightarrow> False | Inl e \<Rightarrow> status_code e = 404"
proof -
  have "fst (check_address_request_authorization std_crypto (cfg_example\<lparr>server := ServerConfig_default\<lparr>allow_anonymous := True\<rparr>\<rparr>)
      rd_example (\<lambda>_. None) (sg_cache sg_example)) = Ok ()"
    by (simp add: check_address_request_authorization_def auth_header_def)
  moreover have "daemon_ok 0 (sg_daemon sg_example)" by (simp add: sg_example_def approved_example_ok)
  ultimately show ?thesis
    using resolve_address_spec [OF _ _ refl, of 0 sg_example std_crypto
        "cfg_example\<lparr>server := ServerConfig_default\<lparr>allow_anonymous := True\<rparr>\<rparr>" rd_example "\<lambda>_. None" "''aaaa''"]
    by (simp split: sum.splits)
qed

text \<open>C39: as long as offers are handled one after the other the limit on connections holds: an offer
  never takes a node within its limit beyond it, and no other event of a client adds a connection.\<close>

theorem connection_limit:
  assumes "connections (sg_daemon s) \<le> max_connections (server cfg)"
  shows "connections (sg_daemon (snd (handle_sdp_offer E cfg rd rtc headers offer s))) \<le> max_connections (server cfg) \<and>
         connections (on_connection_state_change h st (sg_daemon s)) \<le> connections (sg_daemon s) \<and>
         connections (snd (handshake_timeout cid pc (sg_daemon s))) \<le> connections (sg_daemon s) \<and>
         connections (on_close c (sg_daemon s)) \<le> connections (sg_daemon s)"
proof -
  have "connections (sg_daemon (snd (handle_sdp_offer E cfg rd rtc headers offer s))) \<le> max_connections (server cfg)"
  proof (cases "admit_offer E cfg rd headers offer s")
    case (Pair r s1)
    then have s1: "sg_daemon s1 = sg_daemon s" "\<And>h. r = Ok h \<Longrightarrow> connections (sg_daemon s) < max_connections (server cfg)"
      by (auto simp: admit_offer_def Let_def connections_def split: sum.splits prod.splits if_splits)
    show ?thesis
    proof (cases r)
      case (Inr h1)
      have "connections (with_register t h1 p (sg_daemon s)) \<le> max_connections (server cfg)" for t p
        using connections_register_le [of t h1 p "sg_daemon s"] s1(2) [OF Inr] by simp
      then show ?thesis using assms Pair Inr s1(1) by (auto simp: handle_sdp_offer_def register_offer_def split: sum.splits)
    qed (use assms Pair s1 in \<open>simp add: handle_sdp_offer_def\<close>)
  qed
  then show ?thesis
    by (simp add: on_connection_state_change_def handshake_timeout_def on_close_def connections_unregister_le)
qed

theorem connection_limit_witness:
  "connections (sg_daemon (snd (handle_sdp_offer std_crypto cfg_example rd_1005 rtc_example signed_headers offer_example sg_example))) \<le> 1000"
  using connection_limit [of sg_example cfg_example std_crypto rd_1005 rtc_example signed_headers offer_example]
  by (simp add: example_facts sg_example_def connections_def)

end
