(* ===== verification/WP_Node.thy ===== *)
theory WP_Node
  imports WP_Signaling
begin

text \<open>
  A running daemon node as a labelled transition system. A step is a whole handler (an SDP request
  up to its client id, its registration, a data channel being opened, a message, a closed channel
  or connection, the handshake timer, the keep-alive tick, an address query), and the handlers
  of different tasks follow one another in any order; the state keeps, beside the statics of the
  program, the tasks that exist. The source takes several locks inside a handler and may wait
  between them: that finer interleaving is the subject of \<open>WP_Tasks\<close>. The facts here relate
  the state to the trace of labels, by induction over runs: who was admitted, and who has agreed to
  a call.
\<close>

section \<open>States and steps\<close>

record node = signaling +
  nd_offers :: "ClientConnectionHandler list"
  nd_handlers :: "(ClientConnectionHandler \<times> pc_handle) list"
  nd_conns :: "client_conn list"
  nd_now :: nat

definition node_init :: node where
  "node_init =
     \<lparr>sg_daemon = \<lparr>client_registry = ClientRegistry_new, dc_limiter = DATACHANNEL_RATE_LIMITER\<rparr>,
      sg_client_count = 0, sg_cache = AntiReplayCache_new,
      nd_offers = [], nd_handlers = [], nd_conns = [], nd_now = 0\<rparr>"

datatype label =
    Admit readings HeaderMap RTCSessionDescription "(ClientConnectionHandler, SignalingError) result"
  | Register readings rtc_session ClientConnectionHandler "(pc_handle, SignalingError) result"
  | Timeout client_id "effect list"
  | StateChange ClientConnectionHandler RTCPeerConnectionState
  | ChannelOpen client_conn "effect list"
  | Message readings client_conn bytes "effect list"
  | ChannelClose client_conn
  | Tick readings "effect list"
  | Query readings HeaderMap

definition after_admit :: "(ClientConnectionHandler, SignalingError) result \<Rightarrow> node \<Rightarrow> node" where
  "after_admit res n = (case res of Inr h \<Rightarrow> n\<lparr>nd_offers := h # nd_offers n\<rparr> | Inl _ \<Rightarrow> n)"

definition after_register :: "nat \<Rightarrow> ClientConnectionHandler \<Rightarrow> (pc_handle, SignalingError) result \<Rightarrow> node \<Rightarrow> node" where
  "after_register now h res n =
     (let n = n\<lparr>nd_offers := remove1 h (nd_offers n), nd_now := now\<rparr>
      in case res of Inr pc \<Rightarrow> n\<lparr>nd_handlers := (h, pc) # nd_handlers n\<rparr> | Inl _ \<Rightarrow> n)"

inductive node_step :: "'z crypto_crates_scheme \<Rightarrow> Configuration \<Rightarrow> node \<Rightarrow> label \<Rightarrow> node \<Rightarrow> bool"
  for E :: "'z crypto_crates_scheme" and cfg :: Configuration where
  admit: "admit_offer E cfg rd headers offer n = (res, n') \<Longrightarrow>
     node_step E cfg n (Admit rd headers offer res) (after_admit res n')"
| register: "h \<in> set (nd_offers n) \<Longrightarrow> nd_now n \<le> instant_now rd \<Longrightarrow> register_offer cfg rd rtc h n = (res, n') \<Longrightarrow>
     node_step E cfg n (Register rd rtc h res) (after_register (instant_now rd) h res n')"
| timeout: "(h, pc) \<in> set (nd_handlers n) \<Longrightarrow> handshake_timeout (h_client_id h) pc (sg_daemon n) = (effs, d) \<Longrightarrow>
     node_step E cfg n (Timeout (h_client_id h) effs) (n\<lparr>sg_daemon := d\<rparr>)"
| state_change: "(h, pc) \<in> set (nd_handlers n) \<Longrightarrow>
     node_step E cfg n (StateChange h st) (n\<lparr>sg_daemon := on_connection_state_change h st (sg_daemon n)\<rparr>)"
| channel_open: "(h, pc) \<in> set (nd_handlers n) \<Longrightarrow> on_data_channel h dc (sg_daemon n) = (c, d) \<Longrightarrow>
     node_step E cfg n (ChannelOpen c (on_channel_start E c)) (n\<lparr>sg_daemon := d, nd_conns := c # nd_conns n\<rparr>)"
| message: "c \<in> set (nd_conns n) \<Longrightarrow> nd_now n \<le> instant_now rd \<Longrightarrow> on_message E rd c data (sg_daemon n) = Some (effs, d) \<Longrightarrow>
     node_step E cfg n (Message rd c data effs) (n\<lparr>sg_daemon := d, nd_now := instant_now rd\<rparr>)"
| channel_close: "c \<in> set (nd_conns n) \<Longrightarrow>
     node_step E cfg n (ChannelClose c) (n\<lparr>sg_daemon := on_close c (sg_daemon n), nd_conns := remove1 c (nd_conns n)\<rparr>)"
| tick: "keepalive_tick E rd (sg_daemon n) = (effs, d) \<Longrightarrow>
     node_step E cfg n (Tick rd effs) (n\<lparr>sg_daemon := d\<rparr>)"
| query_all: "list_registered_addresses E cfg rd headers n = (res, n') \<Longrightarrow> node_step E cfg n (Query rd headers) n'"
| query_one: "resolve_registered_address E cfg rd headers key n = (res, n') \<Longrightarrow> node_step E cfg n (Query rd headers) n'"

text \<open>A run from the initial state and its trace, in order.\<close>

inductive node_run :: "'z crypto_crates_scheme \<Rightarrow> Configuration \<Rightarrow> label list \<Rightarrow> node \<Rightarrow> bool"
  for E :: "'z crypto_crates_scheme" and cfg :: Configuration where
  run_init: "node_run E cfg [] node_init"
| run_step: "node_run E cfg tr n \<Longrightarrow> node_step E cfg n l n' \<Longrightarrow> node_run E cfg (tr @ [l]) n'"

inductive_cases message_stepE: "node_step E cfg n (Message rd c data effs) n'"
inductive_cases run_snocE: "node_run E cfg (tr @ [l]) n'"

section \<open>How handlers change the state around the daemon\<close>

lemma query_frame:
  assumes "list_registered_addresses E cfg rd headers n = (res, n') \<or> resolve_registered_address E cfg rd headers key n = (res2, n')"
  shows "\<exists>cache. n' = n\<lparr>sg_cache := cache\<rparr> \<and> (cache_ok (sg_cache n) \<longrightarrow> cache_ok cache)"
proof -
  have "cache_ok (sg_cache n) \<Longrightarrow> cache_ok (snd (check_address_request_authorization E cfg rd headers (sg_cache n)))"
    using verify_any_cache_ok [of "sg_cache n" E "unix_secs rd" _ "''''"]
    by (auto simp: check_address_request_authorization_def split: option.splits sum.splits prod.splits) (metis snd_conv)+
  then show ?thesis
    using assms
    by (auto simp: list_registered_addresses_def resolve_registered_address_def split: prod.splits sum.splits)
qed

lemma authenticate_cache_ok:
  "cache_ok cache \<Longrightarrow> cache_ok (snd (authenticate_offer E cfg rd headers offer cache))"
  using verify_any_cache_ok [of cache E "unix_secs rd" _ "sd_sdp offer"]
  by (auto simp: authenticate_offer_def split: option.splits sum.splits prod.splits) (metis snd_conv)+

lemma admit_offer_cases:
  assumes "admit_offer E cfg rd headers offer n = (res, n')"
  obtains (refused) e cache where "res = Err e" "n' = n\<lparr>sg_cache := cache\<rparr>"
      "cache_ok (sg_cache n) \<longrightarrow> cache_ok cache"
  | (admitted) a cache where
      "res = Ok \<lparr>h_client_id = sg_client_count n, h_user_address = a, h_my_node_id = node_id (mesh cfg)\<rparr>"
      "n' = n\<lparr>sg_cache := cache, sg_client_count := sg_client_count n + 1\<rparr>"
      "authenticate_offer E cfg rd headers offer (sg_cache n) = (Ok a, cache)"
      "cache_ok (sg_cache n) \<longrightarrow> cache_ok cache"
      "connections (sg_daemon n) < max_connections (server cfg)"
proof (cases "authenticate_offer E cfg rd headers offer (sg_cache n)")
  case (Pair r cache)
  have ok: "cache_ok (sg_cache n) \<longrightarrow> cache_ok cache"
    using authenticate_cache_ok [of "sg_cache n" E cfg rd headers offer] Pair by simp
  show ?thesis
  proof (cases r)
    case (Inl e)
    then show ?thesis using refused [OF _ _ ok] assms Pair by (auto simp: admit_offer_def)
  next
    case (Inr a)
    then show ?thesis
      using refused [OF _ _ ok] admitted [OF _ _ _ ok] assms Pair
      by (auto simp: admit_offer_def Let_def connections_def split: if_splits)
  qed
qed

lemma register_offer_cases:
  assumes "register_offer cfg rd rtc h n = (res, n')"
  obtains (failed) e where "res = Err e" "n' = n"
  | (registered) pc where "res = Ok pc" "n' = n\<lparr>sg_daemon := with_register (instant_now rd) h pc (sg_daemon n)\<rparr>"
  using assms by (auto simp: register_offer_def split: sum.splits)

lemma after_simps [simp]:
  "sg_daemon (after_admit res n) = sg_daemon n" "sg_cache (after_admit res n) = sg_cache n"
  "sg_client_count (after_admit res n) = sg_client_count n"
  "nd_handlers (after_admit res n) = nd_handlers n" "nd_conns (after_admit res n) = nd_conns n" "nd_now (after_admit res n) = nd_now n"
  "sg_daemon (after_register t h res' n) = sg_daemon n" "sg_cache (after_register t h res' n) = sg_cache n"
  "sg_client_count (after_register t h res' n) = sg_client_count n"
  "nd_conns (after_register t h res' n) = nd_conns n" "nd_now (after_register t h res' n) = t"
  "nd_offers (after_register t h res' n) = remove1 h (nd_offers n)"
  by (simp_all add: after_admit_def after_register_def Let_def split: sum.splits)

section \<open>The state invariant\<close>

definition node_ok :: "node \<Rightarrow> bool" where
  "node_ok n \<longleftrightarrow> daemon_ok (nd_now n) (sg_daemon n) \<and> cache_ok (sg_cache n)"

lemma daemon_ok_mono:
  assumes "daemon_ok t d" and "t \<le> t'"
  shows "daemon_ok t' d"
proof -
  have "bucket_ok cap t' b" if "bucket_ok cap t b" for cap b
    using that assms(2) by (auto simp: bucket_ok_def)
  then show ?thesis using assms(1) by (auto simp: daemon_ok_def dc_ok_iff dc.ok_def)
qed

lemma node_step_ok:
  assumes "node_step E cfg n l n'" and "node_ok n"
  shows "node_ok n'"
  using assms
proof (cases rule: node_step.cases)
  case (admit rd headers offer res n1)
  from admit(3) show ?thesis by (cases rule: admit_offer_cases) (use assms(2) admit in \<open>auto simp: node_ok_def\<close>)
next
  case (register h rd rtc res n1)
  from register(5) show ?thesis
    by (cases rule: register_offer_cases)
       (use assms(2) register daemon_ok_mono [of "nd_now n" "sg_daemon n" "instant_now rd"] in \<open>auto simp: node_ok_def with_register_ok\<close>)
next
  case (timeout h pc effs d)
  then show ?thesis using assms(2) lifecycle_ok(1) [of "nd_now n" "sg_daemon n" "h_client_id h" pc] by (simp add: node_ok_def)
next
  case (state_change h pc st)
  then show ?thesis using assms(2) by (simp add: node_ok_def lifecycle_ok)
next
  case (channel_open h pc dc c d)
  then show ?thesis using assms(2) on_data_channel_ok [of "nd_now n" "sg_daemon n" h dc] by (simp add: node_ok_def)
next
  case (message c rd data effs d)
  then show ?thesis using assms(2) on_message_ok [of "nd_now n" "sg_daemon n" rd E c data effs d] by (simp add: node_ok_def)
next
  case (channel_close c)
  then show ?thesis using assms(2) by (simp add: node_ok_def on_close_def with_unregister_ok)
next
  case (tick rd effs d)
  then show ?thesis using assms(2) keepalive_ok [of "nd_now n" "sg_daemon n" E rd] by (simp add: node_ok_def)
next
  case (query_all rd headers res)
  then show ?thesis using assms(2) query_frame by (fastforce simp: node_ok_def)
next
  case (query_one rd headers key res)
  then show ?thesis using assms(2) query_frame by (fastforce simp: node_ok_def)
qed

lemma node_init_ok: "node_ok node_init"
  using reg_wf_new cache_ok_new by (simp add: node_ok_def node_init_def daemon_ok_def dc_ok_global)

lemma node_run_ok: "node_run E cfg tr n \<Longrightarrow> node_ok n"
  by (induction rule: node_run.induct) (auto intro: node_init_ok node_step_ok)

section \<open>Where approvals and call targets come from\<close>

text \<open>Every approval satisfies \<open>P\<close>, every recorded call target \<open>Q\<close> and every registered address \<open>R\<close>.\<close>

definition backed :: "(client_id \<Rightarrow> UserAddress \<Rightarrow> bool) \<Rightarrow> (client_id \<Rightarrow> UserAddress \<Rightarrow> bool) \<Rightarrow> (client_id \<Rightarrow> UserAddress \<Rightarrow> bool) \<Rightarrow> ClientRegistry \<Rightarrow> bool" where
  "backed P Q R reg \<longleftrightarrow> hm_all (\<lambda>t l. \<forall>a \<in> set l. P t a) (approved_calls reg) \<and> hm_all Q (targets reg)
     \<and> hm_all R (addresses reg)"

lemma backed_frame:
  "approved_calls reg' = approved_calls reg \<Longrightarrow> targets reg' = targets reg \<Longrightarrow> addresses reg' = addresses reg \<Longrightarrow>
   backed P Q R reg' = backed P Q R reg"
  by (simp add: backed_def)

lemma backed_mono:
  assumes "backed P Q R reg" and "\<And>t a. P t a \<Longrightarrow> P' t a" and "\<And>t a. Q t a \<Longrightarrow> Q' t a"
    and "\<And>t a. R t a \<Longrightarrow> R' t a"
  shows "backed P' Q' R' reg"
  using assms by (auto simp: backed_def hm_all_def list_all_iff)

lemma backed_clear: "backed P Q R reg \<Longrightarrow> backed P Q R (clear_call_session cid key reg)"
  by (auto simp: backed_def clear_call_session_def Let_def split: AddressSearchResult.splits option.splits
        intro!: hm_all_modify)

lemma backed_unregister: "backed P Q R (fst st) \<Longrightarrow> backed P Q R (fst (unregister_client cid st))"
proof -
  assume b: "backed P Q R (fst st)"
  have 1: "backed P Q R reg \<Longrightarrow> backed P Q R (drop_client_entries cid reg)" for reg
    by (auto simp: backed_def drop_client_entries_def)
  have 2: "backed P Q R reg \<Longrightarrow> backed P Q R (drop_address_approvals a reg)" for reg a
    by (auto simp: backed_def drop_address_approvals_def)
  have 3: "backed P Q R reg \<Longrightarrow> backed P Q R (drop_from_rooms cid reg)" for reg
    by (auto simp: backed_def drop_from_rooms_def)
  show ?thesis
    using b by (auto simp: unregister_client_def Let_def case_prod_beta 1 2 3 backed_clear split: option.splits)
qed

lemma backed_fold_unregister: "backed P Q R (fst st) \<Longrightarrow> backed P Q R (fst (fold unregister_client cids st))"
  by (induction cids arbitrary: st) (simp_all add: backed_unregister)

abbreviation backed_d :: "(client_id \<Rightarrow> UserAddress \<Rightarrow> bool) \<Rightarrow> (client_id \<Rightarrow> UserAddress \<Rightarrow> bool) \<Rightarrow> (client_id \<Rightarrow> UserAddress \<Rightarrow> bool) \<Rightarrow> daemon \<Rightarrow> bool" where
  "backed_d P Q R d \<equiv> backed P Q R (client_registry d)"

lemma backed_with_register:
  "backed_d P Q R d \<Longrightarrow> R (h_client_id h) (h_user_address h) \<Longrightarrow> backed_d P Q R (with_register t h pc d)"
  using backed_fold_unregister [of P Q R "(client_registry d, dc_limiter d)"]
  by (simp add: with_register_def register_client_def Let_def case_prod_beta backed_def hm_all_insert)

lemma backed_with_unregister: "backed_d P Q R d \<Longrightarrow> backed_d P Q R (with_unregister cid d)"
  by (simp add: client_registry_with_unregister backed_unregister)

lemma backed_fold_close: "backed_d P Q R (snd st) \<Longrightarrow> backed_d P Q R (snd (fold close_stale_client cids st))"
  by (induction cids arbitrary: st) (simp_all add: close_stale_client_def case_prod_beta backed_with_unregister)

lemma backed_lifecycle:
  assumes "backed_d P Q R d"
  shows "backed_d P Q R (snd (handshake_timeout cid pc d))" "backed_d P Q R (on_connection_state_change h st d)"
    "backed_d P Q R (snd (on_data_channel h dc d))" "backed_d P Q R (on_close c d)" "backed_d P Q R (snd (keepalive_tick E rd d))"
proof -
  show "backed_d P Q R (snd (on_data_channel h dc d))"
    using assms by (simp add: on_data_channel_def backed_def)
qed (use assms in \<open>simp_all add: handshake_timeout_def on_connection_state_change_def on_close_def
      keepalive_tick_def Let_def backed_with_unregister backed_fold_close\<close>)

lemma backed_set_target: "backed_d P Q R d \<Longrightarrow> Q cid a \<Longrightarrow> backed_d P Q R (set_target cid a d)"
  by (auto simp: backed_def set_target_def)

lemma backed_accept:
  assumes "backed_d P Q R d" and "P cid a" and "Q cid a"
  shows "backed_d P Q R (snd (handle_call_accept_response E rd cid a d))"
  using assms
  by (auto simp: handle_call_accept_response_def Let_def conn_mark_call_approved_def mark_call_approved_def backed_def
        intro!: hm_all_modify hm_all_or_insert)

lemma backed_hangup: "backed_d P Q R d \<Longrightarrow> backed_d P Q R (snd (handle_call_hangup E rd cid a d))"
  by (simp add: handle_call_hangup_def Let_def backed_clear)

lemma update_speaker_energy_frame:
  "approved_calls (snd (update_speaker_energy now room cid e reg)) = approved_calls reg"
  "targets (snd (update_speaker_energy now room cid e reg)) = targets reg"
  "addresses (snd (update_speaker_energy now room cid e reg)) = addresses reg"
  by (simp_all add: update_speaker_energy_def Let_def case_prod_beta)

lemma backed_rooms:
  assumes "backed_d P Q R d"
  shows "backed_d P Q R (snd (handle_room_join E cid room d))" "backed_d P Q R (snd (handle_room_leave E cid room d))"
    "backed_d P Q R (snd (handle_room_group_audio E rd cid room codec payload d))"
    "backed_d P Q R (snd (handle_room_group_audio_e2ee E rd cid room codec energy payload d))"
proof -
  have j: "approved_calls (snd (join_room cid room reg)) = approved_calls reg" "targets (snd (join_room cid room reg)) = targets reg"
    "addresses (snd (join_room cid room reg)) = addresses reg" for reg
    by (simp_all add: join_room_snd join_room_with_limit_def Let_def)
  have l: "approved_calls (snd (leave_room cid room reg)) = approved_calls reg" "targets (snd (leave_room cid room reg)) = targets reg"
    "addresses (snd (leave_room cid room reg)) = addresses reg" for reg
    by (simp_all add: leave_room_def Let_def split: option.splits)
  show "backed_d P Q R (snd (handle_room_join E cid room d))" "backed_d P Q R (snd (handle_room_leave E cid room d))"
    using assms by (simp_all add: handle_room_join_def handle_room_leave_def Let_def case_prod_beta backed_def j l)
  show "backed_d P Q R (snd (handle_room_group_audio E rd cid room codec payload d))"
    "backed_d P Q R (snd (handle_room_group_audio_e2ee E rd cid room codec energy payload d))"
    using assms
    by (simp_all add: handle_room_group_audio_def handle_room_group_audio_e2ee_def Let_def case_prod_beta backed_def
        update_speaker_energy_frame)
qed

lemma backed_targeted_audio:
  assumes "backed_d P Q R d" and "Q cid target"
  shows "backed_d P Q R (snd (handle_client_targeted_audio E rd cid sa target codec node payload dc d))"
proof -
  have n: "backed_d P Q R (conn_mark_notified t c d)" for t c
    using assms(1) by (simp add: conn_mark_notified_def mark_notified_def backed_def)
  have "backed_d P Q R (snd (route_to_client E rd cid sa target codec node payload dc t d))" for t
    using assms by (simp add: route_to_client_def Let_def n backed_with_unregister backed_set_target)
  then show ?thesis
    using assms(1) by (simp add: handle_client_targeted_audio_def backed_rooms split: AddressSearchResult.split)
qed

lemma backed_dispatch:
  assumes "backed_d P Q R d"
    and "\<And>a. packet = CallAcceptResponse a \<Longrightarrow> P cid a \<and> Q cid a"
    and "\<And>a codec audio. packet = ClientTargetedAudio a codec audio \<Longrightarrow> Q cid a"
  shows "backed_d P Q R (snd (dispatch_daemon_packet E rd cid addr node packet dc d))"
proof -
  have "backed_d P Q R (snd (handle_call_reject_response E rd cid a d))" for a
    using assms(1) by (simp add: handle_call_reject_response_def Let_def conn_mark_call_rejected_def mark_call_rejected_def backed_def)
  moreover have "backed P Q R (update_last_pong t cid (client_registry d))" for t
    using assms(1) by (simp add: update_last_pong_def backed_def)
  ultimately show ?thesis
    using assms by (cases packet) (simp_all add: backed_accept backed_hangup backed_rooms backed_targeted_audio)
qed

section \<open>Traces\<close>

text \<open>The clients a trace has admitted, in order.\<close>

fun admitted_by :: "label \<Rightarrow> ClientConnectionHandler option" where
  "admitted_by (Admit rd headers offer (Inr h)) = Some h"
| "admitted_by _ = None"

definition admitted :: "label list \<Rightarrow> ClientConnectionHandler list" where
  "admitted tr = List.map_filter admitted_by tr"

lemma admitted_simps [simp]:
  "admitted [] = []"
  "admitted (tr @ tr') = admitted tr @ admitted tr'"
  "admitted [l] = (case admitted_by l of Some h \<Rightarrow> [h] | None \<Rightarrow> [])"
  by (simp_all add: admitted_def List.map_filter_def split: option.split)

text \<open>A message of client \<open>cid\<close> in the trace that the daemon reads as packet \<open>p\<close>.\<close>

definition sent_by :: "'z wp_crates_scheme \<Rightarrow> label list \<Rightarrow> client_id \<Rightarrow> ProtocolPacket \<Rightarrow> bool" where
  "sent_by E tr cid p \<longleftrightarrow>
     (\<exists>rd c data effs. Message rd c data effs \<in> set tr \<and> cc_client_id c = cid
        \<and> decode E (wall_nanos rd) (time_counter rd) data = Some (Ok p))"

text \<open>Client \<open>t\<close> has asked to talk to address \<open>a\<close>: by accepting its call or by sending it audio.\<close>

definition asked_for :: "'z wp_crates_scheme \<Rightarrow> label list \<Rightarrow> client_id \<Rightarrow> UserAddress \<Rightarrow> bool" where
  "asked_for E tr t a \<longleftrightarrow>
     sent_by E tr t (CallAcceptResponse a) \<or> (\<exists>codec audio. sent_by E tr t (ClientTargetedAudio a codec audio))"

definition was_admitted :: "label list \<Rightarrow> client_id \<Rightarrow> UserAddress \<Rightarrow> bool" where
  "was_admitted tr cid a \<longleftrightarrow> (\<exists>h \<in> set (admitted tr). h_client_id h = cid \<and> h_user_address h = a)"

lemma trace_mono:
  "sent_by E tr cid p \<Longrightarrow> sent_by E (tr @ tr') cid p"
  "asked_for E tr t a \<Longrightarrow> asked_for E (tr @ tr') t a"
  "was_admitted tr cid a \<Longrightarrow> was_admitted (tr @ tr') cid a"
proof -
  show s: "sent_by E (tr @ tr') cid p" if "sent_by E tr cid p" for cid p using that by (auto simp: sent_by_def)
  show "asked_for E tr t a \<Longrightarrow> asked_for E (tr @ tr') t a" using s by (auto simp: asked_for_def)
  show "was_admitted tr cid a \<Longrightarrow> was_admitted (tr @ tr') cid a" by (auto simp: was_admitted_def)
qed

lemma sent_by_last:
  "decode E (wall_nanos rd) (time_counter rd) data = Some (Ok p) \<Longrightarrow>
   sent_by E (tr @ [Message rd c data effs]) (cc_client_id c) p"
  by (auto simp: sent_by_def)

definition trace_backed :: "'z wp_crates_scheme \<Rightarrow> label list \<Rightarrow> daemon \<Rightarrow> bool" where
  "trace_backed E tr d \<longleftrightarrow>
     backed_d (\<lambda>t a. sent_by E tr t (CallAcceptResponse a)) (asked_for E tr) (was_admitted tr) d"

text \<open>The tasks of a node work for admitted clients.\<close>

definition tasks_admitted :: "label list \<Rightarrow> node \<Rightarrow> bool" where
  "tasks_admitted tr n \<longleftrightarrow>
     set (nd_offers n) \<subseteq> set (admitted tr) \<and> fst ` set (nd_handlers n) \<subseteq> set (admitted tr)
     \<and> (\<forall>c \<in> set (nd_conns n). was_admitted tr (cc_client_id c) (cc_user_address c))"

lemma on_message_cases:
  assumes "on_message E rd c data d = Some (effs, d')"
  obtains (ignored) "effs = []" "client_registry d' = client_registry d"
  | (dispatched) packet d1 where "decode E (wall_nanos rd) (time_counter rd) data = Some (Ok packet)"
      "client_registry d1 = client_registry d"
      "(effs, d') = dispatch_daemon_packet E rd (cc_client_id c) (cc_user_address c) (cc_node_id c) packet (cc_dc c) d1"
proof -
  define d1 where "d1 = d\<lparr>dc_limiter := snd (dc_check_and_consume (instant_now rd) (cc_client_id c) (dc_limiter d))\<rparr>"
  have "client_registry d1 = client_registry d" by (simp add: d1_def)
  then show ?thesis
    using assms ignored dispatched
    by (auto simp: on_message_def Let_def case_prod_beta simp flip: d1_def split: option.splits sum.splits if_splits)
qed

lemma trace_backed_mono: "trace_backed E tr d \<Longrightarrow> trace_backed E (tr @ tr') d"
  unfolding trace_backed_def by (erule backed_mono) (auto intro: trace_mono)

lemma trace_backed_message:
  assumes "on_message E rd c data d = Some (effs, d')" and "trace_backed E tr d"
  shows "trace_backed E (tr @ [Message rd c data effs]) d'"
  using assms(1)
proof (cases rule: on_message_cases)
  case ignored
  then show ?thesis using trace_backed_mono [OF assms(2)] by (simp add: trace_backed_def)
next
  case (dispatched packet d1)
  let ?tr = "tr @ [Message rd c data effs]"
  have "trace_backed E ?tr d1" using trace_backed_mono [OF assms(2)] dispatched(2) by (simp add: trace_backed_def)
  then have "trace_backed E ?tr (snd (dispatch_daemon_packet E rd (cc_client_id c) (cc_user_address c) (cc_node_id c) packet (cc_dc c) d1))"
    unfolding trace_backed_def
    by (rule backed_dispatch) (use sent_by_last [OF dispatched(1), of tr c effs] in \<open>auto simp: asked_for_def\<close>)
  then show ?thesis using dispatched(3) by (metis snd_conv)
qed

lemma tasks_admitted_sub:
  assumes "tasks_admitted tr n" and "set (nd_offers n') \<subseteq> set (nd_offers n)"
    and "set (nd_handlers n') \<subseteq> set (nd_handlers n)" and "set (nd_conns n') \<subseteq> set (nd_conns n)"
  shows "tasks_admitted (tr @ tr') n'"
  using assms unfolding tasks_admitted_def by (force intro: trace_mono)

lemma tasks_step:
  assumes "node_step E cfg n l n'" and "tasks_admitted tr n"
  shows "tasks_admitted (tr @ [l]) n'"
  using assms(1)
proof (cases rule: node_step.cases)
  case (admit rd headers offer res n1)
  from admit(3) show ?thesis
    by (cases rule: admit_offer_cases)
       (use assms(2) admit in \<open>auto simp: tasks_admitted_def after_admit_def intro: trace_mono\<close>)
next
  case (register h rd rtc res n1)
  from register(5) show ?thesis
    by (cases rule: register_offer_cases)
       (use assms(2) register set_remove1_subset [of h "nd_offers n"] in
         \<open>auto simp: tasks_admitted_def after_register_def Let_def intro: trace_mono\<close>)
next
  case (channel_open h pc dc c d)
  have "h \<in> set (admitted tr)" using assms(2) channel_open(3) by (force simp: tasks_admitted_def)
  moreover have "cc_client_id c = h_client_id h" "cc_user_address c = h_user_address h"
    using channel_open(4) by (auto simp: on_data_channel_def)
  ultimately have "was_admitted tr (cc_client_id c) (cc_user_address c)" by (auto simp: was_admitted_def)
  then show ?thesis using assms(2) unfolding channel_open by (auto simp: tasks_admitted_def intro: trace_mono)
next
  case (query_all rd headers res)
  then show ?thesis using query_frame tasks_admitted_sub [OF assms(2)] by fastforce
next
  case (query_one rd headers key res)
  then show ?thesis using query_frame tasks_admitted_sub [OF assms(2)] by fastforce
qed (simp_all add: tasks_admitted_sub [OF assms(2)] set_remove1_subset)

lemma backed_step:
  assumes "node_step E cfg n l n'" and "trace_backed E tr (sg_daemon n)" and "tasks_admitted tr n"
  shows "trace_backed E (tr @ [l]) (sg_daemon n')"
proof -
  have b: "trace_backed E (tr @ [l]) (sg_daemon n)" by (rule trace_backed_mono [OF assms(2)])
  from assms(1) show ?thesis
  proof (cases rule: node_step.cases)
    case (admit rd headers offer res n1)
    from admit(3) show ?thesis by (cases rule: admit_offer_cases) (use admit b in simp_all)
  next
    case (register h rd rtc res n1)
    have "was_admitted (tr @ [l]) (h_client_id h) (h_user_address h)"
      using assms(3) register by (auto simp: tasks_admitted_def was_admitted_def)
    then have w: "trace_backed E (tr @ [l]) (with_register (instant_now rd) h pc (sg_daemon n))" for pc
      using b by (simp add: trace_backed_def backed_with_register)
    from register(5) show ?thesis by (cases rule: register_offer_cases) (use register b w in simp_all)
  next
    case (message c rd data effs d)
    then show ?thesis using trace_backed_message [OF message(5) assms(2)] by simp
  next
    case (channel_open h pc dc c d)
    then show ?thesis using b backed_lifecycle(3) [of _ _ _ "sg_daemon n" h dc] by (simp add: trace_backed_def)
  next
    case (timeout h pc effs d)
    then show ?thesis using b backed_lifecycle(1) [of _ _ _ "sg_daemon n" "h_client_id h" pc] by (simp add: trace_backed_def)
  next
    case (tick rd effs d)
    then show ?thesis using b backed_lifecycle(5) [of _ _ _ "sg_daemon n" E rd] by (simp add: trace_backed_def)
  next
    case (query_all rd headers res)
    then show ?thesis using query_frame b by fastforce
  next
    case (query_one rd headers key res)
    then show ?thesis using query_frame b by fastforce
  qed (use b in \<open>simp_all add: trace_backed_def backed_lifecycle\<close>)
qed

lemma trace_run:
  assumes "node_run E cfg tr n"
  shows "trace_backed E tr (sg_daemon n) \<and> tasks_admitted tr n"
  using assms
proof (induction rule: node_run.induct)
  case run_init
  show ?case
    by (simp add: trace_backed_def backed_def tasks_admitted_def node_init_def ClientRegistry_new_def)
next
  case (run_step tr n l n')
  then show ?case using backed_step tasks_step by blast
qed

lemma authentic_admission:
  assumes "node_run E cfg tr n" and "Admit rd headers offer (Ok h) \<in> set tr"
  shows "\<exists>cache cache'. authenticate_offer E cfg rd headers offer cache = (Ok (h_user_address h), cache')"
  using assms
proof (induction rule: node_run.induct)
  case (run_step tr n l n')
  show ?case
  proof (cases "Admit rd headers offer (Ok h) \<in> set tr")
    case False
    then have "node_step E cfg n (Admit rd headers offer (Ok h)) n'" using run_step by auto
    then obtain n1 where "admit_offer E cfg rd headers offer n = (Ok h, n1)" by (auto elim: node_step.cases)
    then show ?thesis by (cases rule: admit_offer_cases) auto
  qed (use run_step in blast)
qed simp

section \<open>Client ids\<close>

lemma ids_run:
  assumes "node_run E cfg tr n"
  shows "map h_client_id (admitted tr) = map of_nat [0..<length (admitted tr)] \<and> sg_client_count n = of_nat (length (admitted tr))"
  using assms
proof (induction rule: node_run.induct)
  case (run_step tr n l n')
  have "(admitted_by l = None \<and> sg_client_count n' = sg_client_count n) \<or>
        (\<exists>h. admitted_by l = Some h \<and> h_client_id h = sg_client_count n \<and> sg_client_count n' = sg_client_count n + 1)"
    using run_step(2)
  proof (cases rule: node_step.cases)
    case (admit rd headers offer res n1)
    from admit(3) show ?thesis by (cases rule: admit_offer_cases) (use admit in auto)
  next
    case (register h rd rtc res n1)
    from register(5) show ?thesis by (cases rule: register_offer_cases) (use register in auto)
  next
    case (query_all rd headers res)
    then show ?thesis using query_frame by fastforce
  next
    case (query_one rd headers key res)
    then show ?thesis using query_frame by fastforce
  qed auto
  then show ?case using run_step(3) by auto
qed (simp add: node_init_def)

section \<open>An example run\<close>

text \<open>
  A node that admits anonymous clients, one at a time. Two offers are admitted before either is
  registered; then both clients register and open their channels, client 1 accepts calls of
  client 0, and client 0 sends audio. The generated addresses are those of the clock readings.
\<close>

definition cfg_open :: Configuration where
  "cfg_open = cfg_example\<lparr>server := ServerConfig_default\<lparr>max_connections := 1, allow_anonymous := True\<rparr>\<rparr>"

definition addr_x :: UserAddress where "addr_x = UserAddress_new (concat (replicate 32 ''31''))"
definition addr_y :: UserAddress where "addr_y = UserAddress_new (concat (replicate 32 ''32''))"

definition rd_x :: readings where "rd_x = \<lparr>instant_now = 0, wall_nanos = 11111111111111111111111111111111, time_counter = 0\<rparr>"
definition rd_y :: readings where "rd_y = \<lparr>instant_now = 0, wall_nanos = 22222222222222222222222222222222, time_counter = 1\<rparr>"

lemma padded_sha256: "length m \<ge> 32 \<Longrightarrow> sha256 std_crypto (m @ r) = take 32 m"
  by (simp add: std_crypto_def std_crates_def)

lemma generated_from_digits:
  assumes "show_nat nanos = replicate 32 c"
  shows "fst (generate_from_time std_crypto nanos counter) = from_bytes std_crypto (replicate 32 (of_char c))"
proof -
  have "sha256 std_crypto (as_bytes (show_nat nanos @ ''-'' @ show_nat (unat counter))) = replicate 32 (of_char c)"
    unfolding assms as_bytes_def map_append by (subst padded_sha256) simp_all
  then show ?thesis by (simp add: generate_from_time_def from_bytes_def)
qed

lemma from_bytes_xy:
  "from_bytes std_crypto (replicate 32 0x31) = addr_x" "from_bytes std_crypto (replicate 32 0x32) = addr_y"
proof -
  have p: "hex_pair 0x31 = ''31''" "hex_pair 0x32 = ''32''" by (code_simp, code_simp)
  show "from_bytes std_crypto (replicate 32 0x31) = addr_x" "from_bytes std_crypto (replicate 32 0x32) = addr_y"
    unfolding from_bytes_def addr_x_def addr_y_def UserAddress_new_def
    by (simp_all only: stdc.hex_encode_pairs map_replicate p)
qed

lemma generated_xy:
  "fst (generate_from_time std_crypto (wall_nanos rd_x) (time_counter rd_x)) = addr_x"
  "fst (generate_from_time std_crypto (wall_nanos rd_y) (time_counter rd_y)) = addr_y"
proof -
  have "show_nat (wall_nanos rd_x) = replicate 32 (CHR ''1'')" "show_nat (wall_nanos rd_y) = replicate 32 (CHR ''2'')"
  proof -
    have "replicate 32 (CHR ''1'') = ''11111111111111111111111111111111''" "replicate 32 (CHR ''2'') = ''22222222222222222222222222222222''" by (code_simp, code_simp)
    moreover have "dec_digit 1 = CHR ''1''" "dec_digit (Suc 0) = CHR ''1''" "dec_digit 2 = CHR ''2''"
      by (code_simp, code_simp, code_simp)
    ultimately show "show_nat (wall_nanos rd_x) = replicate 32 (CHR ''1'')" "show_nat (wall_nanos rd_y) = replicate 32 (CHR ''2'')"
      by (simp_all add: rd_x_def rd_y_def show_nat.simps)
  qed
  then show "fst (generate_from_time std_crypto (wall_nanos rd_x) (time_counter rd_x)) = addr_x"
    "fst (generate_from_time std_crypto (wall_nanos rd_y) (time_counter rd_y)) = addr_y"
    using generated_from_digits [of "wall_nanos rd_x" "CHR ''1''"] generated_from_digits [of "wall_nanos rd_y" "CHR ''2''"]
    by (simp_all add: from_bytes_xy)
qed

lemma canonical_xy [simp]: "canonical std_crypto addr_x" "canonical std_crypto addr_y"
  using stdc.canonical_from_bytes [of "replicate 32 0x31"] stdc.canonical_from_bytes [of "replicate 32 0x32"]
  by (simp_all add: from_bytes_xy)

lemma addr_xy_facts [simp]:
  "addr_x \<noteq> addr_y" "addr_y \<noteq> addr_x"
  "addr_id addr_x = addr_id addr_y \<longleftrightarrow> False" "addr_id addr_y = addr_id addr_x \<longleftrightarrow> False"
  "length (addr_id addr_x) = 64" "length (addr_id addr_y) = 64"
  "matches_address_prefix a addr_x \<longleftrightarrow> a = addr_x" "matches_address_prefix a addr_y \<longleftrightarrow> a = addr_y"
proof -
  have i: "addr_id addr_x = concat (replicate 32 ''31'')" "addr_id addr_y = concat (replicate 32 ''32'')"
    by (simp_all add: addr_x_def addr_y_def UserAddress_new_def)
  have e: "concat (replicate 32 ''31'') \<noteq> concat (replicate 32 ''32'')" by code_simp
  show "addr_x \<noteq> addr_y" "addr_y \<noteq> addr_x" "addr_id addr_x = addr_id addr_y \<longleftrightarrow> False" "addr_id addr_y = addr_id addr_x \<longleftrightarrow> False"
    using e e [symmetric] unfolding addr_eq_iff i by simp_all
  show l: "length (addr_id addr_x) = 64" "length (addr_id addr_y) = 64"
    unfolding i by (code_simp, code_simp)
  have "last (addr_id addr_x) \<noteq> CHR ''0''" "last (addr_id addr_y) \<noteq> CHR ''0''"
    unfolding i by (code_simp, code_simp)
  then show "matches_address_prefix a addr_x \<longleftrightarrow> a = addr_x" "matches_address_prefix a addr_y \<longleftrightarrow> a = addr_y"
    using l by (simp_all add: matches_full_address)
qed

definition h_x :: ClientConnectionHandler where "h_x = \<lparr>h_client_id = 0, h_user_address = addr_x, h_my_node_id = 7\<rparr>"
definition h_y :: ClientConnectionHandler where "h_y = \<lparr>h_client_id = 1, h_user_address = addr_y, h_my_node_id = 7\<rparr>"
definition c_x :: client_conn where "c_x = \<lparr>cc_dc = 11, cc_client_id = 0, cc_user_address = addr_x, cc_node_id = 7\<rparr>"
definition c_y :: client_conn where "c_y = \<lparr>cc_dc = 12, cc_client_id = 1, cc_user_address = addr_y, cc_node_id = 7\<rparr>"

definition reg_xy :: ClientRegistry where
  "reg_xy = ClientRegistry_new\<lparr>peer_connections := [(0, 5), (1, 5)], addresses := [(0, addr_x), (1, addr_y)],
     last_pong := [(0, 0), (1, 0)], connected_at := [(0, 0), (1, 0)]\<rparr>"

definition n_admitted :: node where "n_admitted = node_init\<lparr>sg_client_count := 2, nd_offers := [h_y, h_x]\<rparr>"

definition n_registered :: node where
  "n_registered = node_init\<lparr>sg_client_count := 2, nd_handlers := [(h_y, 5), (h_x, 5)],
     sg_daemon := \<lparr>client_registry = reg_xy, dc_limiter = DATACHANNEL_RATE_LIMITER\<rparr>\<rparr>"

lemma run_admitted:
  "node_run std_crypto cfg_open [Admit rd_x (\<lambda>_. None) offer_example (Ok h_x), Admit rd_y (\<lambda>_. None) offer_example (Ok h_y)] n_admitted"
proof -
  have a: "admit_offer std_crypto cfg_open rd (\<lambda>_. None) offer_example (node_init\<lparr>sg_client_count := k, nd_offers := os\<rparr>)
     = (Ok \<lparr>h_client_id = k, h_user_address = fst (generate_from_time std_crypto (wall_nanos rd) (time_counter rd)), h_my_node_id = 7\<rparr>,
        node_init\<lparr>sg_client_count := k + 1, nd_offers := os\<rparr>)" for rd k os
    by (simp add: admit_offer_def authenticate_offer_def auth_header_def node_init_def cfg_open_def ClientRegistry_new_def
        hm_new_def hm_len_def example_facts)
  have "node_run std_crypto cfg_open ([] @ [Admit rd_x (\<lambda>_. None) offer_example (Ok h_x)]) (node_init\<lparr>sg_client_count := 1, nd_offers := [h_x]\<rparr>)"
    using node_run.run_step [OF _ node_step.admit [OF a [where rd = rd_x and k = 0 and os = "[]"]], of "[]"] node_run.run_init [of std_crypto cfg_open]
    by (simp add: node_init_def after_admit_def h_x_def generated_xy)
  from node_run.run_step [OF this node_step.admit [OF a [where rd = rd_y and k = 1 and os = "[h_x]"]]]
  show ?thesis by (simp add: n_admitted_def after_admit_def h_y_def generated_xy)
qed

abbreviation admit_trace :: "label list" where
  "admit_trace \<equiv> [Admit rd_x (\<lambda>_. None) offer_example (Ok h_x), Admit rd_y (\<lambda>_. None) offer_example (Ok h_y)]"

abbreviation register_trace :: "label list" where
  "register_trace \<equiv> admit_trace @ [Register rd_x rtc_example h_x (Ok 5), Register rd_y rtc_example h_y (Ok 5)]"

lemma run_registered: "node_run std_crypto cfg_open register_trace n_registered"
proof -
  define d0 where "d0 = \<lparr>client_registry = ClientRegistry_new, dc_limiter = DATACHANNEL_RATE_LIMITER\<rparr>"
  define d1 where "d1 = with_register 0 h_x 5 d0"
  have d1: "d1 = \<lparr>client_registry = ClientRegistry_new\<lparr>peer_connections := [(0, 5)], addresses := [(0, addr_x)],
      last_pong := [(0, 0)], connected_at := [(0, 0)]\<rparr>, dc_limiter = DATACHANNEL_RATE_LIMITER\<rparr>"
    by (simp add: d1_def d0_def with_register_def register_client_def h_x_def ClientRegistry_new_def hm_new_def)
  have d2: "with_register 0 h_y 5 d1 = \<lparr>client_registry = reg_xy, dc_limiter = DATACHANNEL_RATE_LIMITER\<rparr>"
    unfolding d1 by (simp add: with_register_def register_client_def h_y_def ClientRegistry_new_def hm_new_def reg_xy_def)
  have r: "register_offer cfg_open rd rtc_example h n = (Ok 5, n\<lparr>sg_daemon := with_register (instant_now rd) h 5 (sg_daemon n)\<rparr>)"
    for rd h and n :: node
    by (simp add: register_offer_def example_facts)
  have "node_run std_crypto cfg_open (admit_trace @ [Register rd_x rtc_example h_x (Ok 5)])
      (n_admitted\<lparr>sg_daemon := d1, nd_offers := [h_y], nd_handlers := [(h_x, 5)]\<rparr>)"
    using node_run.run_step [OF run_admitted node_step.register [OF _ _ r [of rd_x h_x]]]
    by (simp add: n_admitted_def node_init_def rd_x_def after_register_def d1_def d0_def h_x_def h_y_def)
  from node_run.run_step [OF this node_step.register [OF _ _ r [of rd_y h_y]]]
  show ?thesis
    by (simp add: n_admitted_def node_init_def rd_y_def after_register_def d2 n_registered_def)
qed

definition reg_open :: ClientRegistry where
  "reg_open = reg_xy\<lparr>data_channels := [(0, 11), (1, 12)]\<rparr>"

definition n_open :: node where
  "n_open = n_registered\<lparr>sg_daemon := \<lparr>client_registry = reg_open, dc_limiter = DATACHANNEL_RATE_LIMITER\<rparr>, nd_conns := [c_y, c_x]\<rparr>"

abbreviation open_trace :: "label list" where
  "open_trace \<equiv> (register_trace @ [ChannelOpen c_x (on_channel_start std_crypto c_x)]) @ [ChannelOpen c_y (on_channel_start std_crypto c_y)]"

lemma run_open: "node_run std_crypto cfg_open open_trace n_open"
proof -
  have x: "on_data_channel h_x 11 (sg_daemon n_registered) =
      (c_x, \<lparr>client_registry = reg_xy\<lparr>data_channels := [(0, 11)]\<rparr>, dc_limiter = DATACHANNEL_RATE_LIMITER\<rparr>)"
    by (simp add: on_data_channel_def n_registered_def h_x_def c_x_def reg_xy_def ClientRegistry_new_def hm_new_def)
  have 1: "node_run std_crypto cfg_open (register_trace @ [ChannelOpen c_x (on_channel_start std_crypto c_x)])
      (n_registered\<lparr>sg_daemon := \<lparr>client_registry = reg_xy\<lparr>data_channels := [(0, 11)]\<rparr>, dc_limiter = DATACHANNEL_RATE_LIMITER\<rparr>, nd_conns := [c_x]\<rparr>)"
    (is "node_run _ _ _ ?n")
    using node_run.run_step [OF run_registered node_step.channel_open [OF _ x, of 5]]
    by (simp add: n_registered_def node_init_def)
  have y: "on_data_channel h_y 12 (sg_daemon ?n) =
      (c_y, \<lparr>client_registry = reg_open, dc_limiter = DATACHANNEL_RATE_LIMITER\<rparr>)"
    by (simp add: on_data_channel_def h_y_def c_y_def reg_xy_def reg_open_def ClientRegistry_new_def hm_new_def)
  show ?thesis
    using node_run.run_step [OF 1 node_step.channel_open [OF _ y, of 5]]
    by (simp add: n_open_def n_registered_def node_init_def)
qed

definition dl_y :: DataChannelRateLimiter where
  "dl_y = DATACHANNEL_RATE_LIMITER\<lparr>dc_buckets := [(1, \<lparr>tokens = 199, last_update = 0\<rparr>)]\<rparr>"

definition reg_accepted :: ClientRegistry where
  "reg_accepted = reg_open\<lparr>approved_calls := [(1, [addr_x])], targets := [(1, addr_x)]\<rparr>"

definition accept_effects :: "effect list" where
  "accept_effects = [DcSend 11 (encode std_crypto (CallAcceptedNotification addr_y))]"

abbreviation accept_trace :: "label list" where
  "accept_trace \<equiv> open_trace @ [Message rd_y c_y (encode std_crypto (CallAcceptResponse addr_x)) accept_effects]"

lemma run_accepted:
  "node_run std_crypto cfg_open accept_trace (n_open\<lparr>sg_daemon := \<lparr>client_registry = reg_accepted, dc_limiter = dl_y\<rparr>\<rparr>)"
proof -
  have dc: "dc_check_and_consume (instant_now rd_y) (cc_client_id c_y) (dc_limiter (sg_daemon n_open)) = (True, dl_y)"
    by (simp add: n_open_def fresh_limiter_accepts dl_y_def c_y_def rd_y_def)
  have "handle_call_accept_response std_crypto rd_y 1 addr_x \<lparr>client_registry = reg_open, dc_limiter = dl_y\<rparr>
      = (accept_effects, \<lparr>client_registry = reg_accepted, dc_limiter = dl_y\<rparr>)"
    by (simp add: handle_call_accept_response_def send_call_response_notification_def reg_open_def reg_xy_def reg_accepted_def
        accept_effects_def address_or_default_def mark_call_approved_def hm_or_insert_def hm_modify_def push_unless_def
        hm_contains_key_def daemon_eval)
  then have "on_message std_crypto rd_y c_y (encode std_crypto (CallAcceptResponse addr_x)) (sg_daemon n_open)
      = Some (accept_effects, \<lparr>client_registry = reg_accepted, dc_limiter = dl_y\<rparr>)"
    using on_message_dispatch [OF stdc.crate_laws_axioms _ _ dc, of "CallAcceptResponse addr_x"]
    by (simp add: c_y_def n_open_def)
  from node_run.run_step [OF run_open node_step.message [OF _ _ this]]
  show ?thesis by (simp add: n_open_def n_registered_def node_init_def rd_y_def)
qed

definition audio_xy :: AudioMessage where
  "audio_xy = \<lparr>am_sender_id = 0, am_sender_address = Some addr_x, am_target_address = addr_y, am_codec_id = CODEC_OPUS,
     am_origin_node = 7, am_ttl = DEFAULT_INITIAL_TTL, am_data = [1, 2]\<rparr>"

abbreviation audio_label :: label where
  "audio_label \<equiv> Message rd_x c_x (encode std_crypto (ClientTargetedAudio addr_y CODEC_OPUS [1, 2])) [AudioBroadcast audio_xy]"

lemma run_audio: "\<exists>n. node_run std_crypto cfg_open (accept_trace @ [audio_label]) n"
proof -
  let ?d = "\<lparr>client_registry = reg_accepted, dc_limiter = dl_y\<rparr>"
  obtain dl where dc: "dc_check_and_consume (instant_now rd_x) (cc_client_id c_x) (dc_limiter ?d) = (True, dl)"
    by (simp add: dl_y_def c_x_def rd_x_def dc_check_and_consume_def DATACHANNEL_RATE_LIMITER_def DataChannelRateLimiter_new_def
        rate_consts bucket_take_def bucket_or_full_def hm_new_def hm_get_def hm_len_def Let_def)
  have "handle_client_targeted_audio std_crypto rd_x 0 (Some addr_x) addr_y CODEC_OPUS 7 [1, 2] 11 \<lparr>client_registry = reg_accepted, dc_limiter = dl\<rparr>
      = ([AudioBroadcast audio_xy], set_target 0 addr_y \<lparr>client_registry = reg_accepted, dc_limiter = dl\<rparr>)"
    by (simp add: handle_client_targeted_audio_def route_to_client_def address_or_default_def reg_accepted_def reg_open_def
        reg_xy_def rd_x_def audio_xy_def daemon_eval)
  then have "on_message std_crypto rd_x c_x (encode std_crypto (ClientTargetedAudio addr_y CODEC_OPUS [1, 2])) ?d
      = Some ([AudioBroadcast audio_xy], set_target 0 addr_y \<lparr>client_registry = reg_accepted, dc_limiter = dl\<rparr>)"
    using on_message_dispatch [OF stdc.crate_laws_axioms _ _ dc, of "ClientTargetedAudio addr_y CODEC_OPUS [1, 2]"]
    by (simp add: c_x_def size_consts)
  then have "node_step std_crypto cfg_open (n_open\<lparr>sg_daemon := ?d\<rparr>) audio_label
      ((n_open\<lparr>sg_daemon := ?d\<rparr>)\<lparr>sg_daemon := set_target 0 addr_y \<lparr>client_registry = reg_accepted, dc_limiter = dl\<rparr>, nd_now := instant_now rd_x\<rparr>)"
    by (intro node_step.message) (simp_all add: n_open_def n_registered_def node_init_def rd_x_def)
  from node_run.run_step [OF run_accepted this] show ?thesis by blast
qed

section \<open>Properties\<close>



text \<open>C6: every address in the registry of a running node belongs to a client that was admitted, and
  when anonymous clients are not allowed, to one whose offer carried a header that verified under
  that address for the offer's own SDP text.\<close>

theorem registered_clients_authenticated:
  assumes "node_run E cfg tr n" and "hm_get (addresses (client_registry (sg_daemon n))) cid = Some a"
    and "\<not> allow_anonymous (server cfg)"
  shows "\<exists>rd headers offer h hdr cache. Admit rd headers offer (Ok h) \<in> set tr \<and> h_client_id h = cid \<and>
           auth_header headers ''x-webphone-sign'' = Some hdr \<and>
           fst (verify_any_authorization_header E (unix_secs rd) hdr (sd_sdp offer) cache) = Ok a"
proof -
  have "trace_backed E tr (sg_daemon n)" using trace_run [OF assms(1)] by simp
  then have "was_admitted tr cid a"
    using assms(2) hm_all_get [of "was_admitted tr"] by (auto simp: trace_backed_def backed_def)
  then obtain rd headers offer h where l: "Admit rd headers offer (Ok h) \<in> set tr" and h: "h_client_id h = cid" "h_user_address h = a"
    by (auto simp: was_admitted_def admitted_def List.map_filter_def elim!: admitted_by.elims)
  obtain cache cache' where auth: "authenticate_offer E cfg rd headers offer cache = (Ok a, cache')"
    using authentic_admission [OF assms(1) l] h by blast
  then show ?thesis
    using assms(3) l h
    by (cases "auth_header headers ''x-webphone-sign''")
       (auto simp: authenticate_offer_def split: sum.splits prod.splits, metis fst_conv)
qed

definition h_signed :: ClientConnectionHandler where
  "h_signed = \<lparr>h_client_id = 0, h_user_address = UserAddress_new pk_example, h_my_node_id = 7\<rparr>"

lemma run_signed:
  "\<exists>n. node_run std_crypto cfg_example
      ([Admit rd_1005 signed_headers offer_example (Ok h_signed)] @ [Register rd_1005 rtc_example h_signed (Ok 5)]) n
    \<and> hm_get (addresses (client_registry (sg_daemon n))) 0 = Some (UserAddress_new pk_example)"
proof -
  have a: "admit_offer std_crypto cfg_example rd_1005 signed_headers offer_example node_init
      = (Ok h_signed, node_init\<lparr>sg_cache := cache_example, sg_client_count := 1\<rparr>)"
    by (simp add: admit_offer_def authenticate_example node_init_def h_signed_def ClientRegistry_new_def hm_new_def hm_len_def
        example_facts)
  from node_run.run_step [OF node_run.run_init node_step.admit [OF a]]
  have 1: "node_run std_crypto cfg_example [Admit rd_1005 signed_headers offer_example (Ok h_signed)]
      (node_init\<lparr>sg_cache := cache_example, sg_client_count := 1, nd_offers := [h_signed]\<rparr>)" (is "node_run _ _ _ ?n")
    by (simp add: after_admit_def node_init_def)
  have "register_offer cfg_example rd_1005 rtc_example h_signed ?n = (Ok 5, ?n\<lparr>sg_daemon := with_register 5 h_signed 5 (sg_daemon ?n)\<rparr>)"
    by (simp add: register_offer_def example_facts)
  then have "node_step std_crypto cfg_example ?n (Register rd_1005 rtc_example h_signed (Ok 5))
      (after_register (instant_now rd_1005) h_signed (Ok 5) (?n\<lparr>sg_daemon := with_register 5 h_signed 5 (sg_daemon ?n)\<rparr>))"
    by (intro node_step.register) (simp_all add: node_init_def)
  from node_run.run_step [OF 1 this] show ?thesis
    using with_register_addresses(1) [of 5 h_signed 5 "sg_daemon ?n"] by (fastforce simp: h_signed_def)
qed

theorem registered_clients_authenticated_witness:
  "\<exists>rd headers offer h hdr cache. Admit rd headers offer (Ok h)
       \<in> set ([Admit rd_1005 signed_headers offer_example (Ok h_signed)] @ [Register rd_1005 rtc_example h_signed (Ok 5)]) \<and>
     h_client_id h = 0 \<and> auth_header headers ''x-webphone-sign'' = Some hdr \<and>
     fst (verify_any_authorization_header std_crypto (unix_secs rd) hdr (sd_sdp offer) cache) = Ok (UserAddress_new pk_example)"
proof -
  obtain n where n: "node_run std_crypto cfg_example
      ([Admit rd_1005 signed_headers offer_example (Ok h_signed)] @ [Register rd_1005 rtc_example h_signed (Ok 5)]) n"
    "hm_get (addresses (client_registry (sg_daemon n))) 0 = Some (UserAddress_new pk_example)"
    using run_signed by blast
  show ?thesis by (rule registered_clients_authenticated [OF n]) (simp add: example_facts)
qed

text \<open>no two clients admitted by a node get the same client id, up to the wrap-around of the 64-bit
  counter.\<close>

theorem client_ids_distinct:
  assumes "node_run E cfg tr n" and "length (admitted tr) \<le> 2 ^ 64"
  shows "distinct (map h_client_id (admitted tr))"
proof -
  have "inj_on (of_nat :: nat \<Rightarrow> u64) {0..<length (admitted tr)}"
    using assms(2) by (intro inj_onI) (auto simp: of_nat_eq_iff word_of_nat_eq_iff take_bit_nat_eq_self_iff unsigned_of_nat
        dest!: arg_cong [where f = unat] simp: take_bit_nat_eq_self)
  then show ?thesis using ids_run [OF assms(1)] by (simp add: distinct_map)
qed

theorem client_ids_distinct_witness: "distinct (map h_client_id (admitted register_trace)) \<and> length (admitted register_trace) = 2"
  using client_ids_distinct [OF run_registered] by (simp add: admitted_def List.map_filter_def)

text \<open>C29: the connection limit is checked when an offer is admitted and not again when its client is
  registered, so offers that overlap exceed it: this node has a limit of one connection and ends up
  with two.\<close>

theorem connection_limit_race:
  "\<exists>cfg tr n. node_run std_crypto cfg tr n \<and> max_connections (server cfg) < connections (sg_daemon n)"
proof -
  have "max_connections (server cfg_open) = 1" "connections (sg_daemon n_registered) = 2"
    by (simp_all add: cfg_open_def connections_def n_registered_def reg_xy_def hm_len_def)
  then show ?thesis using run_registered by fastforce
qed

end
