(* ===== verification/WP_Tasks.thy ===== *)
theory WP_Tasks
  imports WP_Node
begin

text \<open>
  The tasks of a daemon node at the grain of its locks. A task is a program whose atoms are the
  critical sections of the source (one acquisition of \<^verbatim>\<open>CLIENT_REGISTRY\<close>, of the limiter's or the
  anti-replay cache's mutex, or one atomic operation on \<^verbatim>\<open>CLIENT_COUNT\<close>) and the effects between them
  (data-channel sends, closed connections, broadcasts), where the task may wait. Each handler of
  \<^verbatim>\<open>connection/datachannel.rs\<close>, \<^verbatim>\<open>connection/keepalive.rs\<close> and \<^verbatim>\<open>connection/handshake.rs\<close> is written
  once more in this form; run alone, it computes the handler's function of \<open>WP_Daemon\<close> and
  \<open>WP_Signaling\<close>. A pool of tasks interleaves them section by section in any order: what one task
  has read may be out of date when it writes.
\<close>

section \<open>Tasks\<close>

datatype reply =
    NoReply
  | SdpReply "(SdpAnswerResponse, SignalingError) result"
  | AddressesReply "(UserAddress list, SignalingError) result"
  | AddressReply "(UserAddress, SignalingError) result"

text \<open>A section is given the clock reading its task made: two tasks may read the clock in one order
  and take the lock in the other, so the readings of successive sections need not be ordered.\<close>

datatype task =
    Finish reply
  | Panic
  | Emit effect task
  | Section "nat \<Rightarrow> signaling \<Rightarrow> signaling \<times> task"

text \<open>The task run alone with one clock reading: its effects, its reply and the state it leaves.\<close>

primrec run_alone :: "nat \<Rightarrow> task \<Rightarrow> signaling \<Rightarrow> (effect list \<times> reply \<times> signaling) option" where
  "run_alone now (Finish r) = (\<lambda>s. Some ([], r, s))"
| "run_alone now Panic = (\<lambda>s. None)"
| "run_alone now (Emit e t) = (\<lambda>s. map_option (apfst (Cons e)) (run_alone now t s))"
| "run_alone now (Section f) = (\<lambda>s. case map_prod id (run_alone now) (f now s) of (s', cont) \<Rightarrow> cont s')"

section \<open>Critical sections\<close>

abbreviation registry_of :: "signaling \<Rightarrow> ClientRegistry" where
  "registry_of s \<equiv> client_registry (sg_daemon s)"

definition update_daemon :: "(daemon \<Rightarrow> daemon) \<Rightarrow> signaling \<Rightarrow> signaling" where
  "update_daemon f s = s\<lparr>sg_daemon := f (sg_daemon s)\<rparr>"

definition ReadRegistry :: "(nat \<Rightarrow> ClientRegistry \<Rightarrow> 'a) \<Rightarrow> ('a \<Rightarrow> task) \<Rightarrow> task" where
  "ReadRegistry f k = Section (\<lambda>now s. (s, k (f now (registry_of s))))"

text \<open>The short-circuit \<^verbatim>\<open>c && read()\<close>: the lock is taken only when \<open>c\<close> holds.\<close>

definition ReadIf :: "bool \<Rightarrow> (nat \<Rightarrow> ClientRegistry \<Rightarrow> bool) \<Rightarrow> (bool \<Rightarrow> task) \<Rightarrow> task" where
  "ReadIf c f k = (if c then ReadRegistry f k else k False)"

definition WriteRegistry :: "(nat \<Rightarrow> ClientRegistry \<Rightarrow> 'a \<times> ClientRegistry) \<Rightarrow> ('a \<Rightarrow> task) \<Rightarrow> task" where
  "WriteRegistry f k = Section (\<lambda>now s. case f now (registry_of s) of
     (x, reg) \<Rightarrow> (update_daemon (\<lambda>d. d\<lparr>client_registry := reg\<rparr>) s, k x))"

text \<open>\<^verbatim>\<open>unregister_client\<close> and \<^verbatim>\<open>register_client\<close> take the limiter's lock while they hold the registry's.\<close>

definition Unregister :: "client_id \<Rightarrow> task \<Rightarrow> task" where
  "Unregister cid k = Section (\<lambda>now s. (update_daemon (with_unregister cid) s, k))"

definition RegisterClient :: "ClientConnectionHandler \<Rightarrow> pc_handle \<Rightarrow> task \<Rightarrow> task" where
  "RegisterClient h pc k = Section (\<lambda>now s. (update_daemon (with_register now h pc) s, k))"

definition InsertChannel :: "ClientConnectionHandler \<Rightarrow> dc_handle \<Rightarrow> (client_conn \<Rightarrow> task) \<Rightarrow> task" where
  "InsertChannel h dc k = Section (\<lambda>now s. case on_data_channel h dc (sg_daemon s) of
     (c, d) \<Rightarrow> (update_daemon (\<lambda>_. d) s, k c))"

definition ConsumeToken :: "client_id \<Rightarrow> (bool \<Rightarrow> task) \<Rightarrow> task" where
  "ConsumeToken cid k = Section (\<lambda>now s. case dc_check_and_consume now cid (dc_limiter (sg_daemon s)) of
     (ok, dl) \<Rightarrow> (update_daemon (\<lambda>d. d\<lparr>dc_limiter := dl\<rparr>) s, k ok))"

definition WithCache :: "(AntiReplayCache \<Rightarrow> 'a \<times> AntiReplayCache) \<Rightarrow> ('a \<Rightarrow> task) \<Rightarrow> task" where
  "WithCache f k = Section (\<lambda>now s. case f (sg_cache s) of (x, cache) \<Rightarrow> (s\<lparr>sg_cache := cache\<rparr>, k x))"

definition NextClientId :: "(client_id \<Rightarrow> task) \<Rightarrow> task" where
  "NextClientId k = Section (\<lambda>now s. (s\<lparr>sg_client_count := sg_client_count s + 1\<rparr>, k (sg_client_count s)))"

abbreviation done_task :: task where
  "done_task \<equiv> Finish NoReply"

lemmas section_defs = ReadRegistry_def WriteRegistry_def Unregister_def RegisterClient_def
  InsertChannel_def ConsumeToken_def WithCache_def NextClientId_def

lemma update_daemon_simps [simp]:
  "sg_daemon (update_daemon f s) = f (sg_daemon s)"
  "sg_cache (update_daemon f s) = sg_cache s" "sg_client_count (update_daemon f s) = sg_client_count s"
  "update_daemon g (update_daemon f s) = update_daemon (\<lambda>d. g (f d)) s" "update_daemon (\<lambda>d. d) s = s"
  by (simp_all add: update_daemon_def)

section \<open>The handlers as tasks\<close>

primrec emits :: "effect list \<Rightarrow> task \<Rightarrow> task" where
  "emits [] k = k"
| "emits (e # es) k = Emit e (emits es k)"

definition send_call_response_notification_task ::
    "'z wp_crates_scheme \<Rightarrow> readings \<Rightarrow> client_id \<Rightarrow> UserAddress \<Rightarrow> (UserAddress \<Rightarrow> ProtocolPacket) \<Rightarrow> task" where
  "send_call_response_notification_task E rd client_id caller_address make_packet =
     (let notify = (\<lambda>caller_dc. case caller_dc of
            None \<Rightarrow> done_task
          | Some dc \<Rightarrow> ReadRegistry (\<lambda>_ reg. address_or_default E rd (hm_get (addresses reg) client_id))
              (\<lambda>my_addr. Emit (DcSend dc (encode E (make_packet my_addr))) done_task))
      in ReadRegistry (\<lambda>_ reg. find_client_by_address reg caller_address)
           (\<lambda>search. case search of
               Found caller_cid \<Rightarrow> ReadRegistry (\<lambda>_ reg. hm_get (data_channels reg) caller_cid) notify
             | _ \<Rightarrow> notify None))"

primrec send_to_members :: "client_id list \<Rightarrow> bytes \<Rightarrow> client_id option \<Rightarrow> task \<Rightarrow> task" where
  "send_to_members [] bytes exclude_cid k = k"
| "send_to_members (member_cid # member_cids) bytes exclude_cid k =
     (if Some member_cid = exclude_cid then send_to_members member_cids bytes exclude_cid k
      else ReadRegistry (\<lambda>_ reg. hm_get (data_channels reg) member_cid)
             (\<lambda>dc. emits (case dc of Some dc \<Rightarrow> [DcSend dc bytes] | None \<Rightarrow> [])
                (send_to_members member_cids bytes exclude_cid k)))"

definition broadcast_to_room_members_task :: "UserAddress \<Rightarrow> bytes \<Rightarrow> client_id option \<Rightarrow> task \<Rightarrow> task" where
  "broadcast_to_room_members_task room_address bytes exclude_cid k =
     ReadRegistry (\<lambda>_ reg. get_room_member_ids reg room_address)
       (\<lambda>member_cids. send_to_members member_cids bytes exclude_cid k)"

definition room_speaker_task ::
    "'z wp_crates_scheme \<Rightarrow> client_id \<Rightarrow> UserAddress \<Rightarrow> real \<Rightarrow> ProtocolPacket \<Rightarrow> task" where
  "room_speaker_task E client_id room_address energy server_audio_pkt =
     WriteRegistry (\<lambda>now reg. update_speaker_energy now room_address client_id energy reg)
       (\<lambda>(is_top_k, top_speakers, speaker_list_changed).
          if \<not> is_top_k then done_task
          else broadcast_to_room_members_task room_address (encode E server_audio_pkt) (Some client_id)
                 (if speaker_list_changed \<and> top_speakers \<noteq> []
                  then broadcast_to_room_members_task room_address
                         (encode E (ActiveSpeakerNotice room_address top_speakers)) None done_task
                  else done_task))"

definition room_group_audio_task ::
    "'z wp_crates_scheme \<Rightarrow> client_id \<Rightarrow> UserAddress \<Rightarrow> u8 \<Rightarrow> bytes \<Rightarrow> task" where
  "room_group_audio_task E client_id room_address codec_id payload =
     (if MAX_MESSAGE_SIZE < length payload then done_task
      else room_speaker_task E client_id room_address (calculate_audio_energy payload)
             (RoomGroupAudio room_address codec_id payload))"

definition room_group_audio_e2ee_task ::
    "'z wp_crates_scheme \<Rightarrow> client_id \<Rightarrow> UserAddress \<Rightarrow> u8 \<Rightarrow> u8 \<Rightarrow> bytes \<Rightarrow> task" where
  "room_group_audio_e2ee_task E client_id room_address codec_id audio_energy payload =
     (if MAX_MESSAGE_SIZE < length payload then done_task
      else room_speaker_task E client_id room_address (f64_round (real (unat audio_energy) / 255))
             (RoomGroupAudioE2EE room_address codec_id audio_energy payload))"

definition notify_target_task ::
    "'z wp_crates_scheme \<Rightarrow> client_id \<Rightarrow> UserAddress \<Rightarrow> client_id \<Rightarrow> task" where
  "notify_target_task E client_id caller_user_addr target_cid =
     ReadRegistry (\<lambda>_ reg. has_been_notified reg target_cid client_id) (\<lambda>notified.
       if notified then done_task
       else WriteRegistry (\<lambda>_ reg. ((), mark_notified target_cid client_id reg)) (\<lambda>_.
              ReadRegistry (\<lambda>_ reg. hm_get (data_channels reg) target_cid) (\<lambda>target_dc.
                emits (case target_dc of
                    Some dc \<Rightarrow> [DcSend dc (encode E (CallRequest client_id caller_user_addr))]
                  | None \<Rightarrow> []) done_task)))"

definition route_task ::
    "'z wp_crates_scheme \<Rightarrow> readings \<Rightarrow> client_id \<Rightarrow> UserAddress option \<Rightarrow> UserAddress \<Rightarrow> u8 \<Rightarrow> u64 \<Rightarrow> bytes \<Rightarrow>
     dc_handle \<Rightarrow> client_id \<Rightarrow> task" where
  "route_task E rd client_id sender_addr target_address codec_id my_node_id payload dc target_cid =
     (let caller_user_addr = address_or_default E rd sender_addr;
          refuse = Emit (DcSend dc (encode E (ConnectionError target_address))) done_task
      in ReadRegistry (\<lambda>now reg. target_cid \<in> set (get_stale_clients now reg KEEP_ALIVE_TIMEOUT_SECS)) (\<lambda>is_stale.
         if is_stale then Unregister target_cid refuse
         else if target_cid = client_id then refuse
         else ReadRegistry (\<lambda>_ reg. is_call_rejected reg target_cid caller_user_addr) (\<lambda>is_rejected.
         if is_rejected then refuse
         else ReadRegistry (\<lambda>_ reg. is_client_in_same_call reg client_id target_address) (\<lambda>is_in_same_call.
              ReadRegistry (\<lambda>_ reg. case hm_get (targets reg) target_cid of
                  Some addr \<Rightarrow> matches_address_prefix addr caller_user_addr | None \<Rightarrow> False) (\<lambda>is_mutual.
              ReadIf (\<not> is_in_same_call \<and> \<not> is_mutual) (\<lambda>_ reg. is_room_or_target_full reg target_address) (\<lambda>is_full.
         if is_full then refuse
         else ReadIf (\<not> is_mutual) (\<lambda>_ reg. \<not> is_call_approved reg target_cid caller_user_addr) (\<lambda>is_unapproved.
         if is_unapproved then notify_target_task E client_id caller_user_addr target_cid
         else WriteRegistry (\<lambda>_ reg. ((), reg\<lparr>targets := hm_insert client_id target_address (targets reg)\<rparr>)) (\<lambda>_.
              if payload \<noteq> []
              then Emit (AudioBroadcast \<lparr>am_sender_id = client_id, am_sender_address = sender_addr,
                     am_target_address = target_address, am_codec_id = codec_id, am_origin_node = my_node_id,
                     am_ttl = DEFAULT_INITIAL_TTL, am_data = payload\<rparr>) done_task
              else done_task))))))))"

definition client_targeted_audio_task ::
    "'z wp_crates_scheme \<Rightarrow> readings \<Rightarrow> client_id \<Rightarrow> UserAddress option \<Rightarrow> UserAddress \<Rightarrow> u8 \<Rightarrow> u64 \<Rightarrow> bytes \<Rightarrow>
     dc_handle \<Rightarrow> task" where
  "client_targeted_audio_task E rd client_id sender_addr target_address codec_id my_node_id payload dc =
     (if MAX_MESSAGE_SIZE < length payload then done_task
      else ReadRegistry (\<lambda>_ reg. is_client_in_room reg client_id target_address) (\<lambda>in_room.
           if in_room then room_group_audio_task E client_id target_address codec_id payload
           else ReadRegistry (\<lambda>_ reg. find_client_by_address reg target_address) (\<lambda>search. case search of
               Found target_cid \<Rightarrow>
                 route_task E rd client_id sender_addr target_address codec_id my_node_id payload dc target_cid
             | _ \<Rightarrow> Emit (DcSend dc (encode E (ConnectionError target_address))) done_task)))"

definition call_accept_response_task :: "'z wp_crates_scheme \<Rightarrow> readings \<Rightarrow> client_id \<Rightarrow> UserAddress \<Rightarrow> task" where
  "call_accept_response_task E rd client_id caller_address =
     WriteRegistry (\<lambda>_ reg. ((), mark_call_approved client_id caller_address reg)) (\<lambda>_.
     WriteRegistry (\<lambda>_ reg. ((), reg\<lparr>targets := hm_or_insert client_id caller_address (targets reg)\<rparr>)) (\<lambda>_.
       send_call_response_notification_task E rd client_id caller_address CallAcceptedNotification))"

definition call_reject_response_task :: "'z wp_crates_scheme \<Rightarrow> readings \<Rightarrow> client_id \<Rightarrow> UserAddress \<Rightarrow> task" where
  "call_reject_response_task E rd client_id caller_address =
     WriteRegistry (\<lambda>_ reg. ((), mark_call_rejected client_id caller_address reg)) (\<lambda>_.
       send_call_response_notification_task E rd client_id caller_address CallRejectedNotification)"

definition call_hangup_task :: "'z wp_crates_scheme \<Rightarrow> readings \<Rightarrow> client_id \<Rightarrow> UserAddress \<Rightarrow> task" where
  "call_hangup_task E rd client_id target_address =
     WriteRegistry (\<lambda>_ reg. ((), clear_call_session client_id target_address reg)) (\<lambda>_.
       send_call_response_notification_task E rd client_id target_address CallEndedNotification)"

definition room_join_task :: "'z wp_crates_scheme \<Rightarrow> client_id \<Rightarrow> UserAddress \<Rightarrow> task" where
  "room_join_task E client_id room_address =
     WriteRegistry (\<lambda>_ reg. join_room client_id room_address reg) (\<lambda>member_count.
       broadcast_to_room_members_task room_address
         (encode E (RoomStateNotification room_address member_count)) None done_task)"

definition room_leave_task :: "'z wp_crates_scheme \<Rightarrow> client_id \<Rightarrow> UserAddress \<Rightarrow> task" where
  "room_leave_task E client_id room_address =
     WriteRegistry (\<lambda>_ reg. leave_room client_id room_address reg) (\<lambda>remaining_count.
       broadcast_to_room_members_task room_address
         (encode E (RoomStateNotification room_address remaining_count)) None done_task)"

fun dispatch_task ::
    "'z wp_crates_scheme \<Rightarrow> readings \<Rightarrow> client_id \<Rightarrow> UserAddress \<Rightarrow> u64 \<Rightarrow> ProtocolPacket \<Rightarrow> dc_handle \<Rightarrow> task" where
  "dispatch_task E rd cid addr node (ClientTargetedAudio target codec audio) dc =
     client_targeted_audio_task E rd cid (Some addr) target codec node audio dc"
| "dispatch_task E rd cid addr node (CallAcceptResponse caller) dc = call_accept_response_task E rd cid caller"
| "dispatch_task E rd cid addr node (CallRejectResponse caller) dc = call_reject_response_task E rd cid caller"
| "dispatch_task E rd cid addr node (CallHangup target) dc = call_hangup_task E rd cid target"
| "dispatch_task E rd cid addr node (RoomJoinRequest room) dc = room_join_task E cid room"
| "dispatch_task E rd cid addr node (RoomLeaveRequest room) dc = room_leave_task E cid room"
| "dispatch_task E rd cid addr node (RoomGroupAudio room codec audio) dc = room_group_audio_task E cid room codec audio"
| "dispatch_task E rd cid addr node (RoomGroupAudioE2EE room codec energy audio) dc =
     room_group_audio_e2ee_task E cid room codec energy audio"
| "dispatch_task E rd cid addr node (Pong _) dc =
     WriteRegistry (\<lambda>now reg. ((), update_last_pong now cid reg)) (\<lambda>_. done_task)"
| "dispatch_task E rd cid addr node _ dc = done_task"

definition message_task :: "'z wp_crates_scheme \<Rightarrow> readings \<Rightarrow> client_conn \<Rightarrow> bytes \<Rightarrow> task" where
  "message_task E rd c data =
     ConsumeToken (cc_client_id c) (\<lambda>ok.
       if \<not> ok then done_task
       else case decode E (wall_nanos rd) (time_counter rd) data of
           None \<Rightarrow> Panic
         | Some (Inl _) \<Rightarrow> done_task
         | Some (Inr packet) \<Rightarrow>
             if \<not> validate_packet_sender_identity packet (cc_client_id c) (cc_user_address c) then done_task
             else dispatch_task E rd (cc_client_id c) (cc_user_address c) (cc_node_id c) packet (cc_dc c))"

definition close_task :: "client_conn \<Rightarrow> task" where
  "close_task c = Unregister (cc_client_id c) done_task"

definition data_channel_task :: "'z wp_crates_scheme \<Rightarrow> ClientConnectionHandler \<Rightarrow> dc_handle \<Rightarrow> task" where
  "data_channel_task E h dc = InsertChannel h dc (\<lambda>c. emits (on_channel_start E c) done_task)"

definition state_change_task :: "ClientConnectionHandler \<Rightarrow> RTCPeerConnectionState \<Rightarrow> task" where
  "state_change_task h state =
     (if state = PcFailed \<or> state = PcClosed \<or> state = PcDisconnected
      then Unregister (h_client_id h) done_task else done_task)"

definition handshake_timeout_task :: "client_id \<Rightarrow> pc_handle \<Rightarrow> task" where
  "handshake_timeout_task client_id pc =
     ReadRegistry (\<lambda>_ reg. hm_contains_key (data_channels reg) client_id) (\<lambda>has_dc.
       if \<not> has_dc then Emit (PcClose pc) (Unregister client_id done_task) else done_task)"

primrec close_stale_task :: "client_id list \<Rightarrow> task" where
  "close_stale_task [] = done_task"
| "close_stale_task (cid # cids) =
     ReadRegistry (\<lambda>_ reg. hm_get (peer_connections reg) cid) (\<lambda>pc.
       emits (case pc of Some pc \<Rightarrow> [PcClose pc] | None \<Rightarrow> []) (Unregister cid (close_stale_task cids)))"

definition keepalive_task :: "'z wp_crates_scheme \<Rightarrow> readings \<Rightarrow> task" where
  "keepalive_task E rd =
     (let ping_bytes = encode E (Ping (of_nat (wall_nanos rd div 1000000)))
      in ReadRegistry (\<lambda>_ reg. data_channels reg) (\<lambda>channels.
           emits (map (\<lambda>(_, dc). DcSend dc ping_bytes) channels)
             (ReadRegistry (\<lambda>now reg. get_stale_clients now reg KEEP_ALIVE_TIMEOUT_SECS) close_stale_task)))"

definition sdp_offer_task ::
    "'z crypto_crates_scheme \<Rightarrow> Configuration \<Rightarrow> readings \<Rightarrow> rtc_session \<Rightarrow> HeaderMap \<Rightarrow> RTCSessionDescription \<Rightarrow> task" where
  "sdp_offer_task E cfg rd rtc headers offer =
     WithCache (authenticate_offer E cfg rd headers offer) (\<lambda>auth. case auth of
         Inl e \<Rightarrow> Finish (SdpReply (Err e))
       | Inr user_address \<Rightarrow>
           ReadRegistry (\<lambda>_ reg. hm_len (peer_connections reg)) (\<lambda>active_connections.
             if max_connections (server cfg) \<le> active_connections
             then Finish (SdpReply (Err (MaxConnectionsReached (max_connections (server cfg)))))
             else NextClientId (\<lambda>client_id.
               case rtc_build rtc (ice_servers (network cfg)) of
                 Inl e \<Rightarrow> Finish (SdpReply (Err (InternalError (''Failed to build PeerConnection: '' @ e))))
               | Inr pc \<Rightarrow>
                   RegisterClient \<lparr>h_client_id = client_id, h_user_address = user_address, h_my_node_id = node_id (mesh cfg)\<rparr> pc
                     (Finish (SdpReply (negotiate_answer rtc offer))))))"

definition list_addresses_task ::
    "'z crypto_crates_scheme \<Rightarrow> Configuration \<Rightarrow> readings \<Rightarrow> HeaderMap \<Rightarrow> task" where
  "list_addresses_task E cfg rd headers =
     WithCache (check_address_request_authorization E cfg rd headers) (\<lambda>auth. case auth of
         Inl e \<Rightarrow> Finish (AddressesReply (Err e))
       | Inr _ \<Rightarrow> ReadRegistry (\<lambda>_ reg. get_registered_addresses reg) (\<lambda>l. Finish (AddressesReply (Ok l))))"

definition resolve_address_task ::
    "'z crypto_crates_scheme \<Rightarrow> Configuration \<Rightarrow> readings \<Rightarrow> HeaderMap \<Rightarrow> string \<Rightarrow> task" where
  "resolve_address_task E cfg rd headers key =
     WithCache (check_address_request_authorization E cfg rd headers) (\<lambda>auth. case auth of
         Inl e \<Rightarrow> Finish (AddressReply (Err e))
       | Inr _ \<Rightarrow> ReadRegistry (\<lambda>_ reg. find_client_by_address reg (UserAddress_new key)) (\<lambda>search. case search of
             Found cid \<Rightarrow> ReadRegistry (\<lambda>_ reg. hm_get (addresses reg) cid) (\<lambda>addr. case addr of
                 Some a \<Rightarrow> Finish (AddressReply (Ok a))
               | None \<Rightarrow> Finish (AddressReply (Err (AddrNotFound ''Client address not found''))))
           | Ambiguous \<Rightarrow> Finish (AddressReply (Err AddressAmbiguous))
           | NotFound \<Rightarrow> Finish (AddressReply (Err (AddrNotFound ''Address prefix not found'')))))"

section \<open>Pools of tasks\<close>

text \<open>The tasks a node may start for its clients, for any client, channel, message or request. More than the source has: it handles the
  messages of one channel one after the other. The forwarding task of a channel touches no shared state, and the tasks of
  mesh peers are the subject of \<open>WP_Mesh\<close>.\<close>

inductive node_task :: "'z crypto_crates_scheme \<Rightarrow> Configuration \<Rightarrow> task \<Rightarrow> bool"
  for E :: "'z crypto_crates_scheme" and cfg :: Configuration where
  message: "node_task E cfg (message_task E rd c data)"
| close: "node_task E cfg (close_task c)"
| data_channel: "node_task E cfg (data_channel_task E h dc)"
| state_change: "node_task E cfg (state_change_task h st)"
| handshake_timeout: "node_task E cfg (handshake_timeout_task cid pc)"
| keepalive: "node_task E cfg (keepalive_task E rd)"
| sdp_offer: "node_task E cfg (sdp_offer_task E cfg rd rtc headers offer)"
| list_addresses: "node_task E cfg (list_addresses_task E cfg rd headers)"
| resolve_address: "node_task E cfg (resolve_address_task E cfg rd headers key)"

inductive pool_step :: "'z crypto_crates_scheme \<Rightarrow> Configuration \<Rightarrow> signaling \<times> task list \<Rightarrow> signaling \<times> task list \<Rightarrow> bool"
  for E :: "'z crypto_crates_scheme" and cfg :: Configuration where
  start: "node_task E cfg t \<Longrightarrow> pool_step E cfg (s, ts) (s, ts @ [t])"
| run_section: "i < length ts \<Longrightarrow> ts ! i = Section f \<Longrightarrow> f now s = (s', t) \<Longrightarrow> pool_step E cfg (s, ts) (s', ts[i := t])"
| run_emit: "i < length ts \<Longrightarrow> ts ! i = Emit e t \<Longrightarrow> pool_step E cfg (s, ts) (s, ts[i := t])"

definition shared_init :: signaling where
  "shared_init =
     \<lparr>sg_daemon = \<lparr>client_registry = ClientRegistry_new, dc_limiter = DATACHANNEL_RATE_LIMITER\<rparr>,
      sg_client_count = 0, sg_cache = AntiReplayCache_new\<rparr>"

definition pool_reaches :: "'z crypto_crates_scheme \<Rightarrow> Configuration \<Rightarrow> signaling \<Rightarrow> task list \<Rightarrow> bool" where
  "pool_reaches E cfg s ts \<longleftrightarrow> (pool_step E cfg)\<^sup>*\<^sup>* (shared_init, []) (s, ts)"


section \<open>A task alone computes its handler\<close>

lemma run_sections [simp]:
  "run_alone now (ReadRegistry f k) s = run_alone now (k (f now (registry_of s))) s"
  "run_alone now (ReadIf c g k') s = run_alone now (k' (c \<and> g now (registry_of s))) s"
  "run_alone now (WriteRegistry w k'') s =
     run_alone now (k'' (fst (w now (registry_of s)))) (update_daemon (\<lambda>d. d\<lparr>client_registry := snd (w now (registry_of s))\<rparr>) s)"
  "run_alone now (Unregister cid t) s = run_alone now t (update_daemon (with_unregister cid) s)"
  "run_alone now (RegisterClient h pc t) s = run_alone now t (update_daemon (with_register now h pc) s)"
  by (simp_all add: section_defs ReadIf_def case_prod_beta)

lemma run_sections_more [simp]:
  "run_alone now (InsertChannel h dc k) s =
     run_alone now (k (fst (on_data_channel h dc (sg_daemon s)))) (update_daemon (\<lambda>d. snd (on_data_channel h dc d)) s)"
  "run_alone now (ConsumeToken cid k') s =
     run_alone now (k' (fst (dc_check_and_consume now cid (dc_limiter (sg_daemon s)))))
       (update_daemon (\<lambda>d. d\<lparr>dc_limiter := snd (dc_check_and_consume now cid (dc_limiter d))\<rparr>) s)"
  "run_alone now (WithCache f k'') s = run_alone now (k'' (fst (f (sg_cache s)))) (s\<lparr>sg_cache := snd (f (sg_cache s))\<rparr>)"
  "run_alone now (NextClientId n) s =
     run_alone now (n (sg_client_count s)) (s\<lparr>sg_client_count := sg_client_count s + 1\<rparr>)"
  by (simp_all add: section_defs case_prod_beta update_daemon_def)

lemma run_emits [simp]: "run_alone now (emits es t) s = map_option (apfst ((@) es)) (run_alone now t s)"
  by (induction es) (simp_all add: option.map_comp apfst_compose [symmetric] comp_def apfst_def map_prod_def case_prod_beta option.map_ident_strong)

lemma run_send_to_members:
  "run_alone now (send_to_members cids bytes excl k) s =
     map_option (apfst ((@) (List.map_filter (\<lambda>m. if Some m = excl then None
        else map_option (\<lambda>dc. DcSend dc bytes) (hm_get (data_channels (registry_of s)) m)) cids))) (run_alone now k s)"
  by (induction cids)
     (auto simp: List.map_filter_simps option.map_comp option.map_ident comp_def apfst_def map_prod_def case_prod_beta
        intro: option.map_cong split: option.split)

lemma run_broadcast [simp]:
  "run_alone now (broadcast_to_room_members_task room bytes excl k) s =
     map_option (apfst ((@) (broadcast_to_room_members room bytes excl (sg_daemon s)))) (run_alone now k s)"
  by (simp add: broadcast_to_room_members_task_def broadcast_to_room_members_def run_send_to_members)

text \<open>The outcome of a handler without a reply.\<close>

definition outcome :: "effect list \<times> daemon \<Rightarrow> signaling \<Rightarrow> effect list \<times> reply \<times> signaling" where
  "outcome r s = (fst r, NoReply, update_daemon (\<lambda>_. snd r) s)"

lemma run_response [simp]:
  "run_alone now (send_call_response_notification_task E rd cid a mk) s =
     Some (send_call_response_notification E rd cid a mk (sg_daemon s), NoReply, s)"
  by (simp add: send_call_response_notification_task_def send_call_response_notification_def
      conn_find_client_by_address_def Let_def split: AddressSearchResult.split option.split)

lemma run_room_audio [simp]:
  "run_alone (instant_now rd) (room_group_audio_task E cid room codec payload) s =
     Some (outcome (handle_room_group_audio E rd cid room codec payload (sg_daemon s)) s)"
  "run_alone (instant_now rd) (room_group_audio_e2ee_task E cid room codec energy payload) s =
     Some (outcome (handle_room_group_audio_e2ee E rd cid room codec energy payload (sg_daemon s)) s)"
  by (simp_all add: room_group_audio_task_def room_group_audio_e2ee_task_def room_speaker_task_def outcome_def
      handle_room_group_audio_def handle_room_group_audio_e2ee_def process_room_speaker_update_def Let_def
      case_prod_beta update_daemon_def)

lemma run_route [simp]:
  "run_alone (instant_now rd) (route_task E rd cid sa target codec node payload dc t) s =
     Some (outcome (route_to_client E rd cid sa target codec node payload dc t (sg_daemon s)) s)"
  by (simp add: route_task_def notify_target_task_def route_to_client_def Let_def conn_defs outcome_def set_target_def
      update_daemon_def split: option.split)

lemma run_targeted_audio [simp]:
  "run_alone (instant_now rd) (client_targeted_audio_task E rd cid sa target codec node payload dc) s =
     Some (outcome (handle_client_targeted_audio E rd cid sa target codec node payload dc (sg_daemon s)) s)"
  by (simp add: client_targeted_audio_task_def handle_client_targeted_audio_def conn_defs split: AddressSearchResult.split)
     (simp add: outcome_def update_daemon_def)

lemma run_dispatch:
  "run_alone (instant_now rd) (dispatch_task E rd cid addr node packet dc) s =
     Some (outcome (dispatch_daemon_packet E rd cid addr node packet dc (sg_daemon s)) s)"
  by (cases packet)
     (simp_all add: call_accept_response_task_def call_reject_response_task_def call_hangup_task_def
      room_join_task_def room_leave_task_def handle_call_accept_response_def handle_call_reject_response_def
      handle_call_hangup_def handle_room_join_def handle_room_leave_def conn_mark_call_approved_def
      conn_mark_call_rejected_def Let_def case_prod_beta outcome_def update_daemon_def)

lemma run_message:
  "run_alone (instant_now rd) (message_task E rd c data) s =
     map_option (\<lambda>r. outcome r s) (on_message E rd c data (sg_daemon s))"
  by (simp add: message_task_def on_message_def Let_def case_prod_beta run_dispatch split: option.split sum.split)
     (simp add: outcome_def update_daemon_def)


lemma run_close_stale:
  "run_alone now (close_stale_task cids) s =
     Some (outcome (apfst (drop (length effs)) (fold close_stale_client cids (effs, sg_daemon s))) s)
   \<and> effs = take (length effs) (fst (fold close_stale_client cids (effs, sg_daemon s)))"
proof (induction cids arbitrary: s effs)
  case Nil
  then show ?case by (simp add: outcome_def update_daemon_def)
next
  case (Cons cid cids)
  define pc where "pc = (case hm_get (peer_connections (registry_of s)) cid of Some pc \<Rightarrow> [PcClose pc] | None \<Rightarrow> [])"
  have step: "close_stale_client cid (effs, sg_daemon s) = (effs @ pc, with_unregister cid (sg_daemon s))"
    by (simp add: close_stale_client_def pc_def)
  let ?r = "fold close_stale_client cids (effs @ pc, with_unregister cid (sg_daemon s))"
  note IH = Cons.IH [of "update_daemon (with_unregister cid) s" "effs @ pc", simplified]
  have eff: "fst ?r = effs @ pc @ drop (length effs + length pc) (fst ?r)"
    using IH append_take_drop_id [of "length effs + length pc" "fst ?r"] by simp
  have "drop (length effs) (fst ?r) = pc @ drop (length effs + length pc) (fst ?r)"
    by (subst eff) simp
  moreover have "take (length effs) (fst ?r) = effs" by (subst eff) simp
  ultimately show ?case
    using IH by (simp add: step outcome_def update_daemon_def flip: pc_def)
qed

lemma run_lifecycle:
  "run_alone (instant_now rd) (keepalive_task E rd) s = Some (outcome (keepalive_tick E rd (sg_daemon s)) s)"
  "run_alone now (handshake_timeout_task cid pc) s = Some (outcome (handshake_timeout cid pc (sg_daemon s)) s)"
  "run_alone now (close_task c) s = Some (outcome ([], on_close c (sg_daemon s)) s)"
  "run_alone now (state_change_task h st) s = Some (outcome ([], on_connection_state_change h st (sg_daemon s)) s)"
  "run_alone now (data_channel_task E h dc) s =
     Some (outcome (apfst (on_channel_start E) (on_data_channel h dc (sg_daemon s))) s)"
proof -
  let ?pings = "map (\<lambda>(_, dc). DcSend dc (encode E (Ping (of_nat (wall_nanos rd div 1000000))))) (data_channels (registry_of s))"
  let ?r = "fold close_stale_client (get_stale_clients (instant_now rd) (registry_of s) KEEP_ALIVE_TIMEOUT_SECS) (?pings, sg_daemon s)"
  have "?pings @ drop (length ?pings) (fst ?r) = fst ?r"
    using run_close_stale [of "instant_now rd" _ s ?pings] append_take_drop_id [of "length ?pings" "fst ?r"] by metis
  then show "run_alone (instant_now rd) (keepalive_task E rd) s = Some (outcome (keepalive_tick E rd (sg_daemon s)) s)"
    using run_close_stale [of "instant_now rd" _ s ?pings]
    by (simp add: keepalive_task_def keepalive_tick_def Let_def outcome_def)
qed (simp_all add: handshake_timeout_task_def handshake_timeout_def close_task_def on_close_def state_change_task_def
      on_connection_state_change_def data_channel_task_def outcome_def update_daemon_def)

lemma run_requests:
  "run_alone (instant_now rd) (sdp_offer_task E cfg rd rtc headers offer) s =
     (let (res, s') = handle_sdp_offer E cfg rd rtc headers offer s in Some ([], SdpReply res, s'))"
  "run_alone now (list_addresses_task E cfg rd headers) s =
     (let (res, s') = list_registered_addresses E cfg rd headers s in Some ([], AddressesReply res, s'))"
  "run_alone now (resolve_address_task E cfg rd headers key) s =
     (let (res, s') = resolve_registered_address E cfg rd headers key s in Some ([], AddressReply res, s'))"
  by (auto simp: sdp_offer_task_def handle_sdp_offer_def admit_offer_def register_offer_def list_addresses_task_def
      list_registered_addresses_def resolve_address_task_def resolve_registered_address_def conn_find_client_by_address_def
      conn_get_registered_addresses_def get_client_address_def Let_def update_daemon_def
      split: prod.splits sum.splits AddressSearchResult.splits option.splits)

section \<open>Every section keeps the invariant\<close>

definition shared_ok :: "signaling \<Rightarrow> bool" where
  "shared_ok s \<longleftrightarrow> (\<exists>t. daemon_ok t (sg_daemon s)) \<and> cache_ok (sg_cache s)"

text \<open>A task is safe when each of its sections keeps the invariant, whatever the other tasks have done
  since its last one, and it does not panic.\<close>

primrec safe :: "task \<Rightarrow> bool" where
  "safe (Finish r) = True"
| "safe Panic = False"
| "safe (Emit e t) = safe t"
| "safe (Section f) = (\<forall>now s. shared_ok s \<longrightarrow> shared_ok (fst (f now s)) \<and> snd (map_prod id safe (f now s)))"

named_theorems task_safe

lemma shared_ok_update: "shared_ok s \<Longrightarrow> (\<And>t d. daemon_ok t d \<Longrightarrow> \<exists>t'. daemon_ok t' (f d)) \<Longrightarrow> shared_ok (update_daemon f s)"
  by (auto simp: shared_ok_def)

lemma safe_ReadRegistry [task_safe]: "(\<And>x. safe (k x)) \<Longrightarrow> safe (ReadRegistry f k)"
  by (simp add: ReadRegistry_def)

lemma safe_ReadIf [task_safe]: "(\<And>x. safe (k x)) \<Longrightarrow> safe (ReadIf c f k)"
  by (simp add: ReadIf_def task_safe)

lemma safe_WriteRegistry [task_safe]:
  assumes "\<And>now reg. reg_wf reg \<Longrightarrow> reg_wf (snd (f now reg))" and "\<And>x. safe (k x)"
  shows "safe (WriteRegistry f k)"
  using assms by (auto simp: WriteRegistry_def case_prod_beta shared_ok_def daemon_ok_def)

lemma safe_Unregister [task_safe]: "safe k \<Longrightarrow> safe (Unregister cid k)"
  by (auto simp: Unregister_def intro!: shared_ok_update with_unregister_ok)

lemma safe_RegisterClient [task_safe]: "safe k \<Longrightarrow> safe (RegisterClient h pc k)"
  by (auto simp: RegisterClient_def intro!: shared_ok_update with_register_ok)

lemma safe_InsertChannel [task_safe]: "(\<And>c. safe (k c)) \<Longrightarrow> safe (InsertChannel h dc k)"
  using on_data_channel_ok by (auto simp: InsertChannel_def case_prod_beta shared_ok_def) blast

lemma safe_WithCache [task_safe]:
  "(\<And>cache. cache_ok cache \<Longrightarrow> cache_ok (snd (f cache))) \<Longrightarrow> (\<And>x. safe (k x)) \<Longrightarrow> safe (WithCache f k)"
  by (auto simp: WithCache_def case_prod_beta shared_ok_def)

lemma safe_NextClientId [task_safe]: "(\<And>x. safe (k x)) \<Longrightarrow> safe (NextClientId k)"
  by (auto simp: NextClientId_def shared_ok_def)

lemma safe_emits [simp]: "safe (emits es k) = safe k"
  by (induction es) simp_all

lemma safe_ConsumeToken [task_safe]: "(\<And>ok. safe (k ok)) \<Longrightarrow> safe (ConsumeToken cid k)"
  using dc.ok_check_any
  by (auto simp: ConsumeToken_def case_prod_beta shared_ok_def daemon_ok_def dc_ok_iff) blast

lemma safe_response: "safe (send_call_response_notification_task E rd cid a mk)"
  by (auto simp: send_call_response_notification_task_def Let_def intro!: task_safe split: AddressSearchResult.split option.split)

lemma safe_broadcast [task_safe]: "safe k \<Longrightarrow> safe (broadcast_to_room_members_task room bytes excl k)"
proof -
  assume "safe k"
  then have "safe (send_to_members cids bytes excl k)" for cids
    by (induction cids) (auto intro: task_safe)
  then show ?thesis by (auto simp: broadcast_to_room_members_task_def intro: task_safe)
qed

lemma safe_room_speaker: "safe (room_speaker_task E cid room energy pkt)"
  using update_speaker_energy_wf
  by (auto simp: room_speaker_task_def intro!: task_safe split: prod.split)

lemma safe_room_audio:
  "safe (room_group_audio_task E cid room codec payload)" "safe (room_group_audio_e2ee_task E cid room codec energy payload)"
  by (simp_all add: room_group_audio_task_def room_group_audio_e2ee_task_def safe_room_speaker)

lemma safe_route: "safe (route_task E rd cid sa target codec node payload dc t)"
  by (auto simp: route_task_def notify_target_task_def Let_def mark_ops_wf targets_wf intro!: task_safe)

lemma safe_targeted_audio: "safe (client_targeted_audio_task E rd cid sa target codec node payload dc)"
  by (auto simp: client_targeted_audio_task_def safe_room_audio safe_route intro!: task_safe split: AddressSearchResult.split)

lemma safe_dispatch: "safe (dispatch_task E rd cid addr node packet dc)"
  by (cases packet)
     (auto simp: call_accept_response_task_def call_reject_response_task_def call_hangup_task_def room_join_task_def
        room_leave_task_def safe_targeted_audio safe_room_audio safe_response mark_ops_wf targets_wf clear_call_session_wf
        join_room_snd join_room_with_limit_wf leave_room_wf intro!: task_safe)

lemma safe_message:
  assumes "crate_laws E"
  shows "safe (message_task E rd c data)"
  using crate_laws.decode_decodes_well [OF assms, of "wall_nanos rd" "time_counter rd" data]
  by (auto simp: message_task_def decodes_well_def safe_dispatch intro!: task_safe split: option.splits sum.splits)

lemma safe_close_stale: "safe (close_stale_task cids)"
  by (induction cids) (auto intro!: task_safe)

lemma check_address_cache_ok:
  "cache_ok cache \<Longrightarrow> cache_ok (snd (check_address_request_authorization E cfg rd headers cache))"
  using verify_any_cache_ok [of cache E "unix_secs rd" _ "''''"]
  by (auto simp: check_address_request_authorization_def split: option.splits sum.splits prod.splits) (metis snd_conv)+

lemma node_task_safe:
  assumes "crate_laws E" and "node_task E cfg t"
  shows "safe t"
  using assms(2)
proof cases
  case (message rd c data)
  then show ?thesis using safe_message [OF assms(1)] by simp
next
  case (sdp_offer rd rtc headers offer)
  then show ?thesis
    by (auto simp: sdp_offer_task_def authenticate_cache_ok intro!: task_safe split: sum.split)
next
  case (keepalive rd)
  then show ?thesis by (auto simp: keepalive_task_def Let_def safe_close_stale intro!: task_safe)
next
  case (list_addresses rd headers)
  then show ?thesis using check_address_cache_ok
    by (auto simp: list_addresses_task_def intro!: task_safe split: sum.split)
next
  case (resolve_address rd headers key)
  then show ?thesis using check_address_cache_ok
    by (auto simp: resolve_address_task_def intro!: task_safe split: sum.split AddressSearchResult.split option.split)
qed (auto simp: close_task_def data_channel_task_def state_change_task_def handshake_timeout_task_def intro!: task_safe)


section \<open>Reachable pools\<close>

lemma safe_run: "safe t \<Longrightarrow> shared_ok s \<Longrightarrow> \<exists>effs r s'. run_alone now t s = Some (effs, r, s') \<and> shared_ok s'"
proof (induction t arbitrary: s)
  case (Emit e t)
  then obtain effs r s' where "run_alone now t s = Some (effs, r, s') \<and> shared_ok s'" by (auto dest!: Emit.IH)
  then show ?case by simp
next
  case (Section f)
  obtain s1 t where f: "f now s = (s1, t)" by fastforce
  have "shared_ok s1 \<and> safe t" using Section.prems f by (auto dest!: spec [of _ now] spec [of _ s])
  moreover have "t \<in> Basic_BNFs.snds (f now s)" using f by simp
  ultimately show ?case using Section.IH [of "f now" "f now s" t s1] rangeI [of "f now" s] f by auto
qed simp_all

lemma pool_step_safe:
  assumes "crate_laws E" and "pool_step E cfg (s, ts) (s', ts')" and "shared_ok s" and "\<forall>t \<in> set ts. safe t"
  shows "shared_ok s' \<and> (\<forall>t \<in> set ts'. safe t)"
  using assms(2)
proof cases
  case (start t)
  then show ?thesis using assms node_task_safe [OF assms(1)] by auto
next
  case (run_section i f now t)
  then have "safe (Section f)" using assms(4) by (metis nth_mem)
  then have "shared_ok (fst (f now s)) \<and> safe (snd (f now s))" using assms(3) by simp
  then have "shared_ok s'" "safe t" using run_section by simp_all
  then show ?thesis using run_section assms(4) by (auto dest!: set_update_subset_insert [THEN subsetD])
next
  case (run_emit i e t)
  then have "safe (Emit e t)" using assms(4) by (metis nth_mem)
  then show ?thesis using run_emit assms(3,4) by (auto dest!: set_update_subset_insert [THEN subsetD])
qed

lemma shared_init_ok: "shared_ok shared_init"
  using reg_wf_new cache_ok_new by (auto simp: shared_ok_def shared_init_def daemon_ok_def dc_ok_global)

lemma pool_safe:
  assumes "crate_laws E" and "pool_reaches E cfg s ts"
  shows "shared_ok s" and "\<And>t. t \<in> set ts \<Longrightarrow> safe t"
proof -
  have "shared_ok (fst c) \<and> (\<forall>t \<in> set (snd c). safe t)" if "(pool_step E cfg)\<^sup>*\<^sup>* (shared_init, []) c" for c
    using that
  proof (induction rule: rtranclp_induct)
    case base
    then show ?case by (simp add: shared_init_ok)
  next
    case (step c c')
    then show ?case using pool_step_safe [OF assms(1), of cfg "fst c" "snd c" "fst c'" "snd c'"] by simp
  qed
  then show "shared_ok s" "\<And>t. t \<in> set ts \<Longrightarrow> safe t" using assms(2) by (force simp: pool_reaches_def)+
qed

section \<open>Properties\<close>

text \<open>C5: for every interleaving of the critical sections of any tasks a node may start for its clients, in any
  number, with any clock readings: the registry, the rate limiter and the anti-replay cache keep their
  invariants, no task has panicked, and every task under way can be run to its end from there and
  leaves the invariants in place. A message task that is not interrupted has the effects and the
  state of \<open>on_message\<close>.\<close>

theorem interleaving_invariant:
  assumes "crate_laws E" and "pool_reaches E cfg s ts"
  shows "shared_ok s \<and> Panic \<notin> set ts
         \<and> (\<forall>t \<in> set ts. \<forall>now. \<exists>effs r s'. run_alone now t s = Some (effs, r, s') \<and> shared_ok s')
         \<and> (\<forall>rd c data. run_alone (instant_now rd) (message_task E rd c data) s =
              map_option (\<lambda>(effs, d). (effs, NoReply, s\<lparr>sg_daemon := d\<rparr>)) (on_message E rd c data (sg_daemon s)))"
proof -
  have "safe t" if "t \<in> set ts" for t using pool_safe(2) [OF assms that] .
  moreover have "\<not> safe Panic" by simp
  ultimately have "Panic \<notin> set ts" "\<forall>t \<in> set ts. \<forall>now. \<exists>effs r s'. run_alone now t s = Some (effs, r, s') \<and> shared_ok s'"
    using safe_run [OF _ pool_safe(1) [OF assms]] by blast+
  then show ?thesis using pool_safe(1) [OF assms] by (simp add: run_message outcome_def update_daemon_def case_prod_unfold)
qed


text \<open>A pong in flight: the message task has passed its check when the closed connection's event unregisters
  the client; the pong is recorded nevertheless.\<close>

lemma late_pong:
  "\<exists>s ts. pool_reaches std_crypto cfg_open s ts \<and> last_pong (registry_of s) = [(0, 9)] \<and> addresses (registry_of s) = []
     \<and> done_task \<in> set ts"
proof -
  let ?m = "message_task std_crypto rd_x c_x (encode std_crypto (Pong 3))"
  let ?h = "\<lparr>h_client_id = 0, h_user_address = addr_x, h_my_node_id = 7\<rparr>"
  let ?pong = "WriteRegistry (\<lambda>now reg. ((), update_last_pong now (cc_client_id c_x) reg)) (\<lambda>_. done_task)"
  let ?s1 = "update_daemon (\<lambda>d. d\<lparr>dc_limiter := snd (dc_check_and_consume 5 0 (dc_limiter d))\<rparr>) shared_init"
  let ?s2 = "update_daemon (with_unregister 0) ?s1"
  let ?s3 = "update_daemon (\<lambda>d. d\<lparr>client_registry := update_last_pong 9 0 (client_registry d)\<rparr>) ?s2"
  let ?step = "pool_step std_crypto cfg_open"
  obtain f where f: "?m = Section f" "f 5 shared_init = (?s1, ?pong)"
    using crate_laws.decode_encode_packet [OF stdc.crate_laws_axioms, of "Pong 3"]
    by (simp add: message_task_def ConsumeToken_def case_prod_beta shared_init_def fresh_limiter_accepts update_daemon_def c_x_def)
  have "?step\<^sup>*\<^sup>* (shared_init, []) (shared_init, [?m])"
    using pool_step.start [OF node_task.message [of std_crypto cfg_open rd_x c_x], where s = shared_init and ts = "[]"]
    by (auto intro: r_into_rtranclp)
  also have "?step (shared_init, [?m]) (shared_init, [?m, state_change_task ?h PcClosed])"
    using pool_step.start [OF node_task.state_change [of std_crypto cfg_open ?h PcClosed], where s = shared_init and ts = "[?m]"] by simp
  also (rtranclp.rtrancl_into_rtrancl) have "?step (shared_init, [?m, state_change_task ?h PcClosed]) (?s1, [?pong, state_change_task ?h PcClosed])"
    using pool_step.run_section [of 0 "[?m, state_change_task ?h PcClosed]" f 5 shared_init ?s1 ?pong] f by simp
  also (rtranclp.rtrancl_into_rtrancl) have "?step (?s1, [?pong, state_change_task ?h PcClosed]) (?s2, [?pong, done_task])"
    using pool_step.run_section [of 1 "[?pong, state_change_task ?h PcClosed]" _ 7 ?s1 ?s2 done_task std_crypto cfg_open]
    by (simp add: state_change_task_def Unregister_def c_x_def)
  also (rtranclp.rtrancl_into_rtrancl) have "?step (?s2, [?pong, done_task]) (?s3, [done_task, done_task])"
    using pool_step.run_section [of 0 "[?pong, done_task]" _ 9 ?s2 ?s3 done_task std_crypto cfg_open]
    by (simp add: WriteRegistry_def c_x_def update_daemon_def)
  finally (rtranclp.rtrancl_into_rtrancl) have "pool_reaches std_crypto cfg_open ?s3 [done_task, done_task]"
    by (simp add: pool_reaches_def)
  moreover have "last_pong (registry_of ?s3) = [(0, 9)] \<and> addresses (registry_of ?s3) = []"
    by (simp add: shared_init_def update_last_pong_def client_registry_with_unregister unregister_client_def Let_def case_prod_beta
        drop_client_entries_def drop_from_rooms_def ClientRegistry_new_def hm_new_def hm_get_def hm_remove_def hm_retain_def)
  ultimately show ?thesis by force
qed

theorem interleaving_invariant_witness:
  "\<exists>s ts. pool_reaches std_crypto cfg_open s ts \<and> last_pong (registry_of s) = [(0, 9)] \<and> addresses (registry_of s) = []
     \<and> shared_ok s \<and> Panic \<notin> set ts \<and> (\<exists>effs r s'. run_alone 0 done_task s = Some (effs, r, s') \<and> shared_ok s')"
proof -
  obtain s ts where r: "pool_reaches std_crypto cfg_open s ts" "last_pong (registry_of s) = [(0, 9)]"
    "addresses (registry_of s) = []" "done_task \<in> set ts"
    using late_pong by blast
  from interleaving_invariant [OF stdc.crate_laws_axioms r(1)] r(4) have
    "shared_ok s" "Panic \<notin> set ts" "\<exists>effs r s'. run_alone 0 done_task s = Some (effs, r, s') \<and> shared_ok s'"
    by blast+
  then show ?thesis using r by blast
qed

end
