(* ===== verification/WP_Mesh.thy ===== *)
theory WP_Mesh
  imports WP_Signaling
begin

text \<open>
  The peer mesh of daemons (\<^verbatim>\<open>crates/wpdaemon/src/peer.rs\<close>): relaying of audio between nodes, the
  SDP handshake of an inbound peer and the connection to an outbound one. Results of the
  \<^verbatim>\<open>webrtc\<close>, \<^verbatim>\<open>tokio\<close> and \<^verbatim>\<open>reqwest\<close> crates are arguments. The last part follows one
  audio message through a network of nodes.
\<close>

section \<open>Relaying\<close>

text \<open>One turn of the send loop: the packet for a message of the broadcast channel, if it is sent on.\<close>

definition peer_relay_packet :: "'z wp_crates_scheme \<Rightarrow> readings \<Rightarrow> u64 \<Rightarrow> AudioMessage \<Rightarrow> ProtocolPacket option" where
  "peer_relay_packet E rd my_node_id m =
     (if am_origin_node m \<noteq> my_node_id \<and> am_ttl m = 0 then None
      else Some (PeerTargetedAudio (am_sender_id m) (am_origin_node m) (am_target_address m)
              (address_or_default E rd (am_sender_address m)) CODEC_OPUS (am_ttl m) (am_data m)))"

datatype RecvError = RecvClosed | RecvLagged u64

text \<open>The loop over what the broadcast receiver returns; each message comes with the readings of its turn
  and whether the channel would accept a send then.\<close>

fun process_peer_audio_send_loop ::
    "'z wp_crates_scheme \<Rightarrow> u64 \<Rightarrow> dc_handle \<Rightarrow> ((AudioMessage, RecvError) result \<times> readings \<times> bool) list \<Rightarrow> effect list" where
  "process_peer_audio_send_loop E my_node_id dc [] = []"
| "process_peer_audio_send_loop E my_node_id dc ((Inl _, _, _) # rest) = []"
| "process_peer_audio_send_loop E my_node_id dc ((Inr m, rd, send_ok) # rest) =
     (case peer_relay_packet E rd my_node_id m of
        None \<Rightarrow> process_peer_audio_send_loop E my_node_id dc rest
      | Some packet \<Rightarrow>
          DcSend dc (encode E packet) # (if send_ok then process_peer_audio_send_loop E my_node_id dc rest else []))"

text \<open>A message of a peer: what it puts on the broadcast channel. A decoder panic would be \<open>None\<close>.\<close>

definition handle_peer_incoming_message :: "'z wp_crates_scheme \<Rightarrow> readings \<Rightarrow> bytes \<Rightarrow> u64 \<Rightarrow> effect list option" where
  "handle_peer_incoming_message E rd msg_data my_node_id =
     (case decode E (wall_nanos rd) (time_counter rd) msg_data of
        None \<Rightarrow> None
      | Some (Inr (PeerTargetedAudio sender_id origin_node target_address sender_address codec_id ttl audio_data)) \<Rightarrow>
          if origin_node \<noteq> my_node_id \<and> 0 < ttl
          then Some [AudioBroadcast \<lparr>am_sender_id = sender_id, am_sender_address = Some sender_address,
                 am_target_address = target_address, am_codec_id = codec_id, am_origin_node = origin_node,
                 am_ttl = ttl - 1, am_data = audio_data\<rparr>]
          else Some []
      | Some _ \<Rightarrow> Some [])"

text \<open>The events of a peer's data channel, inbound or outbound: the first \<^verbatim>\<open>OnOpen\<close> starts the send loop, a message
  is handled, \<^verbatim>\<open>OnClose\<close> ends the task.\<close>

datatype DataChannelEvent = OnOpen | OnMessage readings bytes | OnClose | OtherEvent

record peer_channel =
  pch_loop_started :: bool
  pch_closed :: bool

definition on_peer_event ::
    "'z wp_crates_scheme \<Rightarrow> u64 \<Rightarrow> DataChannelEvent \<Rightarrow> peer_channel \<Rightarrow> (effect list \<times> peer_channel) option" where
  "on_peer_event E my_node_id event ch =
     (if pch_closed ch then Some ([], ch)
      else case event of
        OnOpen \<Rightarrow> Some ([], ch\<lparr>pch_loop_started := True\<rparr>)
      | OnMessage rd data \<Rightarrow> map_option (\<lambda>effs. (effs, ch)) (handle_peer_incoming_message E rd data my_node_id)
      | OnClose \<Rightarrow> Some ([], ch\<lparr>pch_closed := True\<rparr>)
      | OtherEvent \<Rightarrow> Some ([], ch))"

section \<open>Inbound peers\<close>

record mesh_node = signaling +
  peer_daemons :: "(string, pc_handle) hmap"

definition authenticate_peer ::
    "'z crypto_crates_scheme \<Rightarrow> Configuration \<Rightarrow> readings \<Rightarrow> HeaderMap \<Rightarrow> RTCSessionDescription \<Rightarrow> AntiReplayCache \<Rightarrow>
     (unit, SignalingError) result \<times> AntiReplayCache" where
  "authenticate_peer E config rd headers offer cache =
     (let hdr = auth_header headers ''x-peer-auth'' in
      case peer_secret (mesh config) of
        Some secret \<Rightarrow>
          (let is_valid = (case hdr of
                 Some h \<Rightarrow> h = secret \<or> h = ''Bearer '' @ secret \<or> h = ''WP-PeerAuth '' @ secret
               | None \<Rightarrow> False)
           in if \<not> is_valid then (Err (Unauthorized InvalidTurnSignature), cache) else (Ok (), cache))
      | None \<Rightarrow>
          (case hdr of
             Some auth_val \<Rightarrow>
               (case verify_any_authorization_header E (unix_secs rd) auth_val (sd_sdp offer) cache of
                  (Inl err, cache) \<Rightarrow> (Err (Unauthorized err), cache)
                | (Inr _, cache) \<Rightarrow> (Ok (), cache))
           | None \<Rightarrow>
               if \<not> allow_anonymous (server config) then (Err (Unauthorized MissingHeader), cache) else (Ok (), cache)))"

definition negotiate_peer_answer :: "rtc_session \<Rightarrow> RTCSessionDescription \<Rightarrow> (RTCSessionDescription, SignalingError) result" where
  "negotiate_peer_answer rtc offer =
     (case rtc_build rtc [] of
        Inl e \<Rightarrow> Err (InternalError (''Failed to create PeerConnection: '' @ e))
      | Inr _ \<Rightarrow>
     (case rtc_set_remote rtc offer of
        Inl e \<Rightarrow> Err (InvalidSdpOffer e)
      | Inr _ \<Rightarrow>
     (case rtc_create_answer rtc of
        Inl e \<Rightarrow> Err (InternalError (''Failed to create answer: '' @ e))
      | Inr answer \<Rightarrow>
     (case rtc_set_local rtc answer of
        Inl e \<Rightarrow> Err (InternalError (''Failed to set local description: '' @ e))
      | Inr _ \<Rightarrow>
     (case rtc_local_description rtc of
        None \<Rightarrow> Err (InternalError ''No local description available'')
      | Some local_desc \<Rightarrow> Ok local_desc)))))"

definition handle_peer_sdp ::
    "'z crypto_crates_scheme \<Rightarrow> Configuration \<Rightarrow> readings \<Rightarrow> rtc_session \<Rightarrow> HeaderMap \<Rightarrow> RTCSessionDescription \<Rightarrow> mesh_node \<Rightarrow>
     (RTCSessionDescription, SignalingError) result \<times> mesh_node" where
  "handle_peer_sdp E config rd rtc headers offer n =
     (case authenticate_peer E config rd headers offer (sg_cache n) of
        (Inl e, cache) \<Rightarrow> (Err e, n\<lparr>sg_cache := cache\<rparr>)
      | (Inr _, cache) \<Rightarrow>
          (let n = n\<lparr>sg_cache := cache\<rparr> in
           if max_connections (server config) \<le> hm_len (peer_connections (client_registry (sg_daemon n)))
           then (Err (MaxConnectionsReached (max_connections (server config))), n)
           else if max_mesh_peers (mesh config) \<le> hm_len (peer_daemons n)
           then (Err (MaxMeshPeersReached (max_mesh_peers (mesh config))), n)
           else (negotiate_peer_answer rtc offer, n)))"

section \<open>Outbound peers\<close>

text \<open>What the crates return while connecting: \<open>pr_post\<close> is the HTTP exchange, the response being its status, how
  that prints, and its parsed body.\<close>

record http_response =
  http_status :: nat
  http_status_text :: string
  http_json :: "(RTCSessionDescription, string) result"

record peer_session =
  pr_build :: "(pc_handle, string) result"
  pr_create_channel :: "(dc_handle, string) result"
  pr_create_offer :: "(RTCSessionDescription, string) result"
  pr_set_local :: "RTCSessionDescription \<Rightarrow> (unit, string) result"
  pr_local_description :: "RTCSessionDescription option"
  pr_post :: "string \<Rightarrow> string \<Rightarrow> RTCSessionDescription \<Rightarrow> (http_response, string) result"
  pr_set_remote :: "RTCSessionDescription \<Rightarrow> (unit, string) result"

definition peer_auth_value :: "'z crypto_crates_scheme \<Rightarrow> Configuration \<Rightarrow> u64 \<Rightarrow> bytes \<Rightarrow> string \<Rightarrow> string" where
  "peer_auth_value E config timestamp seed local_sdp =
     (case peer_secret (mesh config) of
        Some secret \<Rightarrow> ''Bearer '' @ secret
      | None \<Rightarrow> snd (build_authorization_header E timestamp (keypair_generate seed) local_sdp))"

definition connect_to_peer ::
    "'z crypto_crates_scheme \<Rightarrow> Configuration \<Rightarrow> u64 \<Rightarrow> bytes \<Rightarrow> peer_session \<Rightarrow> string \<Rightarrow> mesh_node \<Rightarrow>
     (unit, string) result \<times> mesh_node" where
  "connect_to_peer E config timestamp seed ps peer_url n =
     (let outcome =
        and_then (pr_build ps) (\<lambda>pc.
        and_then (pr_create_channel ps) (\<lambda>dc.
        and_then (pr_create_offer ps) (\<lambda>offer.
        and_then (pr_set_local ps offer) (\<lambda>_.
        and_then (case pr_local_description ps of
            Some d \<Rightarrow> Ok d | None \<Rightarrow> Err ''No local description available'') (\<lambda>local_desc.
        and_then (pr_post ps (trim_end_matches (CHR ''/'') peer_url @ ''/peer/sdp'')
            (peer_auth_value E config timestamp seed (sd_sdp local_desc)) local_desc) (\<lambda>response.
        and_then (if \<not> (200 \<le> http_status response \<and> http_status response < 300)
            then Err (''Peer returned error status: '' @ http_status_text response)
            else http_json response) (\<lambda>answer.
        and_then (pr_set_remote ps answer) (\<lambda>_. Ok pc))))))))
      in case outcome of
           Inl e \<Rightarrow> (Err e, n)
         | Inr pc \<Rightarrow> (Ok (), n\<lparr>peer_daemons := hm_insert peer_url pc (peer_daemons n)\<rparr>))"

section \<open>A message in the network\<close>

text \<open>A message that goes over a link: sent on by one node, taken up by the next.\<close>

definition peer_hop :: "'z wp_crates_scheme \<Rightarrow> readings \<Rightarrow> u64 \<Rightarrow> readings \<Rightarrow> u64 \<Rightarrow> AudioMessage \<Rightarrow> AudioMessage option" where
  "peer_hop E rd my_node_id rd' their_node_id m =
     (case peer_relay_packet E rd my_node_id m of
        None \<Rightarrow> None
      | Some packet \<Rightarrow>
          (case handle_peer_incoming_message E rd' (encode E packet) their_node_id of
             Some [AudioBroadcast m'] \<Rightarrow> Some m'
           | _ \<Rightarrow> None))"

text \<open>Node \<open>i\<close> has the id \<open>ids i\<close>; \<open>relayed E ids links src m0 k i m\<close> says that the message \<open>m0\<close> broadcast at
  \<open>src\<close> arrives at node \<open>i\<close> as \<open>m\<close> over \<open>k\<close> links.\<close>

inductive relayed ::
    "'z wp_crates_scheme \<Rightarrow> (nat \<Rightarrow> u64) \<Rightarrow> (nat \<Rightarrow> nat \<Rightarrow> bool) \<Rightarrow> nat \<Rightarrow> AudioMessage \<Rightarrow> nat \<Rightarrow> nat \<Rightarrow> AudioMessage \<Rightarrow> bool"
  for E :: "'z wp_crates_scheme" and ids :: "nat \<Rightarrow> u64" and links :: "nat \<Rightarrow> nat \<Rightarrow> bool" and src :: nat and m0 :: AudioMessage where
  here: "relayed E ids links src m0 0 src m0"
| hop: "relayed E ids links src m0 k i m \<Longrightarrow> links i j \<Longrightarrow> peer_hop E rd (ids i) rd' (ids j) m = Some m' \<Longrightarrow>
        relayed E ids links src m0 (Suc k) j m'"

inductive_cases relayed_SucE: "relayed E ids links src m0 (Suc k) j m"

text \<open>Messages the wire format can carry: what a client's packet gives.\<close>

definition wf_message :: "'z wp_crates_scheme \<Rightarrow> AudioMessage \<Rightarrow> bool" where
  "wf_message E m \<longleftrightarrow>
     (\<exists>a. am_sender_address m = Some a \<and> canonical E a) \<and> canonical E (am_target_address m)
     \<and> length (am_data m) \<le> MAX_AUDIO_PAYLOAD_SIZE"

definition hopped :: "nat \<Rightarrow> AudioMessage \<Rightarrow> AudioMessage" where
  "hopped k m = (if k = 0 then m else m\<lparr>am_codec_id := CODEC_OPUS, am_ttl := am_ttl m - of_nat k\<rparr>)"

lemma wf_message_hopped [simp]: "wf_message E (hopped k m) = wf_message E m"
  by (simp add: wf_message_def hopped_def)

lemma peer_hop_eq:
  assumes "crate_laws E" and "wf_message E m"
  shows "peer_hop E rd my rd' their m =
     (if am_origin_node m = their \<or> am_ttl m = 0 then None
      else Some (m\<lparr>am_codec_id := CODEC_OPUS, am_ttl := am_ttl m - 1\<rparr>))"
proof -
  obtain a where a: "am_sender_address m = Some a" "canonical E a" using assms(2) by (auto simp: wf_message_def)
  let ?p = "PeerTargetedAudio (am_sender_id m) (am_origin_node m) (am_target_address m) a CODEC_OPUS (am_ttl m) (am_data m)"
  have "wf_packet E ?p" using assms(2) a by (simp add: wf_message_def)
  then have d: "decode E nanos counter (encode E ?p) = Some (Ok ?p)" for nanos counter
    by (rule crate_laws.decode_encode_packet [OF assms(1)])
  have relay: "peer_relay_packet E rd my m = (if am_origin_node m \<noteq> my \<and> am_ttl m = 0 then None else Some ?p)"
    using a(1) by (simp add: peer_relay_packet_def address_or_default_def)
  have "handle_peer_incoming_message E rd' (encode E ?p) their =
      (if am_origin_node m = their \<or> am_ttl m = 0 then Some []
       else Some [AudioBroadcast (m\<lparr>am_codec_id := CODEC_OPUS, am_ttl := am_ttl m - 1\<rparr>)])"
    unfolding handle_peer_incoming_message_def d using a(1) by (auto simp: word_gt_0 intro!: AudioMessage.equality)
  then show ?thesis by (auto simp: peer_hop_def relay)
qed

lemma ttl_after_hops:
  assumes "Suc k \<le> unat (t :: u8)"
  shows "t - of_nat k \<noteq> 0" "unat (t - of_nat k) = unat t - k"
proof -
  have "k < 256" using unat_byte_less [of t] assms by linarith
  then have "unat (of_nat k :: u8) = k" by (simp add: unat_of_nat)
  then show u: "unat (t - of_nat k) = unat t - k" using assms by (subst unat_sub) (simp_all add: word_le_nat_alt)
  show "t - of_nat k \<noteq> 0"
  proof
    assume "t - of_nat k = 0"
    then show False using u assms by simp
  qed
qed

lemma relayed_sound:
  assumes "crate_laws E" and "wf_message E m0" and "relayed E ids links src m0 k i m"
  shows "k \<le> unat (am_ttl m0) \<and> m = hopped k m0 \<and>
     (\<exists>path. length path = k \<and> last (src # path) = i \<and> successively links (src # path) \<and> (\<forall>j \<in> set path. ids j \<noteq> am_origin_node m0))"
  using assms(3)
proof (induction rule: relayed.induct)
  case here
  show ?case by (simp add: hopped_def)
next
  case (hop k i m j rd rd' m')
  obtain path where path: "length path = k" "last (src # path) = i" "successively links (src # path)" "\<forall>j \<in> set path. ids j \<noteq> am_origin_node m0"
    using hop.IH by blast
  have "wf_message E m" using hop.IH assms(2) by simp
  then have h: "am_origin_node m \<noteq> ids j" "am_ttl m \<noteq> 0" "m' = m\<lparr>am_codec_id := CODEC_OPUS, am_ttl := am_ttl m - 1\<rparr>"
    using hop.hyps(3) by (auto simp: peer_hop_eq [OF assms(1)] split: if_splits)
  have m: "am_ttl m = am_ttl m0 - of_nat k" "am_origin_node m = am_origin_node m0"
    using hop.IH by (auto simp: hopped_def)
  have "k \<noteq> unat (am_ttl m0)" using h(2) m(1) by auto
  then have "Suc k \<le> unat (am_ttl m0)" using hop.IH by simp
  moreover have "m' = hopped (Suc k) m0" using h(3) hop.IH by (auto simp: hopped_def)
  moreover have "successively links (src # path @ [j])"
    using path(2,3) hop.hyps(2) by (simp add: successively_append_iff flip: append_Cons)
  ultimately show ?case
    using path h(1) m(2) by (intro conjI exI [of _ "path @ [j]"]) auto
qed

lemma relayed_complete:
  assumes "crate_laws E" and "wf_message E m0"
    and "length path \<le> unat (am_ttl m0)" and "successively links (src # path)" and "\<forall>j \<in> set path. ids j \<noteq> am_origin_node m0"
  shows "relayed E ids links src m0 (length path) (last (src # path)) (hopped (length path) m0)"
  using assms(3-5)
proof (induction path rule: rev_induct)
  case Nil
  show ?case by (simp add: hopped_def here)
next
  case (snoc j path)
  have l: "links (last (src # path)) j" "successively links (src # path)"
    using snoc.prems(2) by (simp_all add: successively_append_iff flip: append_Cons)
  have r: "relayed E ids links src m0 (length path) (last (src # path)) (hopped (length path) m0)"
    using snoc l by simp
  have t: "am_ttl (hopped (length path) m0) \<noteq> 0" "am_origin_node (hopped (length path) m0) = am_origin_node m0"
    using ttl_after_hops(1) [of "length path" "am_ttl m0"] snoc.prems(1) by (auto simp: hopped_def)
  have "peer_hop E undefined (ids (last (src # path))) undefined (ids j) (hopped (length path) m0) = Some (hopped (Suc (length path)) m0)"
    using t snoc.prems(3) assms(2) unfolding peer_hop_eq [OF assms(1), of "hopped (length path) m0", unfolded wf_message_hopped, OF assms(2)]
    by (auto simp: hopped_def algebra_simps)
  from relayed.hop [OF r l(1) this] show ?case by simp
qed

section \<open>Properties\<close>

text \<open>C8: a message travels exactly along the paths of the mesh that are no longer than its TTL and do not
  return to its origin; on arrival its TTL is lower by the length of the path, and sender, target,
  origin and audio are what was sent.\<close>

theorem mesh_relay_iff:
  assumes "crate_laws E" and "wf_message E m0"
  shows "relayed E ids links src m0 k i m \<longleftrightarrow>
     k \<le> unat (am_ttl m0) \<and> m = hopped k m0 \<and>
     (\<exists>path. length path = k \<and> last (src # path) = i \<and> successively links (src # path) \<and>
        (\<forall>j \<in> set path. ids j \<noteq> am_origin_node m0))"
  using relayed_sound [OF assms] relayed_complete [OF assms] by blast

definition msg_example :: AudioMessage where
  "msg_example = \<lparr>am_sender_id = 0, am_sender_address = Some addr_a, am_target_address = addr_b, am_codec_id = CODEC_PCM_S16LE,
     am_origin_node = 100, am_ttl = DEFAULT_INITIAL_TTL, am_data = [1, 2]\<rparr>"

lemma wf_msg_example: "wf_message std_crates msg_example"
  by (simp add: wf_message_def msg_example_def size_consts)

theorem mesh_relay_iff_witness:
  "relayed std_crates (\<lambda>i. 100 + of_nat i) (\<lambda>i j. j = Suc i) 0 msg_example 1 1 (hopped 1 msg_example)
   \<and> \<not> relayed std_crates (\<lambda>i. 100 + of_nat i) (\<lambda>i j. j = Suc i) 0 msg_example 9 9 (hopped 9 msg_example)"
proof
  show "relayed std_crates (\<lambda>i. 100 + of_nat i) (\<lambda>i j. j = Suc i) 0 msg_example 1 1 (hopped 1 msg_example)"
    unfolding mesh_relay_iff [OF std.crate_laws_axioms wf_msg_example]
    by (intro conjI exI [of _ "[1]"]) (simp_all add: msg_example_def DEFAULT_INITIAL_TTL_def)
  show "\<not> relayed std_crates (\<lambda>i. 100 + of_nat i) (\<lambda>i j. j = Suc i) 0 msg_example 9 9 (hopped 9 msg_example)"
    unfolding mesh_relay_iff [OF std.crate_laws_axioms wf_msg_example] by (simp add: msg_example_def DEFAULT_INITIAL_TTL_def)
qed

text \<open>a node sends a message on to the peer it came from as well, and nothing recognises a message that was
  seen before: two linked nodes behind the origin pass every message back and forth, so the first of
  them broadcasts a copy for every odd number of hops until the TTL is used up.\<close>

theorem mesh_duplicates:
  assumes "crate_laws E" and "wf_message E m0" and "links src b" and "links b c" and "links c b"
    and "ids b \<noteq> am_origin_node m0" and "ids c \<noteq> am_origin_node m0"
  shows "2 * n + 1 \<le> unat (am_ttl m0) \<longrightarrow> relayed E ids links src m0 (2 * n + 1) b (hopped (2 * n + 1) m0)"
proof
  assume le: "2 * n + 1 \<le> unat (am_ttl m0)"
  define path where "path = b # concat (replicate n [c, b])"
  have l: "length (concat (replicate n [c, b])) = 2 * n" by (induction n) simp_all
  have "last (b # concat (replicate n [c, b])) = b" by (induction n) simp_all
  moreover have "successively links (b # concat (replicate n [c, b]))" using assms(4,5) by (induction n) simp_all
  ultimately have "successively links (src # path)" "last (src # path) = b" using assms(3) by (simp_all add: path_def)
  moreover have "\<forall>j \<in> set path. ids j \<noteq> am_origin_node m0" using assms(6,7) by (auto simp: path_def)
  ultimately show "relayed E ids links src m0 (2 * n + 1) b (hopped (2 * n + 1) m0)"
    using relayed_complete [OF assms(1,2), of path links src ids] le by (simp add: path_def l)
qed

theorem mesh_duplicates_witness:
  "relayed std_crates (\<lambda>i. 100 + of_nat i) (\<lambda>i j. j = Suc i \<or> i = Suc j) 0 msg_example 7 1 (hopped 7 msg_example)"
  using mesh_duplicates [OF std.crate_laws_axioms wf_msg_example, of "\<lambda>i j. j = Suc i \<or> i = Suc j" 0 1 2 "\<lambda>i. 100 + of_nat i" 3]
  by (simp add: msg_example_def DEFAULT_INITIAL_TTL_def)

text \<open>every message that passes through the mesh arrives labelled as Opus audio, whatever its codec.\<close>

theorem mesh_relabels_codec:
  assumes "crate_laws E" and "wf_message E m0" and "relayed E ids links src m0 (Suc k) i m"
  shows "am_codec_id m = CODEC_OPUS \<and> am_data m = am_data m0"
  using relayed_sound [OF assms] by (simp add: hopped_def)

theorem mesh_relabels_codec_witness:
  "am_codec_id (hopped 1 msg_example) = CODEC_OPUS \<and> am_codec_id msg_example \<noteq> CODEC_OPUS"
proof -
  have "relayed std_crates (\<lambda>i. 100 + of_nat i) (\<lambda>i j. j = Suc i) 0 msg_example (Suc 0) 1 (hopped 1 msg_example)"
    using relayed_complete [OF std.crate_laws_axioms wf_msg_example, of "[1]" "\<lambda>i j. j = Suc i" 0 "\<lambda>i. 100 + of_nat i"]
    by (simp add: msg_example_def DEFAULT_INITIAL_TTL_def)
  from mesh_relabels_codec [OF std.crate_laws_axioms wf_msg_example this] show ?thesis
    by (simp add: msg_example_def CODEC_OPUS_def CODEC_PCM_S16LE_def)
qed

text \<open>C30: an inbound peer is answered only if it presents the configured secret, or, where none is
  configured, a header that verifies for its offer, or, where none is configured and anonymous requests are allowed,
  no header at all.\<close>

theorem peer_sdp_authenticated:
  assumes "handle_peer_sdp E cfg rd rtc headers offer n = (Ok answer, n')"
  shows "(\<exists>secret hdr. peer_secret (mesh cfg) = Some secret \<and> auth_header headers ''x-peer-auth'' = Some hdr
            \<and> hdr \<in> {secret, ''Bearer '' @ secret, ''WP-PeerAuth '' @ secret}) \<or>
         (peer_secret (mesh cfg) = None \<and> (\<exists>hdr a. auth_header headers ''x-peer-auth'' = Some hdr
            \<and> fst (verify_any_authorization_header E (unix_secs rd) hdr (sd_sdp offer) (sg_cache n)) = Ok a)) \<or>
         (peer_secret (mesh cfg) = None \<and> auth_header headers ''x-peer-auth'' = None \<and> allow_anonymous (server cfg))"
  using assms
  by (auto simp: handle_peer_sdp_def authenticate_peer_def Let_def split: prod.splits sum.splits option.splits if_splits)

definition mesh_example :: mesh_node where
  "mesh_example = \<lparr>sg_daemon = approved_example, sg_client_count = 3, sg_cache = AntiReplayCache_new, peer_daemons = hm_new\<rparr>"

definition cfg_secret :: Configuration where
  "cfg_secret = cfg_example\<lparr>mesh := (mesh cfg_example)\<lparr>peer_secret := Some ''s3cret''\<rparr>\<rparr>"

lemma peer_sdp_example:
  "handle_peer_sdp std_crypto cfg_secret rd_example rtc_example [''x-peer-auth'' \<mapsto> Some ''Bearer s3cret''] offer_example mesh_example
     = (Ok \<lparr>sd_type = ''answer'', sd_sdp = ''v=0''\<rparr>, mesh_example)"
proof -
  have "authenticate_peer std_crypto cfg_secret rd_example [''x-peer-auth'' \<mapsto> Some ''Bearer s3cret''] offer_example c = (Ok (), c)" for c
    by (simp add: authenticate_peer_def auth_header_def cfg_secret_def)
  moreover have "max_connections (server cfg_secret) = 1000" "max_mesh_peers (mesh cfg_secret) = 16"
    "hm_len (peer_connections (client_registry (sg_daemon mesh_example))) = 0" "hm_len (peer_daemons mesh_example) = 0"
    by (simp_all add: cfg_secret_def cfg_example_def ServerConfig_default_def default_max_connections_def MeshConfig_default_def
        default_max_mesh_peers_def mesh_example_def hm_len_def hm_new_def example_facts [unfolded hm_len_def])
  ultimately show ?thesis
    by (simp add: handle_peer_sdp_def negotiate_peer_answer_def) (simp add: rtc_example_def)
qed

theorem peer_sdp_authenticated_witness:
  "\<exists>secret hdr. peer_secret (mesh cfg_secret) = Some secret \<and> hdr \<in> {secret, ''Bearer '' @ secret, ''WP-PeerAuth '' @ secret}"
  using peer_sdp_authenticated [OF peer_sdp_example] by (auto simp: cfg_secret_def)

text \<open>an inbound handshake is not counted: it leaves the table of peers and the connections as they were,
  so the limits that admitted one inbound peer admit every further one, while an outbound connection is
  entered in the table whatever the limit says.\<close>

theorem inbound_peers_not_counted:
  "peer_daemons (snd (handle_peer_sdp E cfg rd rtc headers offer n)) = peer_daemons n \<and>
   sg_daemon (snd (handle_peer_sdp E cfg rd rtc headers offer n)) = sg_daemon n \<and>
   peer_daemons (snd (connect_to_peer E cfg t seed ps url n)) =
     (case pr_build ps of
        Inr pc \<Rightarrow> if fst (connect_to_peer E cfg t seed ps url n) = Ok () then hm_insert url pc (peer_daemons n) else peer_daemons n
      | Inl _ \<Rightarrow> peer_daemons n)"
  by (auto simp: handle_peer_sdp_def connect_to_peer_def Let_def and_then_Ok split: prod.splits sum.splits)

text \<open>the relay to a peer stops for good at the first error of the broadcast receiver, also when it has only
  fallen behind: nothing that is broadcast later is sent on.\<close>

theorem relay_ends_on_lag:
  "process_peer_audio_send_loop E node dc (before @ (Inl (RecvLagged skipped), rd, ok) # later)
     = process_peer_audio_send_loop E node dc before"
  by (induction E node dc before rule: process_peer_audio_send_loop.induct) (simp_all split: option.split)

text \<open>audio for a client that is not connected to the same node never enters the mesh: the caller gets a
  connection error and nothing is broadcast.\<close>

theorem remote_target_not_relayed:
  assumes "find_client_by_address (client_registry d) target = NotFound" and "length audio \<le> MAX_MESSAGE_SIZE"
    and "\<not> is_client_in_room (client_registry d) cid target"
  shows "handle_client_targeted_audio E rd cid sender target codec node audio dc d
           = ([DcSend dc (encode E (ConnectionError target))], d)"
  using assms by (simp add: handle_client_targeted_audio_def conn_defs)

theorem remote_target_not_relayed_witness:
  "handle_client_targeted_audio std_crates rd_example 1 (Some addr_a) (UserAddress_new (replicate 64 (CHR ''c''))) CODEC_OPUS 77 [1] 11 approved_example
     = ([DcSend 11 (encode std_crates (ConnectionError (UserAddress_new (replicate 64 (CHR ''c'')))))], approved_example)"
proof (rule remote_target_not_relayed)
  have m: "matches_address_prefix a (UserAddress_new (replicate 64 (CHR ''c''))) \<longleftrightarrow> a = UserAddress_new (replicate 64 (CHR ''c''))" for a
    by (rule matches_full_address) (simp_all add: UserAddress_new_def)
  have n: "addr_a \<noteq> UserAddress_new (replicate 64 (CHR ''c''))" "addr_b \<noteq> UserAddress_new (replicate 64 (CHR ''c''))"
    by (simp_all add: addr_a_def addr_b_def UserAddress_new_def)
  show "find_client_by_address (client_registry approved_example) (UserAddress_new (replicate 64 (CHR ''c''))) = NotFound"
    by (simp add: approved_example_def find_client_by_address_def m n)
  show "\<not> is_client_in_room (client_registry approved_example) 1 (UserAddress_new (replicate 64 (CHR ''c'')))"
    by (simp add: approved_example_def is_client_in_room_def hm_get_def ClientRegistry_new_def hm_new_def m n)
qed (simp add: MAX_MESSAGE_SIZE_def)

text \<open>client ids are per node, but the forwarding task compares them across nodes: audio from another node
  whose sender has the number of a local client is never delivered to that client.\<close>

theorem remote_sender_collision:
  assumes "handle_peer_incoming_message E rd data my_node = Some effs" and "AudioBroadcast m \<in> set effs"
    and "am_sender_id m = cc_client_id c"
  shows "am_origin_node m \<noteq> my_node \<and> forward_audio E rd' c m = []"
  using assms
  by (auto simp: handle_peer_incoming_message_def forward_audio_def split: option.splits sum.splits ProtocolPacket.splits if_splits)

theorem remote_sender_collision_witness:
  "forward_audio std_crates rd_example (conn_example\<lparr>cc_user_address := addr_b, cc_client_id := 0\<rparr>) (hopped 1 msg_example) = []"
proof -
  have p: "wf_packet std_crates (PeerTargetedAudio 0 100 addr_b addr_a CODEC_OPUS 8 [1, 2])" by (simp add: size_consts)
  have "handle_peer_incoming_message std_crates rd_example (encode std_crates (PeerTargetedAudio 0 100 addr_b addr_a CODEC_OPUS 8 [1, 2])) 7
      = Some [AudioBroadcast (hopped 1 msg_example)]"
    unfolding handle_peer_incoming_message_def std.decode_encode_packet [OF p]
    by (simp add: hopped_def msg_example_def DEFAULT_INITIAL_TTL_def)
  from remote_sender_collision [OF this] show ?thesis by (simp add: hopped_def msg_example_def)
qed

end
