(* ===== verification/WP_RingBuffer.thy ===== *)
theory WP_RingBuffer
  imports WP_Prelude
begin

text \<open>
  The lock-free ring buffer of the audio player (\<^verbatim>\<open>crates/wpapi/src/audio/buffer.rs\<close>). A sample is
  its 32 bits, \<^verbatim>\<open>usize\<close> is 64 bits wide and the two counters wrap around. The locale
  \<open>bounded_queue\<close> is what the player relies on: a FIFO queue of bounded length; the ring buffer is
  an interpretation of it. The last part is about the compare-and-exchange loop of \<^verbatim>\<open>cap_latency\<close>
  running beside a consumer.
\<close>

section \<open>The buffer\<close>

type_synonym sample = u32
type_synonym usize = u64

record AudioRingBuffer =
  buffer :: "sample list"
  capacity :: usize
  mask :: usize
  head :: usize
  tail :: usize

text \<open>\<^verbatim>\<open>usize::next_power_of_two\<close>, searched from \<open>k\<close> upwards.\<close>

function power_of_two_from :: "nat \<Rightarrow> nat \<Rightarrow> nat" where
  "power_of_two_from k n = (if n \<le> k \<or> k = 0 then k else power_of_two_from (2 * k) n)"
  by auto
termination by (relation "measure (\<lambda>(k, n). n - k)") auto

declare power_of_two_from.simps [simp del]

definition next_power_of_two :: "nat \<Rightarrow> nat" where
  "next_power_of_two n = power_of_two_from 1 n"

text \<open>\<^verbatim>\<open>new\<close> panics when the next power of two is not a \<^verbatim>\<open>usize\<close>.\<close>

definition AudioRingBuffer_new :: "nat \<Rightarrow> AudioRingBuffer option" where
  "AudioRingBuffer_new requested_capacity =
     (if 2 ^ 63 < requested_capacity then None
      else (let cap = max (next_power_of_two requested_capacity) 1024
            in Some \<lparr>buffer = replicate cap 0, capacity = of_nat cap, mask = of_nat cap - 1, head = 0, tail = 0\<rparr>))"

definition default_capacity :: "AudioRingBuffer option" where
  "default_capacity = AudioRingBuffer_new 65536"

definition rb_len :: "AudioRingBuffer \<Rightarrow> usize" where
  "rb_len rb = head rb - tail rb"

definition rb_is_empty :: "AudioRingBuffer \<Rightarrow> bool" where
  "rb_is_empty rb \<longleftrightarrow> rb_len rb = 0"

definition slot :: "AudioRingBuffer \<Rightarrow> usize \<Rightarrow> nat" where
  "slot rb i = unat (and i (mask rb))"

definition rb_push :: "sample \<Rightarrow> AudioRingBuffer \<Rightarrow> bool \<times> AudioRingBuffer" where
  "rb_push sample rb =
     (if capacity rb \<le> head rb - tail rb then (False, rb)
      else (True, rb\<lparr>buffer := (buffer rb)[slot rb (head rb) := sample], head := head rb + 1\<rparr>))"

text \<open>\<^verbatim>\<open>pop\<close> when no other thread is between its steps: the exchange of its loop succeeds at once.\<close>

definition rb_pop :: "AudioRingBuffer \<Rightarrow> sample option \<times> AudioRingBuffer" where
  "rb_pop rb =
     (if tail rb = head rb then (None, rb)
      else (Some (buffer rb ! slot rb (tail rb)), rb\<lparr>tail := tail rb + 1\<rparr>))"

definition rb_clear :: "AudioRingBuffer \<Rightarrow> AudioRingBuffer" where
  "rb_clear rb = rb\<lparr>tail := head rb\<rparr>"

definition saturating_sub :: "usize \<Rightarrow> usize \<Rightarrow> usize" where
  "saturating_sub a b = (if a < b then 0 else a - b)"

text \<open>\<^verbatim>\<open>cap_latency\<close>, likewise: uncontended, its exchange succeeds at once; \<open>rb_step\<close> below has the loop beside other threads.\<close>

definition cap_latency :: "usize \<Rightarrow> usize \<Rightarrow> AudioRingBuffer \<Rightarrow> AudioRingBuffer" where
  "cap_latency max_samples target_samples rb =
     (let current_len = rb_len rb in
      if max_samples < current_len
      then (let drop_count = saturating_sub current_len target_samples
            in rb\<lparr>tail := tail rb + drop_count\<rparr>)
      else rb)"

definition push_slice :: "sample list \<Rightarrow> AudioRingBuffer \<Rightarrow> AudioRingBuffer" where
  "push_slice samples rb = cap_latency 4800 1920 (fold (\<lambda>s rb. snd (rb_push s rb)) samples rb)"

section \<open>Bounded queues\<close>

locale bounded_queue =
  fixes inv :: "'q \<Rightarrow> bool" and contents :: "'q \<Rightarrow> 'a list" and limit :: "'q \<Rightarrow> nat"
    and push :: "'a \<Rightarrow> 'q \<Rightarrow> bool \<times> 'q" and pop :: "'q \<Rightarrow> 'a option \<times> 'q"
  assumes contents_limit: "inv q \<Longrightarrow> length (contents q) \<le> limit q"
    and push_inv: "inv q \<Longrightarrow> inv (snd (push x q))"
    and push_limit: "inv q \<Longrightarrow> limit (snd (push x q)) = limit q"
    and push_contents: "inv q \<Longrightarrow>
      push x q = (length (contents q) < limit q, snd (push x q)) \<and>
      contents (snd (push x q)) = (if length (contents q) < limit q then contents q @ [x] else contents q)"
    and pop_inv: "inv q \<Longrightarrow> inv (snd (pop q))"
    and pop_contents: "inv q \<Longrightarrow>
      (case contents q of [] \<Rightarrow> pop q = (None, q) | x # xs \<Rightarrow> fst (pop q) = Some x \<and> contents (snd (pop q)) = xs)"
begin

definition push_all :: "'a list \<Rightarrow> 'q \<Rightarrow> 'q" where
  "push_all xs q = fold (\<lambda>x q. snd (push x q)) xs q"

primrec pop_n :: "nat \<Rightarrow> 'q \<Rightarrow> 'a list \<times> 'q" where
  "pop_n 0 q = ([], q)"
| "pop_n (Suc n) q =
     (case pop q of (None, q) \<Rightarrow> ([], q) | (Some x, q) \<Rightarrow> (let (xs, q) = pop_n n q in (x # xs, q)))"

lemma push_all_contents:
  assumes "inv q"
  shows "inv (push_all xs q) \<and> limit (push_all xs q) = limit q \<and>
         contents (push_all xs q) = contents q @ take (limit q - length (contents q)) xs"
  using assms
proof (induction xs arbitrary: q)
  case (Cons x xs)
  let ?q = "snd (push x q)"
  have step: "push_all (x # xs) q = push_all xs ?q" by (simp add: push_all_def)
  have IH: "inv (push_all xs ?q) \<and> limit (push_all xs ?q) = limit ?q \<and>
      contents (push_all xs ?q) = contents ?q @ take (limit ?q - length (contents ?q)) xs"
    by (rule Cons.IH) (rule push_inv [OF Cons.prems])
  show ?case
  proof (cases "length (contents q) < limit q")
    case True
    then have "limit q - length (contents q) = Suc (limit q - Suc (length (contents q)))" by simp
    then show ?thesis using IH step True push_contents [OF Cons.prems, of x] push_limit [OF Cons.prems] by simp
  next
    case False
    then have "limit q - length (contents q) = 0" by simp
    then show ?thesis using IH step False push_contents [OF Cons.prems, of x] push_limit [OF Cons.prems] by simp
  qed
qed (simp add: push_all_def)

lemma pop_n_contents:
  assumes "inv q"
  shows "inv (snd (pop_n n q)) \<and> fst (pop_n n q) = take n (contents q) \<and> contents (snd (pop_n n q)) = drop n (contents q)"
  using assms
proof (induction n arbitrary: q)
  case (Suc n)
  show ?case
  proof (cases "contents q")
    case Nil
    then show ?thesis using pop_contents [OF Suc.prems] Suc.prems by simp
  next
    case (Cons x xs)
    then obtain q' where q': "pop q = (Some x, q')" "contents q' = xs"
      using pop_contents [OF Suc.prems] by (cases "pop q") auto
    have "inv q'" using pop_inv [OF Suc.prems] q' by simp
    from Suc.IH [OF this] show ?thesis using Cons q' by (simp add: case_prod_beta Let_def)
  qed
qed simp

lemma fifo:
  assumes "inv q" and "length (contents q) + length xs \<le> limit q"
  shows "fst (pop_n (length (contents q) + length xs) (push_all xs q)) = contents q @ xs"
  using push_all_contents [OF assms(1), of xs] pop_n_contents [of "push_all xs q"] assms(2) by simp

end

section \<open>The ring buffer is a bounded queue\<close>

definition rb_ok :: "AudioRingBuffer \<Rightarrow> bool" where
  "rb_ok rb \<longleftrightarrow>
     (\<exists>k \<le> 63. capacity rb = 2 ^ k \<and> mask rb = 2 ^ k - 1 \<and> length (buffer rb) = 2 ^ k) \<and> rb_len rb \<le> capacity rb"

definition rb_contents :: "AudioRingBuffer \<Rightarrow> sample list" where
  "rb_contents rb = map (\<lambda>i. buffer rb ! slot rb (tail rb + of_nat i)) [0..<unat (rb_len rb)]"

lemma slot_mod:
  assumes "rb_ok rb"
  shows "slot rb i = unat i mod length (buffer rb)" "length (buffer rb) = unat (capacity rb)"
    "length (buffer rb) dvd 2 ^ 64" "0 < length (buffer rb)"
proof -
  obtain k where k: "k \<le> 63" "capacity rb = 2 ^ k" "mask rb = 2 ^ k - 1" "length (buffer rb) = 2 ^ k"
    using assms by (auto simp: rb_ok_def)
  have "and i (2 ^ k - 1 :: usize) = take_bit k i" by (simp add: take_bit_eq_mask mask_eq_exp_minus_1)
  moreover have "unat (take_bit k i) = unat i mod 2 ^ k" unfolding unsigned_take_bit_eq by (simp add: take_bit_eq_mod)
  ultimately show "slot rb i = unat i mod length (buffer rb)" using k by (simp add: slot_def)
  have "(2 :: nat) ^ k < 2 ^ 64" using k(1) by (intro power_strict_increasing) simp_all
  then have "unat (of_nat (2 ^ k) :: usize) = 2 ^ k" unfolding unat_of_nat by simp
  then have "unat (2 ^ k :: usize) = 2 ^ k" by simp
  then show "length (buffer rb) = unat (capacity rb)" using k by simp
  show "length (buffer rb) dvd 2 ^ 64" using k le_imp_power_dvd [of k 64 "2 :: nat"] by simp
  show "0 < length (buffer rb)" using k by simp
qed

lemma slot_offset:
  assumes "rb_ok rb"
  shows "slot rb (t + of_nat i) = (unat t + i) mod length (buffer rb)"
proof -
  have "unat (t + of_nat i) = (unat t + i) mod 2 ^ 64"
    by (simp add: unat_word_ariths unat_of_nat mod_add_right_eq)
  then show ?thesis using slot_mod [OF assms] by (simp add: mod_mod_cancel)
qed

lemma slot_offset_inj:
  assumes "rb_ok rb" and "i < length (buffer rb)" and "j < length (buffer rb)"
  shows "slot rb (t + of_nat i) = slot rb (t + of_nat j) \<longleftrightarrow> i = j"
proof -
  have *: "a = b" if "a \<le> b" "b < length (buffer rb)" "(unat t + a) mod length (buffer rb) = (unat t + b) mod length (buffer rb)" for a b
  proof -
    have "length (buffer rb) dvd (unat t + b) - (unat t + a)"
      using that mod_eq_dvd_iff_nat [of "unat t + a" "unat t + b" "length (buffer rb)"] by simp
    then show ?thesis using that by (auto dest: dvd_imp_le)
  qed
  show ?thesis
    unfolding slot_offset [OF assms(1)] using * [of i j] * [of j i] assms(2,3) by (metis nat_le_linear)
qed

lemma length_rb_contents [simp]: "length (rb_contents rb) = unat (rb_len rb)"
  by (simp add: rb_contents_def)

lemma rb_len_simps:
  "rb_len (rb\<lparr>buffer := b, head := head rb + 1\<rparr>) = rb_len rb + 1"
  "rb_len (rb\<lparr>tail := tail rb + n\<rparr>) = rb_len rb - n"
  by (simp_all add: rb_len_def)

lemma slot_update [simp]: "slot (rb\<lparr>buffer := b\<rparr>) i = slot rb i" "slot (rb\<lparr>head := h\<rparr>) i = slot rb i" "slot (rb\<lparr>tail := t\<rparr>) i = slot rb i"
  by (simp_all add: slot_def)

lemma rb_push_cases:
  assumes "rb_ok rb"
  shows "rb_push x rb = (unat (rb_len rb) < length (buffer rb), snd (rb_push x rb)) \<and> rb_ok (snd (rb_push x rb)) \<and>
    length (buffer (snd (rb_push x rb))) = length (buffer rb) \<and>
    rb_contents (snd (rb_push x rb)) = (if unat (rb_len rb) < length (buffer rb) then rb_contents rb @ [x] else rb_contents rb)"
proof (cases "capacity rb \<le> rb_len rb")
  case True
  then have "\<not> unat (rb_len rb) < length (buffer rb)" using slot_mod(2) [OF assms] by (simp add: word_le_nat_alt)
  then show ?thesis using True assms by (simp add: rb_push_def rb_len_def)
next
  case False
  define n where "n = unat (rb_len rb)"
  define rb' where "rb' = rb\<lparr>buffer := (buffer rb)[slot rb (head rb) := x], head := head rb + 1\<rparr>"
  have push: "rb_push x rb = (True, rb')" using False by (simp add: rb_push_def rb'_def rb_len_def)
  have n: "n < length (buffer rb)" using False slot_mod(2) [OF assms] by (simp add: word_le_nat_alt n_def)
  have head: "head rb = tail rb + of_nat n" by (simp add: n_def rb_len_def)
  have "length (buffer rb) \<le> 2 ^ 63" using assms power_increasing [of _ 63 "2 :: nat"] by (auto simp: rb_ok_def)
  then have len': "unat (rb_len rb') = Suc n" using n
    by (simp add: rb'_def rb_len_simps n_def unat_word_ariths)
  have "rb_ok rb'"
    using assms n len' slot_mod(2) [OF assms] by (auto simp: rb_ok_def rb'_def word_le_nat_alt)
  moreover have "rb_contents rb' = rb_contents rb @ [x]"
  proof (rule nth_equalityI)
    show "length (rb_contents rb') = length (rb_contents rb @ [x])" using len' by (simp add: n_def)
    fix i assume "i < length (rb_contents rb')"
    then have i: "i < Suc n" using len' by simp
    have "rb_contents rb' ! i = (buffer rb)[slot rb (head rb) := x] ! slot rb (tail rb + of_nat i)"
      using i len' by (simp add: rb_contents_def rb'_def del: upt_Suc)
    also have "\<dots> = (rb_contents rb @ [x]) ! i"
    proof (cases "i = n")
      case True
      have "slot rb (head rb) < length (buffer rb)" using slot_mod [OF assms] by simp
      then show ?thesis using True by (simp add: head nth_append n_def)
    next
      case False
      then have "slot rb (tail rb + of_nat i) \<noteq> slot rb (head rb)"
        using i n slot_offset_inj [OF assms, of i n "tail rb"] by (simp add: head)
      then show ?thesis using False i by (simp add: nth_append rb_contents_def n_def)
    qed
    finally show "rb_contents rb' ! i = (rb_contents rb @ [x]) ! i" .
  qed
  ultimately show ?thesis using push n by (simp add: n_def rb'_def)
qed

lemma rb_drop:
  assumes "rb_ok rb" and "n \<le> unat (rb_len rb)"
  shows "rb_ok (rb\<lparr>tail := tail rb + of_nat n\<rparr>)" "rb_contents (rb\<lparr>tail := tail rb + of_nat n\<rparr>) = drop n (rb_contents rb)"
proof -
  have "n < 2 ^ 64" using assms(2) unsigned_less [of "rb_len rb", where ?'a = nat] by simp
  then have "unat (of_nat n :: usize) = n" by (simp add: unat_of_nat)
  then have l: "unat (rb_len (rb\<lparr>tail := tail rb + of_nat n\<rparr>)) = unat (rb_len rb) - n"
    using assms(2) by (simp add: rb_len_simps unat_sub word_le_nat_alt)
  show "rb_ok (rb\<lparr>tail := tail rb + of_nat n\<rparr>)"
    using assms(1) l by (auto simp: rb_ok_def word_le_nat_alt)
  show "rb_contents (rb\<lparr>tail := tail rb + of_nat n\<rparr>) = drop n (rb_contents rb)"
    unfolding rb_contents_def l by (rule nth_equalityI) (simp_all add: ac_simps less_diff_conv)
qed

lemma rb_pop_cases:
  assumes "rb_ok rb"
  shows "rb_ok (snd (rb_pop rb)) \<and>
    (case rb_contents rb of [] \<Rightarrow> rb_pop rb = (None, rb)
     | x # xs \<Rightarrow> fst (rb_pop rb) = Some x \<and> rb_contents (snd (rb_pop rb)) = xs)"
proof (cases "tail rb = head rb")
  case True
  then show ?thesis using assms by (simp add: rb_pop_def rb_contents_def rb_len_def)
next
  case False
  then have "rb_len rb \<noteq> 0" by (simp add: rb_len_def)
  then have l: "1 \<le> unat (rb_len rb)" by (simp add: unat_gt_0 Suc_le_eq)
  have "rb_contents rb \<noteq> []" using l by (metis length_rb_contents list.size(3) not_one_le_zero)
  moreover have "hd (rb_contents rb) = buffer rb ! slot rb (tail rb)"
    using l by (simp add: rb_contents_def hd_map upt_conv_Cons)
  ultimately obtain xs where c: "rb_contents rb = buffer rb ! slot rb (tail rb) # xs" by (metis list.exhaust_sel)
  then show ?thesis using rb_drop [OF assms l] False by (simp add: rb_pop_def)
qed

interpretation rb: bounded_queue rb_ok rb_contents "\<lambda>rb. length (buffer rb)" rb_push rb_pop
proof
  fix q x
  assume q: "rb_ok q"
  show "length (rb_contents q) \<le> length (buffer q)"
    using q slot_mod(2) [OF q] by (simp add: rb_ok_def word_le_nat_alt)
  show "rb_ok (snd (rb_push x q))" "length (buffer (snd (rb_push x q))) = length (buffer q)"
    "rb_push x q = (length (rb_contents q) < length (buffer q), snd (rb_push x q)) \<and>
     rb_contents (snd (rb_push x q)) = (if length (rb_contents q) < length (buffer q) then rb_contents q @ [x] else rb_contents q)"
    using rb_push_cases [OF q, of x] by simp_all
  show "rb_ok (snd (rb_pop q))"
    "case rb_contents q of [] \<Rightarrow> rb_pop q = (None, q) | x # xs \<Rightarrow> fst (rb_pop q) = Some x \<and> rb_contents (snd (rb_pop q)) = xs"
    using rb_pop_cases [OF q] by simp_all
qed

lemma cap_latency_contents:
  assumes "rb_ok rb" and "target \<le> mx"
  shows "rb_ok (cap_latency mx target rb) \<and> buffer (cap_latency mx target rb) = buffer rb \<and>
    rb_contents (cap_latency mx target rb) =
      (if unat mx < length (rb_contents rb) then drop (length (rb_contents rb) - unat target) (rb_contents rb) else rb_contents rb)"
proof (cases "mx < rb_len rb")
  case True
  define n where "n = unat (rb_len rb) - unat target"
  have le: "target \<le> rb_len rb" using True assms(2) by simp
  then have "rb_len rb - target = of_nat n" by (simp add: n_def unat_sub [symmetric])
  then have "cap_latency mx target rb = rb\<lparr>tail := tail rb + of_nat n\<rparr>"
    using True le by (simp add: cap_latency_def saturating_sub_def Let_def not_less [symmetric])
  moreover have "n \<le> unat (rb_len rb)" by (simp add: n_def)
  ultimately show ?thesis using rb_drop [OF assms(1)] True by (simp add: n_def word_less_nat_alt)
next
  case False
  then show ?thesis using assms(1) by (simp add: cap_latency_def word_less_nat_alt)
qed

lemma power_of_two_from_le: "0 < k \<Longrightarrow> n \<le> power_of_two_from k n"
  by (induction k n rule: power_of_two_from.induct) (subst power_of_two_from.simps, simp)

lemma power_of_two_from_exp:
  assumes "j \<le> m" and "n \<le> 2 ^ m"
  shows "\<exists>i. j \<le> i \<and> i \<le> m \<and> power_of_two_from (2 ^ j) n = 2 ^ i"
  using assms
proof (induction "m - j" arbitrary: j)
  case 0
  then show ?case by (subst power_of_two_from.simps) auto
next
  case (Suc d)
  show ?case
  proof (cases "n \<le> 2 ^ j")
    case True
    then show ?thesis using Suc.prems by (subst power_of_two_from.simps) auto
  next
    case False
    then have "power_of_two_from (2 ^ j) n = power_of_two_from (2 ^ Suc j) n" by (subst power_of_two_from.simps) simp
    moreover have "\<exists>i. Suc j \<le> i \<and> i \<le> m \<and> power_of_two_from (2 ^ Suc j) n = 2 ^ i"
      using Suc by (intro Suc.hyps(1)) auto
    ultimately show ?thesis by (metis Suc_leD)
  qed
qed

lemma new_ok:
  assumes "requested \<le> 2 ^ 63"
  shows "\<exists>rb. AudioRingBuffer_new requested = Some rb \<and> rb_ok rb \<and> rb_contents rb = [] \<and>
     requested \<le> length (buffer rb) \<and> 1024 \<le> length (buffer rb)"
proof -
  obtain i where i: "i \<le> 63" "next_power_of_two requested = 2 ^ i"
    using power_of_two_from_exp [of 0 63 requested] assms by (auto simp: next_power_of_two_def)
  define j where "j = max i 10"
  have "max ((2 :: nat) ^ i) 1024 = 2 ^ j"
  proof (cases "i \<le> 10")
    case True
    then have "(2 :: nat) ^ i \<le> 2 ^ 10" by (intro power_increasing) simp_all
    then show ?thesis using True by (simp add: j_def max_def)
  next
    case False
    then have "(2 :: nat) ^ 10 \<le> 2 ^ i" by (intro power_increasing) simp_all
    then show ?thesis using False by (simp add: j_def max_def)
  qed
  moreover have "requested \<le> 2 ^ i" using power_of_two_from_le [of 1 requested] i by (simp add: next_power_of_two_def)
  moreover have "j \<le> 63" using i by (simp add: j_def)
  moreover have "(2 :: nat) ^ i \<le> 2 ^ j" "(2 :: nat) ^ 10 \<le> 2 ^ j" by (intro power_increasing; simp add: j_def)+
  ultimately show ?thesis
    using assms i(2) by (auto simp: AudioRingBuffer_new_def Let_def rb_ok_def rb_contents_def rb_len_def intro: le_trans)
qed

section \<open>A consumer beside the producer\<close>

text \<open>
  The steps of the two threads between their atomic accesses. The consumer is inside \<^verbatim>\<open>pop\<close> with the tail it
  has loaded (and the sample it has read); the producer, which owns the head, pushes or is inside
  \<^verbatim>\<open>cap_latency\<close> with the length it has seen, or with the number of samples to drop and the tail it expects.
  A weak exchange may also fail for no reason.
\<close>

datatype consumer = CIdle | CLoaded usize | CRead usize sample
datatype producer = PIdle | PLen usize usize | PCap usize usize

inductive rb_step :: "AudioRingBuffer \<times> consumer \<times> producer \<Rightarrow> AudioRingBuffer \<times> consumer \<times> producer \<Rightarrow> bool" where
  pop_start: "rb_step (rb, CIdle, p) (rb, CLoaded (tail rb), p)"
| pop_none: "t = head rb \<Longrightarrow> rb_step (rb, CLoaded t, p) (rb, CIdle, p)"
| pop_read: "t \<noteq> head rb \<Longrightarrow> rb_step (rb, CLoaded t, p) (rb, CRead t (buffer rb ! slot rb t), p)"
| pop_some: "tail rb = t \<Longrightarrow> rb_step (rb, CRead t b, p) (rb\<lparr>tail := t + 1\<rparr>, CIdle, p)"
| pop_retry: "rb_step (rb, CRead t b, p) (rb, CLoaded (tail rb), p)"
| push: "rb_push x rb = (ok, rb') \<Longrightarrow> rb_step (rb, c, PIdle) (rb', c, PIdle)"
| cap_len: "max_samples < rb_len rb \<Longrightarrow> rb_step (rb, c, PIdle) (rb, c, PLen (rb_len rb) target_samples)"
| cap_load: "rb_step (rb, c, PLen l target_samples) (rb, c, PCap (saturating_sub l target_samples) (tail rb))"
| cap_ok: "tail rb = t \<Longrightarrow> rb_step (rb, c, PCap drop_count t) (rb\<lparr>tail := t + drop_count\<rparr>, c, PIdle)"
| cap_retry: "rb_step (rb, c, PCap drop_count t) (rb, c, PCap drop_count (tail rb))"

lemma pops_run:
  assumes "n \<le> unat (rb_len rb)"
  shows "rb_step\<^sup>*\<^sup>* (rb, CIdle, p) (rb\<lparr>tail := tail rb + of_nat n\<rparr>, CIdle, p)"
  using assms
proof (induction n)
  case (Suc n)
  let ?rb = "rb\<lparr>tail := tail rb + of_nat n\<rparr>"
  have ne: "tail ?rb \<noteq> head ?rb"
  proof
    assume "tail ?rb = head ?rb"
    then have "head rb = tail rb + of_nat n" by simp
    then have "rb_len rb = of_nat n" by (simp add: rb_len_def)
    then have "unat (rb_len rb) = n mod 2 ^ 64" by (simp add: unat_of_nat)
    then show False using Suc.prems mod_less_eq_dividend [of n "2 ^ 64"] by simp
  qed
  have "rb_step\<^sup>*\<^sup>* (?rb, CIdle, p) (?rb\<lparr>tail := tail ?rb + 1\<rparr>, CIdle, p)"
    using pop_start [of ?rb p] pop_read [OF ne, of p] pop_some [OF refl, of ?rb _ p]
    by (meson converse_rtranclp_into_rtranclp rtranclp.rtrancl_refl)
  moreover have "rb_step\<^sup>*\<^sup>* (rb, CIdle, p) (?rb, CIdle, p)" using Suc by simp
  ultimately show ?case by (simp add: ac_simps rtranclp_trans [of rb_step])
qed simp

section \<open>Properties\<close>

lemma push_slice_contents:
  assumes "rb_ok rb" and "q = rb_contents rb @ take (length (buffer rb) - length (rb_contents rb)) xs"
  shows "rb_ok (push_slice xs rb)" "rb_contents (push_slice xs rb) = (if 4800 < length q then drop (length q - 1920) q else q)"
  using rb.push_all_contents [OF assms(1), of xs] cap_latency_contents [of "rb.push_all xs rb" 1920 4800]
  unfolding push_slice_def rb.push_all_def [symmetric] by (simp_all add: assms(2))

lemma rb_clear_contents: "rb_ok rb \<Longrightarrow> rb_ok (rb_clear rb) \<and> rb_contents (rb_clear rb) = []"
  by (auto simp: rb_ok_def rb_clear_def rb_contents_def rb_len_def)

lemma rb_capacity_constant:
  "length (buffer (push_slice xs rb)) = length (buffer rb)" "length (buffer (snd (rb_pop rb))) = length (buffer rb)"
  "length (buffer (rb_clear rb)) = length (buffer rb)"
proof -
  have "length (buffer (fold (\<lambda>s rb. snd (rb_push s rb)) xs rb)) = length (buffer rb)"
    by (induction xs arbitrary: rb) (simp_all add: rb_push_def)
  then show "length (buffer (push_slice xs rb)) = length (buffer rb)" by (simp add: push_slice_def cap_latency_def Let_def)
qed (simp_all add: rb_pop_def rb_clear_def)

text \<open>C31: used by one thread at a time the ring buffer is a first-in-first-out queue: a new one is empty and has room for
  what was requested; pushing a slice appends what fits and then
  drops the oldest samples down to 1920 when more than 4800 are waiting, popping takes the oldest
  samples, clearing empties it; the capacity stays what it was; all of this also when the counters wrap around.\<close>

theorem ring_refines_queue:
  assumes "rb_ok rb" and "q = rb_contents rb @ take (length (buffer rb) - length (rb_contents rb)) xs" and "requested \<le> 2 ^ 63"
  shows "rb_contents (push_slice xs rb) = (if 4800 < length q then drop (length q - 1920) q else q) \<and>
         rb_ok (push_slice xs rb) \<and> rb_ok (rb_clear rb) \<and> rb_contents (rb_clear rb) = [] \<and>
         rb_ok (snd (rb_pop rb)) \<and>
         (case rb_contents rb of [] \<Rightarrow> rb_pop rb = (None, rb)
          | y # ys \<Rightarrow> fst (rb_pop rb) = Some y \<and> rb_contents (snd (rb_pop rb)) = ys) \<and>
         length (buffer (push_slice xs rb)) = length (buffer rb) \<and> length (buffer (snd (rb_pop rb))) = length (buffer rb) \<and>
         length (buffer (rb_clear rb)) = length (buffer rb) \<and>
         (\<exists>rb0. AudioRingBuffer_new requested = Some rb0 \<and> rb_ok rb0 \<and> rb_contents rb0 = [] \<and> requested \<le> length (buffer rb0))"
  using push_slice_contents [OF assms(1,2)] rb_clear_contents [OF assms(1)] rb_pop_cases [OF assms(1)] new_ok [OF assms(3)]
  by (auto simp: rb_capacity_constant)

definition wrapping_example :: AudioRingBuffer where
  "wrapping_example = \<lparr>buffer = replicate 1024 0, capacity = 1024, mask = 1023, head = - 1, tail = - 1\<rparr>"

lemma wrapping_example_ok: "rb_ok wrapping_example"
  by (auto simp: rb_ok_def wrapping_example_def rb_len_def intro!: exI [of _ 10])

text \<open>The counters are one step away from wrapping around.\<close>

theorem ring_refines_queue_witness: "rb_contents (push_slice [7, 8, 9] wrapping_example) = [7, 8, 9]"
proof -
  have "rb_contents wrapping_example = []" by (simp add: rb_contents_def wrapping_example_def rb_len_def)
  then show ?thesis
    using ring_refines_queue [OF wrapping_example_ok refl, of 100 "[7, 8, 9]"] by (simp add: wrapping_example_def)
qed

text \<open>beside a consumer, \<^verbatim>\<open>cap_latency\<close> can push the tail past the head. It keeps the number of samples to drop
  while it retries its exchange; if more than the target number of samples are popped meanwhile, the
  buffer ends up with a tail ahead of its head: it refuses every further sample, and keeps returning
  old ones.\<close>

theorem cap_latency_overtakes:
  assumes "rb_ok rb" and "max_samples < rb_len rb" and "target \<le> max_samples" and "unat target < n" and "n \<le> unat (rb_len rb)"
  shows "\<exists>rb'. rb_step\<^sup>*\<^sup>* (rb, CIdle, PIdle) (rb', CIdle, PIdle) \<and>
           head rb' = head rb \<and> tail rb' = head rb' + of_nat (n - unat target) \<and>
           fst (rb_push x rb') = False \<and> fst (rb_pop rb') \<noteq> None"
proof -
  define d where "d = saturating_sub (rb_len rb) target"
  define rb1 where "rb1 = rb\<lparr>tail := tail rb + of_nat n\<rparr>"
  define rb' where "rb' = rb1\<lparr>tail := tail rb1 + d\<rparr>"
  have "rb_step\<^sup>*\<^sup>* (rb, CIdle, PIdle) (rb, CIdle, PCap d (tail rb))"
    using cap_len [OF assms(2), of CIdle target] cap_load [of rb CIdle "rb_len rb" target]
    unfolding d_def by (meson converse_rtranclp_into_rtranclp rtranclp.rtrancl_refl)
  also have "rb_step\<^sup>*\<^sup>* (rb, CIdle, PCap d (tail rb)) (rb1, CIdle, PCap d (tail rb))"
    unfolding rb1_def by (rule pops_run [OF assms(5)])
  also have "rb_step\<^sup>*\<^sup>* (rb1, CIdle, PCap d (tail rb)) (rb', CIdle, PIdle)"
    using cap_retry [of rb1 CIdle d "tail rb"] cap_ok [OF refl, of rb1 CIdle d]
    unfolding rb'_def by (meson converse_rtranclp_into_rtranclp rtranclp.rtrancl_refl)
  finally have run: "rb_step\<^sup>*\<^sup>* (rb, CIdle, PIdle) (rb', CIdle, PIdle)" .
  have le: "target \<le> rb_len rb" using assms(2,3) by simp
  define m where "m = n - unat target"
  have m: "0 < m" "m \<le> unat (rb_len rb)" using assms(4,5) by (simp_all add: m_def)
  have cap: "unat (rb_len rb) \<le> unat (capacity rb)" "unat (capacity rb) \<le> 2 ^ 63"
    using assms(1) slot_mod(2) [OF assms(1)] power_increasing [of _ 63 "2 :: nat"] by (auto simp: rb_ok_def word_le_nat_alt)
  have "rb_len rb' = target - of_nat n"
    using leD [OF le] by (simp add: rb'_def rb1_def rb_len_def d_def saturating_sub_def)
  also have "\<dots> = - of_nat m"
    using assms(4) by (simp add: m_def of_nat_diff)
  finally have over: "rb_len rb' = - of_nat m" .
  then have "unat (rb_len rb') = 2 ^ 64 - m"
  proof -
    have "m \<le> 2 ^ 63" using m cap by linarith
    then have "- of_nat m = (of_nat (2 ^ 64 - m) :: usize)" by (subst of_nat_diff) simp_all
    then show ?thesis unfolding over using m(1) by (simp add: unat_of_nat)
  qed
  then have len: "unat (capacity rb') \<le> unat (rb_len rb')" "unat (rb_len rb') \<noteq> 0" "capacity rb' = capacity rb"
    using m cap by (simp_all add: rb'_def rb1_def)
  then have "fst (rb_push x rb') = False" by (simp add: rb_push_def word_le_nat_alt rb_len_def)
  moreover have "fst (rb_pop rb') \<noteq> None" using len(2) by (auto simp: rb_pop_def rb_len_def)
  moreover have "tail rb' = head rb' + of_nat m"
  proof -
    have "tail rb' = head rb' - rb_len rb'" by (simp add: rb_len_def)
    then show ?thesis by (simp add: over)
  qed
  moreover have "head rb' = head rb" by (simp add: rb'_def rb1_def)
  ultimately show ?thesis using run unfolding m_def by blast
qed

text \<open>5000 samples are waiting; the consumer takes 2000 of them while the producer drops 3080.\<close>

definition full_example :: AudioRingBuffer where
  "full_example = \<lparr>buffer = replicate (2 ^ 13) 0, capacity = 2 ^ 13, mask = 2 ^ 13 - 1, head = 5000, tail = 0\<rparr>"

theorem cap_latency_overtakes_witness:
  "\<exists>rb'. rb_step\<^sup>*\<^sup>* (full_example, CIdle, PIdle) (rb', CIdle, PIdle) \<and> tail rb' = head rb' + 80 \<and> fst (rb_push 1 rb') = False"
proof -
  have "rb_ok full_example"
    unfolding rb_ok_def by (intro conjI exI [of _ 13]) (simp_all add: full_example_def rb_len_def)
  moreover have "rb_len full_example = 5000" by (simp add: full_example_def rb_len_def)
  ultimately show ?thesis using cap_latency_overtakes [of full_example 4800 1920 2000 1] by auto
qed

end
