(* ===== verification/WP_ClientConfig.thy ===== *)
theory WP_ClientConfig
  imports WP_RateLimit
begin

text \<open>
  The configuration of the client (\<^verbatim>\<open>crates/wpapi/src/config.rs\<close> and the command-line overrides of
  \<^verbatim>\<open>crates/wpclient/src/main.rs\<close>). The parser and the printer of socket addresses are those of \<^verbatim>\<open>core::net\<close>.
  \<^verbatim>\<open>reqwest::Url::parse\<close> is third-party code and an argument. The error messages of the source are the constructors of
  \<open>ConfigError\<close>, with the values they are formatted with.
\<close>

section \<open>Socket addresses\<close>

text \<open>\<^verbatim>\<open>Display\<close> of IP addresses: the first of the longest runs of zero groups is written \<^verbatim>\<open>::\<close>, if it has at least
  two groups; an IPv4 address mapped into IPv6 keeps its dots.\<close>

fun longest_zeroes :: "nat \<Rightarrow> nat \<times> nat \<Rightarrow> nat \<times> nat \<Rightarrow> u16 list \<Rightarrow> nat \<times> nat" where
  "longest_zeroes i longest current [] = longest"
| "longest_zeroes i longest (start, len) (g # gs) =
     (if g = 0
      then (let current = (if len = 0 then i else start, Suc len)
            in longest_zeroes (Suc i) (if snd longest < snd current then current else longest) current gs)
      else longest_zeroes (Suc i) longest (0, 0) gs)"

fun fmt_subslice :: "u16 list \<Rightarrow> string" where
  "fmt_subslice [] = []"
| "fmt_subslice [g] = show_hex (unat g)"
| "fmt_subslice (g # gs) = show_hex (unat g) @ '':'' @ fmt_subslice gs"

definition show_ipv6 :: "u16 list \<Rightarrow> string" where
  "show_ipv6 g =
     (if take 6 g = [0, 0, 0, 0, 0, 0xffff]
      then ''::ffff:'' @ show_ipv4 (of_nat (unat (g ! 6) div 256)) (of_nat (unat (g ! 6) mod 256))
             (of_nat (unat (g ! 7) div 256)) (of_nat (unat (g ! 7) mod 256))
      else (let (start, len) = longest_zeroes 0 (0, 0) (0, 0) g
            in if 1 < len then fmt_subslice (take start g) @ ''::'' @ fmt_subslice (drop (start + len) g) else fmt_subslice g))"

fun show_ip :: "IpAddr \<Rightarrow> string" where
  "show_ip (V4 a b c d) = show_ipv4 a b c d"
| "show_ip (V6 g) = show_ipv6 g"

datatype SocketAddr =
    SocketV4 u8 u8 u8 u8 u16
  | SocketV6 "u16 list" u32 u16

fun sock_ip :: "SocketAddr \<Rightarrow> IpAddr" where
  "sock_ip (SocketV4 a b c d _) = V4 a b c d"
| "sock_ip (SocketV6 g _ _) = V6 g"

fun sock_port :: "SocketAddr \<Rightarrow> u16" where
  "sock_port (SocketV4 _ _ _ _ p) = p"
| "sock_port (SocketV6 _ _ p) = p"

fun sock_set_port :: "u16 \<Rightarrow> SocketAddr \<Rightarrow> SocketAddr" where
  "sock_set_port p (SocketV4 a b c d _) = SocketV4 a b c d p"
| "sock_set_port p (SocketV6 g scope_id _) = SocketV6 g scope_id p"

fun show_sock_host :: "SocketAddr \<Rightarrow> string" where
  "show_sock_host (SocketV4 a b c d _) = show_ipv4 a b c d"
| "show_sock_host (SocketV6 g scope_id _) =
     ''['' @ show_ipv6 g @ (if scope_id = 0 then [] else ''%'' @ show_nat (unat scope_id)) @ '']''"

definition show_sock :: "SocketAddr \<Rightarrow> string" where
  "show_sock sa = show_sock_host sa @ '':'' @ show_nat (unat (sock_port sa))"

definition read_port :: "string \<Rightarrow> (u16 \<times> string) option" where
  "read_port s =
     do {
       s \<leftarrow> read_given_char (CHR '':'') s;
       (n, r) \<leftarrow> read_number 10 (length s) True 65536 s;
       Some (of_nat n, r) }"

definition read_socket_addr_v4 :: "string \<Rightarrow> (SocketAddr \<times> string) option" where
  "read_socket_addr_v4 s =
     do {
       ((a, b, c, d), s) \<leftarrow> read_ipv4 s;
       (port, s) \<leftarrow> read_port s;
       Some (SocketV4 a b c d port, s) }"

definition read_scope_id :: "string \<Rightarrow> (u32 \<times> string) option" where
  "read_scope_id s =
     do {
       s \<leftarrow> read_given_char (CHR ''%'') s;
       (n, r) \<leftarrow> read_number 10 (length s) True (2 ^ 32) s;
       Some (of_nat n, r) }"

definition read_socket_addr_v6 :: "string \<Rightarrow> (SocketAddr \<times> string) option" where
  "read_socket_addr_v6 s =
     do {
       s \<leftarrow> read_given_char (CHR ''['') s;
       (g, s) \<leftarrow> read_ipv6 s;
       let (scope_id, s) = (case read_scope_id s of Some x \<Rightarrow> x | None \<Rightarrow> (0, s)) in
       do {
         s \<leftarrow> read_given_char (CHR '']'') s;
         (port, s) \<leftarrow> read_port s;
         Some (SocketV6 g scope_id port, s) } }"

definition parse_socket_addr :: "string \<Rightarrow> SocketAddr option" where
  "parse_socket_addr s =
     (case (case read_socket_addr_v4 s of Some x \<Rightarrow> Some x | None \<Rightarrow> read_socket_addr_v6 s) of
        Some (sa, []) \<Rightarrow> Some sa
      | _ \<Rightarrow> None)"

section \<open>The configuration\<close>

text \<open>\<^verbatim>\<open>rsplit_once\<close>, \<^verbatim>\<open>trim_matches\<close>, \<^verbatim>\<open>contains\<close> and \<^verbatim>\<open>str::parse::<u16>\<close>.\<close>

definition rsplit_once :: "char \<Rightarrow> string \<Rightarrow> (string \<times> string) option" where
  "rsplit_once c s =
     (if c \<in> set s
      then Some (rev (drop 1 (dropWhile (\<lambda>x. x \<noteq> c) (rev s))), rev (takeWhile (\<lambda>x. x \<noteq> c) (rev s)))
      else None)"

definition trim_matches :: "char \<Rightarrow> string \<Rightarrow> string" where
  "trim_matches c s = trim_end_matches c (dropWhile (\<lambda>x. x = c) s)"

fun str_contains :: "string \<Rightarrow> string \<Rightarrow> bool" where
  "str_contains [] p = (p = [])"
| "str_contains (c # s) p = (starts_with (c # s) p \<or> str_contains s p)"

definition parse_u16 :: "string \<Rightarrow> u16 option" where
  "parse_u16 s =
     (let ds = (case s of c # r \<Rightarrow> if c = CHR ''+'' then r else s | [] \<Rightarrow> [])
      in if ds \<noteq> [] \<and> list_all is_dec_digit ds \<and> dec_value ds < 65536 then Some (of_nat (dec_value ds)) else None)"

record ClServerConfig =
  srv_address :: string
  srv_host :: "string option"
  srv_url_override :: "string option"
  srv_use_tls :: bool

definition default_server_address :: string where "default_server_address = ''127.0.0.1:15000''"
definition default_use_tls :: bool where "default_use_tls = True"

definition ClServerConfig_default :: ClServerConfig where
  "ClServerConfig_default =
     \<lparr>srv_address = default_server_address, srv_host = None, srv_url_override = None, srv_use_tls = default_use_tls\<rparr>"

definition srv_ip :: "ClServerConfig \<Rightarrow> IpAddr" where
  "srv_ip s =
     (case parse_socket_addr (srv_address s) of
        Some sa \<Rightarrow> sock_ip sa
      | None \<Rightarrow> (case parse_ip (srv_address s) of Some ip \<Rightarrow> ip | None \<Rightarrow> V4 127 0 0 1))"

definition srv_port :: "ClServerConfig \<Rightarrow> u16" where
  "srv_port s =
     (case parse_socket_addr (srv_address s) of
        Some sa \<Rightarrow> sock_port sa
      | None \<Rightarrow>
          (case rsplit_once (CHR '':'') (srv_address s) of
             Some (_, port_str) \<Rightarrow> (case parse_u16 port_str of Some p \<Rightarrow> p | None \<Rightarrow> 15000)
           | None \<Rightarrow> 15000))"

definition srv_set_port :: "u16 \<Rightarrow> ClServerConfig \<Rightarrow> ClServerConfig" where
  "srv_set_port p s =
     (case parse_socket_addr (srv_address s) of
        Some sa \<Rightarrow> s\<lparr>srv_address := show_sock (sock_set_port p sa)\<rparr>
      | None \<Rightarrow>
          (case rsplit_once (CHR '':'') (srv_address s) of
             Some (host_part, _) \<Rightarrow> s\<lparr>srv_address := host_part @ '':'' @ show_nat (unat p)\<rparr>
           | None \<Rightarrow> s\<lparr>srv_address := srv_address s @ '':'' @ show_nat (unat p)\<rparr>))"

record ClNetworkConfig =
  stun_server :: string

definition default_stun_server :: string where "default_stun_server = ''stun:stun.l.google.com:19302''"

definition ClNetworkConfig_default :: ClNetworkConfig where
  "ClNetworkConfig_default = \<lparr>stun_server = default_stun_server\<rparr>"

record AudioConfig =
  sample_rate :: u32
  channels :: u16
  aud_allow_echoback :: bool
  input_device :: "string option"
  output_device :: "string option"

definition default_sample_rate :: u32 where "default_sample_rate = 48000"
definition default_channels :: u16 where "default_channels = 1"

definition AudioConfig_default :: AudioConfig where
  "AudioConfig_default =
     \<lparr>sample_rate = default_sample_rate, channels = default_channels, aud_allow_echoback = False,
      input_device = None, output_device = None\<rparr>"

record ClientConfig =
  cfg_auto_accept :: bool

record ClConfiguration =
  cl_server :: ClServerConfig
  cl_network :: ClNetworkConfig
  cl_audio :: AudioConfig
  cl_client :: ClientConfig

definition ClConfiguration_default :: ClConfiguration where
  "ClConfiguration_default =
     \<lparr>cl_server = ClServerConfig_default, cl_network = ClNetworkConfig_default, cl_audio = AudioConfig_default,
      cl_client = \<lparr>cfg_auto_accept = False\<rparr>\<rparr>"

datatype ConfigError =
    EmptyServerUrl
  | InvalidServerUrl string string
  | UnsupportedScheme string
  | NoHostInUrl string
  | ZeroPort
  | SampleRateRange u32
  | InvalidChannels u16
  | EmptyStunServer
  | InvalidStunServer string

text \<open>What the code reads of a parsed URL.\<close>

record url =
  url_scheme :: string
  url_host :: "string option"
  url_port :: "u16 option"

definition set_server_host :: "string \<Rightarrow> u16 option \<Rightarrow> ClServerConfig \<Rightarrow> ClServerConfig" where
  "set_server_host host_str parsed_port s =
     (let clean_host = trim_matches (CHR '']'') (trim_matches (CHR ''['') host_str);
          port = (case parsed_port of Some p \<Rightarrow> p | None \<Rightarrow> if srv_use_tls s then 443 else 80);
          address = (case parse_ip clean_host of
              Some (V4 a b c d) \<Rightarrow> show_ipv4 a b c d @ '':'' @ show_nat (unat port)
            | Some (V6 g) \<Rightarrow> ''['' @ show_ipv6 g @ '']:'' @ show_nat (unat port)
            | None \<Rightarrow>
                if map ascii_lower clean_host = ''localhost'' then ''127.0.0.1:'' @ show_nat (unat port)
                else clean_host @ '':'' @ show_nat (unat port))
      in s\<lparr>srv_address := address, srv_host := Some clean_host\<rparr>)"

definition parse_and_apply_server_url ::
    "(string \<Rightarrow> (url, string) result) \<Rightarrow> string \<Rightarrow> ClConfiguration \<Rightarrow> (unit, ConfigError) result \<times> ClConfiguration" where
  "parse_and_apply_server_url url_parse input c =
     (let trimmed = str_trim input in
      if trimmed = [] then (Err EmptyServerUrl, c)
      else
        let scheme_specified = str_contains trimmed ''://'';
            url_to_parse = (if scheme_specified then trimmed else ''http://'' @ trimmed)
        in case url_parse url_to_parse of
             Inl e \<Rightarrow> (Err (InvalidServerUrl input e), c)
           | Inr parsed \<Rightarrow>
               let scheme = url_scheme parsed in
               if scheme_specified \<and> scheme \<notin> {''https'', ''wss'', ''http'', ''ws''} then (Err (UnsupportedScheme scheme), c)
               else
                 let c = (if scheme_specified
                          then c\<lparr>cl_server := (cl_server c)\<lparr>srv_use_tls := scheme \<in> {''https'', ''wss''}\<rparr>\<rparr> else c)
                 in case url_host parsed of
                      Some host_str \<Rightarrow> (Ok (), c\<lparr>cl_server := set_server_host host_str (url_port parsed) (cl_server c)\<rparr>)
                    | None \<Rightarrow> (Err (NoHostInUrl input), c))"

definition normalize :: "(string \<Rightarrow> (url, string) result) \<Rightarrow> ClConfiguration \<Rightarrow> (unit, ConfigError) result \<times> ClConfiguration" where
  "normalize url_parse c =
     (case srv_url_override (cl_server c) of
        Some raw_url \<Rightarrow> if raw_url \<noteq> [] then parse_and_apply_server_url url_parse raw_url c else (Ok (), c)
      | None \<Rightarrow> (Ok (), c))"

definition host_str :: "ClConfiguration \<Rightarrow> string" where
  "host_str c =
     (case srv_host (cl_server c) of
        Some host \<Rightarrow> host
      | None \<Rightarrow>
          (case parse_socket_addr (srv_address (cl_server c)) of
             Some sa \<Rightarrow> (case sock_ip sa of V4 a b d e \<Rightarrow> show_ipv4 a b d e | V6 g \<Rightarrow> ''['' @ show_ipv6 g @ '']'')
           | None \<Rightarrow>
               (case rsplit_once (CHR '':'') (srv_address (cl_server c)) of
                  Some (host_part, _) \<Rightarrow> host_part
                | None \<Rightarrow> srv_address (cl_server c))))"

text \<open>\<^verbatim>\<open>server_url\<close> and \<^verbatim>\<open>websocket_url\<close>; the loopback test only selects a warning.\<close>

definition base_url :: "string \<Rightarrow> u16 \<Rightarrow> string \<Rightarrow> u16 \<Rightarrow> string" where
  "base_url scheme standard_port host port =
     scheme @ ''://'' @ host @ (if port = standard_port then [] else '':'' @ show_nat (unat port))"

definition server_url :: "ClConfiguration \<Rightarrow> string" where
  "server_url c =
     (if srv_use_tls (cl_server c) then base_url ''https'' 443 (host_str c) (srv_port (cl_server c))
      else base_url ''http'' 80 (host_str c) (srv_port (cl_server c)))"

definition websocket_url :: "ClConfiguration \<Rightarrow> string" where
  "websocket_url c =
     (if srv_use_tls (cl_server c) then base_url ''wss'' 443 (host_str c) (srv_port (cl_server c))
      else base_url ''ws'' 80 (host_str c) (srv_port (cl_server c)))"

definition validate :: "ClConfiguration \<Rightarrow> (unit, ConfigError) result" where
  "validate c =
     (if srv_port (cl_server c) = 0 then Err ZeroPort
      else if sample_rate (cl_audio c) < 8000 \<or> 96000 < sample_rate (cl_audio c) then Err (SampleRateRange (sample_rate (cl_audio c)))
      else if channels (cl_audio c) \<noteq> 1 \<and> channels (cl_audio c) \<noteq> 2 then Err (InvalidChannels (channels (cl_audio c)))
      else if stun_server (cl_network c) = [] then Err EmptyStunServer
      else if \<not> list_ex (starts_with (stun_server (cl_network c))) [''stun:'', ''stuns:'', ''turn:'', ''turns:'']
      then Err (InvalidStunServer (stun_server (cl_network c)))
      else Ok ())"

section \<open>The builder\<close>

text \<open>A builder is the configuration it holds; each step of the fluent interface is a constructor of \<open>builder_step\<close>.\<close>

datatype builder_step =
    ServerIp IpAddr
  | ServerPort u16
  | ServerHost string
  | StunServer string
  | SampleRate u32
  | Channels u16
  | UseTls bool
  | AutoAccept bool
  | AllowEchoback bool
  | InputDevice string
  | OutputDevice string

definition map_server :: "(ClServerConfig \<Rightarrow> ClServerConfig) \<Rightarrow> ClConfiguration \<Rightarrow> ClConfiguration" where
  "map_server f c = c\<lparr>cl_server := f (cl_server c)\<rparr>"

fun apply_step :: "builder_step \<Rightarrow> ClConfiguration \<Rightarrow> ClConfiguration" where
  "apply_step (ServerIp ip) c =
     map_server (\<lambda>s. s\<lparr>srv_address := (case ip of V4 _ _ _ _ \<Rightarrow> show_ip ip | V6 _ \<Rightarrow> ''['' @ show_ip ip @ '']'')
       @ '':'' @ show_nat (unat (srv_port s))\<rparr>) c"
| "apply_step (ServerPort p) c = map_server (srv_set_port p) c"
| "apply_step (ServerHost h) c = map_server (\<lambda>s. s\<lparr>srv_host := Some h\<rparr>) c"
| "apply_step (StunServer stun) c = c\<lparr>cl_network := \<lparr>stun_server = stun\<rparr>\<rparr>"
| "apply_step (SampleRate r) c = c\<lparr>cl_audio := (cl_audio c)\<lparr>sample_rate := r\<rparr>\<rparr>"
| "apply_step (Channels n) c = c\<lparr>cl_audio := (cl_audio c)\<lparr>channels := n\<rparr>\<rparr>"
| "apply_step (UseTls b) c = map_server (\<lambda>s. s\<lparr>srv_use_tls := b\<rparr>) c"
| "apply_step (AutoAccept b) c = c\<lparr>cl_client := \<lparr>cfg_auto_accept = b\<rparr>\<rparr>"
| "apply_step (AllowEchoback b) c = c\<lparr>cl_audio := (cl_audio c)\<lparr>aud_allow_echoback := b\<rparr>\<rparr>"
| "apply_step (InputDevice d) c = c\<lparr>cl_audio := (cl_audio c)\<lparr>input_device := Some d\<rparr>\<rparr>"
| "apply_step (OutputDevice d) c = c\<lparr>cl_audio := (cl_audio c)\<lparr>output_device := Some d\<rparr>\<rparr>"

definition builder_server_url :: "(string \<Rightarrow> (url, string) result) \<Rightarrow> string \<Rightarrow> ClConfiguration \<Rightarrow> (ClConfiguration, ConfigError) result" where
  "builder_server_url url_parse input c =
     (case parse_and_apply_server_url url_parse input c of (Inl e, _) \<Rightarrow> Err e | (Inr _, c) \<Rightarrow> Ok c)"

definition build :: "(string \<Rightarrow> (url, string) result) \<Rightarrow> ClConfiguration \<Rightarrow> (ClConfiguration, ConfigError) result" where
  "build url_parse c =
     (case normalize url_parse c of
        (Inl e, _) \<Rightarrow> Err e
      | (Inr _, c) \<Rightarrow> (case validate c of Inl e \<Rightarrow> Err e | Inr _ \<Rightarrow> Ok c))"

section \<open>Command-line overrides\<close>

record CLIArgs =
  arg_server_url :: "string option"
  arg_server_ip :: "string option"
  arg_server_port :: "u16 option"
  arg_stun_server :: "string option"
  arg_input_device :: "string option"
  arg_output_device :: "string option"
  arg_auto_accept :: bool

definition override_url :: "(string \<Rightarrow> (url, string) result) \<Rightarrow> string option \<Rightarrow> ClConfiguration \<Rightarrow> (ClConfiguration, ConfigError) result" where
  "override_url url_parse arg c =
     (case arg of Some u \<Rightarrow> builder_server_url url_parse u c | None \<Rightarrow> Ok c)"

definition override_ip :: "(string \<Rightarrow> (url, string) result) \<Rightarrow> string option \<Rightarrow> ClConfiguration \<Rightarrow> (ClConfiguration, ConfigError) result" where
  "override_ip url_parse arg c =
     (case arg of
        None \<Rightarrow> Ok c
      | Some raw \<Rightarrow>
          if str_contains raw ''://'' \<or> CHR '':'' \<in> set raw \<and> parse_ip raw = None
          then builder_server_url url_parse raw c
          else (let host = (case parse_ip raw of Some ip \<Rightarrow> show_ip ip | None \<Rightarrow> raw)
                in Ok (map_server (\<lambda>s. s\<lparr>srv_address := host @ '':'' @ show_nat (unat (srv_port s)), srv_host := Some host\<rparr>) c)))"

definition apply_cli_overrides :: "(string \<Rightarrow> (url, string) result) \<Rightarrow> CLIArgs \<Rightarrow> ClConfiguration \<Rightarrow> (ClConfiguration, ConfigError) result" where
  "apply_cli_overrides url_parse args c =
     and_then (override_url url_parse (arg_server_url args) c) (\<lambda>c.
     and_then (override_ip url_parse (arg_server_ip args) c) (\<lambda>c.
     let c = (case arg_server_port args of Some p \<Rightarrow> map_server (srv_set_port p) c | None \<Rightarrow> c);
         c = (case arg_stun_server args of Some s \<Rightarrow> c\<lparr>cl_network := \<lparr>stun_server = s\<rparr>\<rparr> | None \<Rightarrow> c);
         c = (case arg_input_device args of Some d \<Rightarrow> c\<lparr>cl_audio := (cl_audio c)\<lparr>input_device := Some d\<rparr>\<rparr> | None \<Rightarrow> c);
         c = (case arg_output_device args of Some d \<Rightarrow> c\<lparr>cl_audio := (cl_audio c)\<lparr>output_device := Some d\<rparr>\<rparr> | None \<Rightarrow> c)
     in Ok (if arg_auto_accept args then c\<lparr>cl_client := \<lparr>cfg_auto_accept = True\<rparr>\<rparr> else c)))"

section \<open>The port of an address\<close>

text \<open>A reader of \<^verbatim>\<open>core::net\<close> leaves a suffix of its input.\<close>

definition leaves :: "string \<Rightarrow> string \<Rightarrow> bool" where
  "leaves s r \<longleftrightarrow> (\<exists>h. s = h @ r)"

lemma leaves_refl [simp]: "leaves s s"
  by (simp add: leaves_def)

lemma leaves_Cons: "leaves s r \<Longrightarrow> leaves (c # s) r"
  unfolding leaves_def by (metis append_Cons)

lemma leaves_trans [trans]: "leaves s t \<Longrightarrow> leaves t r \<Longrightarrow> leaves s r"
  unfolding leaves_def by (metis append_assoc)

lemma to_digit_10: "to_digit 10 c = Some d \<longleftrightarrow> is_dec_digit c \<and> d = of_char c - 48"
  by (auto simp: to_digit_def is_dec_digit_def Let_def split: if_splits)

lemma read_digits_leaves: "read_digits radix m v n s = Some (v', n', r) \<Longrightarrow> leaves s r"
  by (induction radix m v n s rule: read_digits.induct) (auto intro: leaves_Cons split: option.splits if_splits)

lemma read_number_leaves: "read_number radix m z l s = Some (v, r) \<Longrightarrow> leaves s r"
  by (auto simp: read_number_def Option.bind_eq_Some_conv split: if_splits dest: read_digits_leaves)

lemma read_given_char_leaves: "read_given_char c s = Some r \<longleftrightarrow> s = c # r"
  by (auto simp: read_given_char_def strip_prefix_Some)

lemma read_octet_leaves: "read_octet s = Some (b, r) \<Longrightarrow> leaves s r"
  by (auto simp: read_octet_def dest: read_number_leaves)

lemma read_group_leaves: "read_group s = Some (g, r) \<Longrightarrow> leaves s r"
  by (auto simp: read_group_def dest: read_number_leaves)

lemma read_ipv4_leaves:
  assumes "read_ipv4 s = Some (x, r)"
  shows "leaves s r"
proof -
  obtain a b c d s1 s2 s3 s4 s5 s6 where
    "read_octet s = Some (a, s1)" "s1 = CHR ''.'' # s2" "read_octet s2 = Some (b, s3)" "s3 = CHR ''.'' # s4"
    "read_octet s4 = Some (c, s5)" "s5 = CHR ''.'' # s6" "read_octet s6 = Some (d, r)"
    using assms by (auto simp: read_ipv4_def Option.bind_eq_Some_conv read_given_char_leaves)
  then show ?thesis
    by (metis leaves_Cons leaves_refl leaves_trans read_octet_leaves)
qed

lemma read_separator_leaves: "read_separator first s = Some t \<Longrightarrow> leaves s t"
  by (auto simp: read_separator_def read_given_char_leaves leaves_Cons split: if_splits)

lemma read_groups_leaves: "read_groups n first s = (gs, v4, r) \<Longrightarrow> leaves s r"
proof (induction n arbitrary: first s gs)
  case (Suc n)
  let ?v4 = "if 0 < n then Option.bind (read_separator first s) read_ipv4 else None"
  show ?case
  proof (cases ?v4)
    case (Some x)
    then obtain t where "read_separator first s = Some t" "read_ipv4 t = Some x"
      by (auto simp: Option.bind_eq_Some_conv split: if_splits)
    then show ?thesis
      using Suc.prems Some leaves_trans [OF read_separator_leaves read_ipv4_leaves] by (cases x) auto
  next
    case None
    show ?thesis
    proof (cases "Option.bind (read_separator first s) read_group")
      case None
      then show ?thesis using Suc.prems \<open>?v4 = None\<close> by simp
    next
      case (Some x)
      then obtain t g r' where t: "read_separator first s = Some t" "read_group t = Some (g, r')" "x = (g, r')"
        by (cases x) (auto simp: Option.bind_eq_Some_conv)
      obtain gs' v4' r'' where g: "read_groups n False r' = (gs', v4', r'')" by (cases "read_groups n False r'")
      with Suc.prems \<open>?v4 = None\<close> Some t(3) have [simp]: "r'' = r" "v4' = v4" by simp_all
      show ?thesis
        using leaves_trans [OF leaves_trans [OF read_separator_leaves [OF t(1)] read_group_leaves [OF t(2)]]] Suc.IH [OF g [simplified]] by blast
    qed
  qed
qed simp

lemma read_ipv6_leaves:
  assumes "read_ipv6 s = Some (g, r)"
  shows "leaves s r"
proof -
  obtain hd v4 s1 where h: "read_groups 8 True s = (hd, v4, s1)" by (cases "read_groups 8 True s")
  have l: "leaves s s1" by (rule read_groups_leaves [OF h])
  show ?thesis
  proof (cases "length hd = 8")
    case True
    then show ?thesis using assms l by (simp add: read_ipv6_def h)
  next
    case False
    then obtain s3 where s3: "s1 = CHR '':'' # CHR '':'' # s3"
        "(let (tail, _, s4) = read_groups (7 - length hd) True s3 in
          Some (hd @ replicate (8 - length hd - length tail) 0 @ tail, s4)) = Some (g, r)"
      using assms by (auto simp: read_ipv6_def h read_given_char_leaves Option.bind_eq_Some_conv split: if_splits)
    moreover then obtain tl w where "read_groups (7 - length hd) True s3 = (tl, w, r)"
      by (cases "read_groups (7 - length hd) True s3") auto
    ultimately show ?thesis using l read_groups_leaves by (metis leaves_Cons leaves_trans)
  qed
qed

text \<open>What ends an address that parses as a socket address: a colon and the digits of its port.\<close>

definition ends_in_port :: "string \<Rightarrow> u16 \<Rightarrow> bool" where
  "ends_in_port s p \<longleftrightarrow> (\<exists>h t. s = h @ CHR '':'' # t \<and> list_all is_dec_digit t \<and> t \<noteq> [] \<and> dec_value t < 65536 \<and> p = of_nat (dec_value t))"

lemma ends_in_port_leaves: "leaves s r \<Longrightarrow> ends_in_port r p \<Longrightarrow> ends_in_port s p"
  unfolding leaves_def ends_in_port_def by (metis append_assoc)

lemma read_digits_all:
  "read_digits 10 m v n s = Some (v', n', []) \<Longrightarrow>
   list_all is_dec_digit s \<and> n' = n + length s \<and> v' = foldl (\<lambda>a c. 10 * a + (of_char c - 48)) v s"
  by (induction "10 :: nat" m v n s rule: read_digits.induct) (auto simp: to_digit_10 mult.commute split: option.splits if_splits)

lemma read_port_ends: "read_port s = Some (p, []) \<Longrightarrow> ends_in_port s p"
proof -
  assume "read_port s = Some (p, [])"
  then obtain t n where t: "s = CHR '':'' # t" "read_number 10 (length t) True 65536 t = Some (n, [])" "p = of_nat n"
    by (auto simp: read_port_def Option.bind_eq_Some_conv read_given_char_leaves)
  then have "list_all is_dec_digit t \<and> t \<noteq> [] \<and> n = dec_value t \<and> n < 65536"
    by (auto simp: read_number_def Option.bind_eq_Some_conv dec_value_def split: if_splits dest: read_digits_all)
  then show ?thesis
    unfolding ends_in_port_def t(1) using t(3) by (intro exI [of _ "[]"] exI [of _ t]) simp
qed

lemma parse_socket_addr_port:
  assumes "parse_socket_addr s = Some sa"
  shows "ends_in_port s (sock_port sa)"
proof -
  consider "read_socket_addr_v4 s = Some (sa, [])" | "read_socket_addr_v6 s = Some (sa, [])"
    using assms by (auto simp: parse_socket_addr_def split: option.splits list.splits)
  then show ?thesis
  proof cases
    case 1
    then obtain x s1 where "read_ipv4 s = Some (x, s1)" "read_port s1 = Some (sock_port sa, [])"
      by (auto simp: read_socket_addr_v4_def Option.bind_eq_Some_conv)
    then show ?thesis using ends_in_port_leaves read_ipv4_leaves read_port_ends by blast
  next
    case 2
    then obtain s1 g s2 where s: "s = CHR ''['' # s1" "read_ipv6 s1 = Some (g, s2)"
      by (auto simp: read_socket_addr_v6_def Option.bind_eq_Some_conv read_given_char_leaves)
    obtain i s3 where i: "(i, s3) = (case read_scope_id s2 of Some x \<Rightarrow> x | None \<Rightarrow> (0, s2))"
      by (metis surj_pair)
    then obtain s4 where "s3 = CHR '']'' # s4" "read_port s4 = Some (sock_port sa, [])"
      using 2 s by (auto simp: read_socket_addr_v6_def Option.bind_eq_Some_conv read_given_char_leaves simp flip: i)
    moreover note s i
    moreover have "leaves s2 s3"
      using i by (auto simp: read_scope_id_def Option.bind_eq_Some_conv read_given_char_leaves split: option.splits
          intro: leaves_Cons dest: read_number_leaves)
    ultimately show ?thesis
      by (metis ends_in_port_leaves leaves_Cons leaves_refl leaves_trans read_ipv6_leaves read_port_ends)
  qed
qed

lemma rsplit_once_append: "c \<notin> set t \<Longrightarrow> rsplit_once c (h @ c # t) = Some (h, t)"
proof -
  assume "c \<notin> set t"
  then have "takeWhile (\<lambda>x. x \<noteq> c) (rev t @ c # rev h) = rev t" "dropWhile (\<lambda>x. x \<noteq> c) (rev t @ c # rev h) = c # rev h"
    by (subst takeWhile_append2, auto, subst dropWhile_append2, auto)
  then show ?thesis by (simp add: rsplit_once_def)
qed

lemma digits_no_colon: "list_all is_dec_digit t \<Longrightarrow> CHR '':'' \<notin> set t"
  by (auto simp: list_all_iff)

lemma parse_show_u16: "parse_u16 (show_nat (unat (p :: u16))) = Some p"
proof -
  obtain c r where c: "show_nat (unat p) = c # r" by (meson neq_Nil_conv show_nat_nonempty)
  then have "c \<noteq> CHR ''+''" using show_nat_digits [of "unat p"] by auto
  then have "(case show_nat (unat p) of c # r \<Rightarrow> if c = CHR ''+'' then r else show_nat (unat p) | [] \<Rightarrow> []) = show_nat (unat p)"
    by (simp add: c)
  moreover have "unat p < 65536" using unsigned_less [of p, where ?'a = nat] by simp
  ultimately show ?thesis by (simp add: parse_u16_def Let_def show_nat_digits)
qed

text \<open>Whatever stands before the last colon, the port read back is the one that was written.\<close>

lemma srv_port_of_text: "srv_address s = h @ '':'' @ show_nat (unat (p :: u16)) \<Longrightarrow> srv_port s = p"
proof -
  assume s: "srv_address s = h @ '':'' @ show_nat (unat p)"
  then have r: "rsplit_once (CHR '':'') (srv_address s) = Some (h, show_nat (unat p))"
    by (simp add: rsplit_once_append)
  show ?thesis
  proof (cases "parse_socket_addr (srv_address s)")
    case None
    then show ?thesis using r by (simp add: srv_port_def parse_show_u16)
  next
    case (Some sa)
    obtain h' t where t: "srv_address s = h' @ CHR '':'' # t" "list_all is_dec_digit t" "sock_port sa = of_nat (dec_value t)"
      using parse_socket_addr_port [OF Some] by (auto simp: ends_in_port_def)
    then have "t = show_nat (unat p)"
      using r rsplit_once_append [OF digits_no_colon [OF t(2)], of h'] by simp
    then show ?thesis using Some t(3) by (simp add: srv_port_def)
  qed
qed

lemma srv_port_set_port: "srv_port (srv_set_port p s) = p"
proof (cases "parse_socket_addr (srv_address s)")
  case None
  then show ?thesis
    by (auto simp: srv_set_port_def intro!: srv_port_of_text [where p = p] split: option.splits)
next
  case (Some sa)
  then have "srv_address (srv_set_port p s) = show_sock_host (sock_set_port p sa) @ '':'' @ show_nat (unat p)"
    by (cases sa) (simp_all add: srv_set_port_def show_sock_def)
  then show ?thesis by (rule srv_port_of_text)
qed

section \<open>Properties\<close>

text \<open>the port of the command line wins over the address, the URL and the IP address given with it,
  in whatever form these are, and no override touches the other settings.\<close>

theorem cli_port_wins:
  assumes "apply_cli_overrides url_parse args c = Ok c'" and "arg_server_port args = Some p"
  shows "srv_port (cl_server c') = p \<and> sample_rate (cl_audio c') = sample_rate (cl_audio c) \<and> channels (cl_audio c') = channels (cl_audio c) \<and>
         aud_allow_echoback (cl_audio c') = aud_allow_echoback (cl_audio c)"
proof -
  obtain c1 c2 where o: "override_url url_parse (arg_server_url args) c = Ok c1" "override_ip url_parse (arg_server_ip args) c1 = Ok c2"
    using assms(1) by (auto simp: apply_cli_overrides_def and_then_Ok)
  have keeps: "cl_audio d' = cl_audio d" if "builder_server_url url_parse u d = Ok d'" for u d d'
    using that by (auto simp: builder_server_url_def parse_and_apply_server_url_def Let_def split: sum.splits option.splits if_splits)
  have "cl_audio c1 = cl_audio c" using o(1) keeps by (auto simp: override_url_def split: option.splits)
  moreover have "cl_audio c2 = cl_audio c1"
    using o(2) keeps by (auto simp: override_ip_def map_server_def Let_def split: option.splits if_splits)
  moreover have "srv_port (cl_server c') = p" "sample_rate (cl_audio c') = sample_rate (cl_audio c2)"
      "channels (cl_audio c') = channels (cl_audio c2)" "aud_allow_echoback (cl_audio c') = aud_allow_echoback (cl_audio c2)"
    using assms o by (auto simp: apply_cli_overrides_def Let_def map_server_def srv_port_set_port split: option.splits if_splits)
  ultimately show ?thesis by simp
qed

definition args_example :: CLIArgs where
  "args_example = \<lparr>arg_server_url = None, arg_server_ip = Some ''localhost'', arg_server_port = Some 8080, arg_stun_server = None,
     arg_input_device = None, arg_output_device = None, arg_auto_accept = False\<rparr>"

definition no_url :: "string \<Rightarrow> (url, string) result" where
  "no_url s = Err ''relative URL without a base''"

theorem cli_port_wins_witness:
  "\<exists>c'. apply_cli_overrides no_url args_example ClConfiguration_default = Ok c' \<and> srv_port (cl_server c') = 8080"
proof -
  have "\<exists>c'. apply_cli_overrides no_url args_example ClConfiguration_default = Ok c'"
    by (simp add: apply_cli_overrides_def override_url_def override_ip_def args_example_def Let_def starts_with_def)
  then obtain c' where c': "apply_cli_overrides no_url args_example ClConfiguration_default = Ok c'" ..
  from cli_port_wins [OF c', of 8080] c' show ?thesis by (simp add: args_example_def)
qed

text \<open>applying a URL stores its host, its port (that of the scheme in use where it names none) and
  its scheme (the earlier setting where the text names none), and the base URL built from the configuration consists of them.
  The host is stored without brackets, so the base URL of an IPv6 address has none.\<close>

theorem server_url_applied:
  assumes "parse_and_apply_server_url url_parse input c = (Ok (), c')"
  shows "\<exists>u h. url_host u = Some h \<and>
    (let named = str_contains (str_trim input) ''://'';
         tls = (if named then url_scheme u \<in> {''https'', ''wss''} else srv_use_tls (cl_server c));
         host = trim_matches (CHR '']'') (trim_matches (CHR ''['') h);
         port = (case url_port u of Some p \<Rightarrow> p | None \<Rightarrow> if tls then 443 else 80)
     in url_parse (if named then str_trim input else ''http://'' @ str_trim input) = Ok u \<and>
        srv_use_tls (cl_server c') = tls \<and> srv_port (cl_server c') = port \<and>
        server_url c' = (if tls then base_url ''https'' 443 host port else base_url ''http'' 80 host port) \<and>
        websocket_url c' = (if tls then base_url ''wss'' 443 host port else base_url ''ws'' 80 host port))"
proof -
  have port: "srv_port (set_server_host h pp s) = (case pp of Some p \<Rightarrow> p | None \<Rightarrow> if srv_use_tls s then 443 else 80)" for h pp s
  proof -
    define p where "p = (case pp of Some p \<Rightarrow> p | None \<Rightarrow> if srv_use_tls s then 443 else 80)"
    have "\<exists>g. srv_address (set_server_host h pp s) = g @ '':'' @ show_nat (unat p)"
      unfolding set_server_host_def Let_def p_def [symmetric] by (auto split: option.splits IpAddr.splits)
    then show ?thesis using srv_port_of_text p_def by blast
  qed
  have rest: "srv_use_tls (set_server_host h pp s) = srv_use_tls s"
    "srv_host (set_server_host h pp s) = Some (trim_matches (CHR '']'') (trim_matches (CHR ''['') h))" for h pp s
    by (simp_all add: set_server_host_def Let_def)
  define named where "named = str_contains (str_trim input) ''://''"
  define c1 where "c1 u = (if named then c\<lparr>cl_server := (cl_server c)\<lparr>srv_use_tls := url_scheme u \<in> {''https'', ''wss''}\<rparr>\<rparr> else c)" for u :: url
  obtain u h where u: "url_parse (if named then str_trim input else ''http://'' @ str_trim input) = Ok u" "url_host u = Some h"
    and c': "c' = (c1 u)\<lparr>cl_server := set_server_host h (url_port u) (cl_server (c1 u))\<rparr>"
    using assms unfolding parse_and_apply_server_url_def Let_def named_def [symmetric] c1_def
    by (cases "str_trim input = []"; cases "url_parse (if named then str_trim input else ''http://'' @ str_trim input)")
       (auto split: if_splits option.splits)
  have tls: "srv_use_tls (cl_server c') = (if named then url_scheme u \<in> {''https'', ''wss''} else srv_use_tls (cl_server c))"
    by (simp add: c' rest c1_def)
  have p: "srv_port (cl_server c') = (case url_port u of Some p \<Rightarrow> p | None \<Rightarrow> if srv_use_tls (cl_server c') then 443 else 80)"
    by (simp add: c' port rest)
  have h: "host_str c' = trim_matches (CHR '']'') (trim_matches (CHR ''['') h)"
    by (simp add: c' host_str_def rest)
  show ?thesis
    unfolding named_def [symmetric] Let_def
    by (intro exI [of _ u] exI [of _ h]) (simp only: u p h tls server_url_def websocket_url_def simp_thms)
qed

definition url_v6 :: "string \<Rightarrow> (url, string) result" where
  "url_v6 s = Ok \<lparr>url_scheme = ''http'', url_host = Some ''[::1]'', url_port = Some 8080\<rparr>"

lemma show_8080: "show_nat 8080 = ''8080''"
proof -
  have "dec_digit 8 = CHR ''8''" "dec_digit 0 = CHR ''0''" by code_simp+
  then show ?thesis by (simp add: show_nat.simps)
qed

theorem server_url_applied_witness:
  "server_url (snd (parse_and_apply_server_url url_v6 ''http://[::1]:8080'' ClConfiguration_default)) = ''http://::1:8080''"
proof -
  have t: "str_trim ''http://[::1]:8080'' = ''http://[::1]:8080''" "str_contains ''http://[::1]:8080'' ''://''"
    "trim_matches (CHR '']'') (trim_matches (CHR ''['') ''[::1]'') = ''::1''" "show_nat 8080 = ''8080''"
    by (code_simp, simp_all add: starts_with_def trim_matches_def trim_end_matches_def show_8080)
  have "fst (parse_and_apply_server_url url_v6 ''http://[::1]:8080'' ClConfiguration_default) = Ok ()"
    by (simp add: parse_and_apply_server_url_def Let_def t url_v6_def)
  then have "parse_and_apply_server_url url_v6 ''http://[::1]:8080'' ClConfiguration_default
      = (Ok (), snd (parse_and_apply_server_url url_v6 ''http://[::1]:8080'' ClConfiguration_default))"
    by (simp add: prod_eq_iff)
  from server_url_applied [OF this] show ?thesis
    by (auto simp: Let_def t url_v6_def base_url_def starts_with_def simp del: str_contains.simps)
qed

text \<open>Changing the port of an IPv6 address that has none writes the port over the last group of the address.\<close>

lemma read_groups_pos:
  "0 < n \<Longrightarrow> read_groups n first s =
     (case (if 1 < n then Option.bind (read_separator first s) read_ipv4 else None) of
        Some ((a, b, c, d), r) \<Rightarrow> ([of_nat (unat a * 256 + unat b), of_nat (unat c * 256 + unat d)], True, r)
      | None \<Rightarrow>
          (case Option.bind (read_separator first s) read_group of
             None \<Rightarrow> ([], False, s)
           | Some (g, r) \<Rightarrow> (let (gs, v4, r') = read_groups (n - 1) False r in (g # gs, v4, r'))))"
  by (cases n) (simp_all cong: option.case_cong prod.case_cong)

lemma set_port_overwrites_group:
  "srv_ip (srv_set_port 8080 (ClServerConfig_default\<lparr>srv_address := ''fe80::1''\<rparr>)) = V6 [0xfe80, 0, 0, 0, 0, 0, 0, 0x8080]"
proof -
  note readers = parse_socket_addr_def read_socket_addr_v4_def read_socket_addr_v6_def read_ipv4_def read_octet_def
    read_number_def to_digit_def read_given_char_def strip_prefix_def starts_with_def read_ipv6_def read_group_def read_separator_def
  have "parse_socket_addr ''fe80::1'' = None" "parse_socket_addr ''fe80::8080'' = None"
    by (simp_all add: readers)
  moreover have replicate_6: "replicate 6 (0 :: u16) = [0, 0, 0, 0, 0, 0]" by (simp add: numeral_eq_Suc)
  moreover have "parse_ip ''fe80::8080'' = Some (V6 [0xfe80, 0, 0, 0, 0, 0, 0, 0x8080])"
    by (simp add: readers parse_ip_def read_groups_pos replicate_6)
  moreover have "rsplit_once (CHR '':'') ''fe80::1'' = Some (''fe80:'', ''1'')" "show_nat 8080 = ''8080''"
    by (simp_all add: rsplit_once_def show_8080)
  ultimately show ?thesis by (simp add: srv_ip_def srv_set_port_def)
qed

end
