(* ===== verification/WP_Client.thy ===== *)
theory WP_Client
  imports WP_Daemon WP_Auth WP_RingBuffer WP_ClientConfig
begin

text \<open>
  The client session (\<^verbatim>\<open>crates/wpapi/src/session.rs\<close>) and its data channel
  (\<^verbatim>\<open>webrtc_session.rs\<close>, the calls of \<^verbatim>\<open>call.rs\<close>): what a client does with a packet, when it sends the
  microphone's audio and where to, and the request it signs in. The fields of a session are shared between tasks, each behind its own lock or
  atomic; a handler reads and writes them in the order of the source. Channels of the tokio runtime and data channels
  are numbers. A oneshot channel is the number of its sender; the task that waits for its answer is spawned as an effect.
\<close>

section \<open>The session\<close>

datatype CallNotification =
    Accepted UserAddress
  | Rejected UserAddress
  | CallError UserAddress string
  | Hangup UserAddress

type_synonym tx_handle = nat
type_synonym responder = nat

record ClientSession =
  cs_audio_buffer :: AudioRingBuffer
  cs_client_id :: u64
  cs_user_address :: "UserAddress option"
  cs_keypair :: UserKeypair
  cs_active_target :: "UserAddress option"
  cs_active_room :: "UserAddress option"
  cs_data_channel :: "dc_handle option"
  cs_incoming_call_tx :: "tx_handle option"
  cs_call_notification_tx :: "tx_handle option"
  cs_pending_call_response :: "responder option"
  cs_input_level :: u32
  cs_output_level :: u32
  cs_is_muted :: bool
  cs_allow_echoback :: bool

datatype client_effect =
    ChannelSend dc_handle bytes
  | CallPrompt tx_handle UserAddress responder
  | SpawnReply responder dc_handle UserAddress
  | SpawnSender dc_handle
  | Respond responder bool
  | NotifyBroadcast CallNotification
  | NotifyHandler tx_handle CallNotification

definition empty_buffer :: AudioRingBuffer where
  "empty_buffer = the default_capacity"

definition with_keypair :: "UserKeypair \<Rightarrow> ClientSession" where
  "with_keypair keypair =
     \<lparr>cs_audio_buffer = empty_buffer, cs_client_id = - 1, cs_user_address = None, cs_keypair = keypair,
      cs_active_target = None, cs_active_room = None, cs_data_channel = None, cs_incoming_call_tx = None,
      cs_call_notification_tx = None, cs_pending_call_response = None, cs_input_level = 0, cs_output_level = 0,
      cs_is_muted = False, cs_allow_echoback = False\<rparr>"

definition session_reset :: "ClientSession \<Rightarrow> ClientSession" where
  "session_reset s =
     s\<lparr>cs_audio_buffer := rb_clear (cs_audio_buffer s), cs_client_id := - 1, cs_user_address := None,
       cs_active_target := None, cs_active_room := None, cs_data_channel := None, cs_incoming_call_tx := None,
       cs_call_notification_tx := None, cs_pending_call_response := None, cs_input_level := 0, cs_output_level := 0,
       cs_is_muted := False, cs_allow_echoback := False\<rparr>"

definition set_muted :: "bool \<Rightarrow> ClientSession \<Rightarrow> ClientSession" where
  "set_muted muted s = s\<lparr>cs_is_muted := muted\<rparr>"

definition set_allow_echoback :: "bool \<Rightarrow> ClientSession \<Rightarrow> ClientSession" where
  "set_allow_echoback allow s = s\<lparr>cs_allow_echoback := allow\<rparr>"

definition set_target_address :: "UserAddress option \<Rightarrow> ClientSession \<Rightarrow> ClientSession" where
  "set_target_address target s = s\<lparr>cs_active_target := target\<rparr>"

definition set_room_address :: "UserAddress option \<Rightarrow> ClientSession \<Rightarrow> ClientSession" where
  "set_room_address room s = s\<lparr>cs_active_room := room\<rparr>"

definition set_data_channel :: "dc_handle \<Rightarrow> ClientSession \<Rightarrow> ClientSession" where
  "set_data_channel dc s = s\<lparr>cs_data_channel := Some dc\<rparr>"

definition set_incoming_call_handler :: "tx_handle \<Rightarrow> ClientSession \<Rightarrow> ClientSession" where
  "set_incoming_call_handler tx s = s\<lparr>cs_incoming_call_tx := Some tx\<rparr>"

definition set_call_notification_handler :: "tx_handle \<Rightarrow> ClientSession \<Rightarrow> ClientSession" where
  "set_call_notification_handler tx s = s\<lparr>cs_call_notification_tx := Some tx\<rparr>"

definition set_pending_call_response :: "responder \<Rightarrow> ClientSession \<Rightarrow> ClientSession" where
  "set_pending_call_response tx s = s\<lparr>cs_pending_call_response := Some tx\<rparr>"

definition respond_pending_call :: "bool \<Rightarrow> ClientSession \<Rightarrow> bool \<times> client_effect list \<times> ClientSession" where
  "respond_pending_call accept s =
     (case cs_pending_call_response s of
        Some tx \<Rightarrow> (True, [Respond tx accept], s\<lparr>cs_pending_call_response := None\<rparr>)
      | None \<Rightarrow> (False, [], s))"

text \<open>The send to the notification handler is the last effect; on a full channel it waits (\<open>perform\<close> below).\<close>

definition notify_call_event :: "CallNotification \<Rightarrow> ClientSession \<Rightarrow> client_effect list" where
  "notify_call_event notification s =
     NotifyBroadcast notification #
     (case cs_call_notification_tx s of Some tx \<Rightarrow> [NotifyHandler tx notification] | None \<Rightarrow> [])"

definition get_client_id :: "ClientSession \<Rightarrow> u64 option" where
  "get_client_id s = (if cs_client_id s = - 1 then None else Some (cs_client_id s))"

definition send_packet :: "'z wp_crates_scheme \<Rightarrow> ProtocolPacket \<Rightarrow> ClientSession \<Rightarrow> (client_effect list, string) result" where
  "send_packet E packet s =
     (case cs_data_channel s of
        Some dc \<Rightarrow> Ok [ChannelSend dc (encode E packet)]
      | None \<Rightarrow> Err ''DataChannel is not open'')"

lemmas session_defs =
  set_target_address_def set_room_address_def set_data_channel_def set_muted_def set_allow_echoback_def
  set_incoming_call_handler_def set_call_notification_handler_def set_pending_call_response_def

section \<open>Received packets\<close>

text \<open>\<^verbatim>\<open>f32::clamp(-1.0, 1.0)\<close> on the bits of a float; a NaN stays what it is.\<close>

definition f32_clamp_unit :: "u32 \<Rightarrow> u32" where
  "f32_clamp_unit b =
     (let magnitude = unat b mod 2 ^ 31 in
      if 0x3F800000 < magnitude \<and> magnitude \<le> 0x7F800000
      then (if unat b < 2 ^ 31 then 0x3F800000 else 0xBF800000)
      else b)"

definition decode_samples :: "bytes \<Rightarrow> u32 list" where
  "decode_samples audio_data =
     map (\<lambda>chunk. f32_clamp_unit (u32_from_le_bytes chunk)) (chunks4 (length audio_data div 4) audio_data)"

definition play_samples :: "bytes \<Rightarrow> ClientSession \<Rightarrow> ClientSession" where
  "play_samples audio_data s = s\<lparr>cs_audio_buffer := push_slice (decode_samples audio_data) (cs_audio_buffer s)\<rparr>"

text \<open>How \<^verbatim>\<open>dispatch_client_packet\<close> compares two addresses, either of which may be a short ID; \<open>None\<close> is the panic of
  \<^verbatim>\<open>short_id\<close>. The short IDs in log messages are not modelled.\<close>

definition same_party :: "UserAddress \<Rightarrow> UserAddress \<Rightarrow> bool option" where
  "same_party a caller =
     (if a = caller then Some True
      else do {
        sa \<leftarrow> short_id a;
        sc \<leftarrow> short_id caller;
        Some (sa = sc \<or> starts_with (addr_id a) sc \<or> starts_with (addr_id caller) sa) })"

definition is_party :: "UserAddress option \<Rightarrow> UserAddress \<Rightarrow> bool option" where
  "is_party a caller = (case a of Some a \<Rightarrow> same_party a caller | None \<Rightarrow> Some False)"

text \<open>A request: ignored from oneself, accepted at once, or prompted. The prompt is the last effect; on a full channel it waits
  (\<open>perform\<close> below).\<close>

definition handle_call_request ::
    "'z wp_crates_scheme \<Rightarrow> UserAddress \<Rightarrow> bool \<Rightarrow> dc_handle \<Rightarrow> responder \<Rightarrow> ClientSession \<Rightarrow>
     (client_effect list \<times> ClientSession) option" where
  "handle_call_request E caller_address auto_accept dc resp s =
     do {
       is_self_call \<leftarrow> is_party (cs_user_address s) caller_address;
       if is_self_call then Some ([], s)
       else do {
         is_already_calling_target \<leftarrow> is_party (cs_active_target s) caller_address;
         if auto_accept \<or> is_already_calling_target
         then Some ([ChannelSend dc (encode E (CallAcceptResponse caller_address))], set_target_address (Some caller_address) s)
         else case cs_incoming_call_tx s of
                Some tx \<Rightarrow> Some ([SpawnReply resp dc caller_address, CallPrompt tx caller_address resp],
                                set_target_address (Some caller_address) s)
              | None \<Rightarrow> Some ([], s) } }"

text \<open>The task that waits for the answer to a prompt; a dropped sender (\<open>None\<close>) ends it without a reply.\<close>

definition reply_task :: "'z wp_crates_scheme \<Rightarrow> dc_handle \<Rightarrow> UserAddress \<Rightarrow> bool option \<Rightarrow> client_effect list" where
  "reply_task E dc caller_addr answer =
     (case answer of
        Some yes \<Rightarrow>
          [ChannelSend dc (encode E (if yes then CallAcceptResponse caller_addr else CallRejectResponse caller_addr))]
      | None \<Rightarrow> [])"

definition UNAVAILABLE :: string where
  "UNAVAILABLE = ''Target user is unavailable or connection is stale (waiting for keep-alive cleanup). Operation explicitly blocked.''"

fun dispatch_client_packet ::
    "'z wp_crates_scheme \<Rightarrow> ProtocolPacket \<Rightarrow> bool \<Rightarrow> dc_handle \<Rightarrow> responder \<Rightarrow> ClientSession \<Rightarrow>
     (client_effect list \<times> ClientSession) option" where
  "dispatch_client_packet E (ClientAssignment client_id user_address) auto_accept dc resp s =
     Some ([], s\<lparr>cs_client_id := client_id, cs_user_address := Some user_address\<rparr>)"
| "dispatch_client_packet E (CallRequest _ caller_address) auto_accept dc resp s =
     handle_call_request E caller_address auto_accept dc resp s"
| "dispatch_client_packet E (CallAcceptResponse caller_address) auto_accept dc resp s =
     (let s = set_target_address (Some caller_address) s in Some (notify_call_event (Accepted caller_address) s, s))"
| "dispatch_client_packet E (CallRejectResponse caller_address) auto_accept dc resp s =
     (let s = set_target_address None s in Some (notify_call_event (Rejected caller_address) s, s))"
| "dispatch_client_packet E (CallAcceptedNotification target_address) auto_accept dc resp s =
     (let s = set_target_address (Some target_address) s in Some (notify_call_event (Accepted target_address) s, s))"
| "dispatch_client_packet E (CallRejectedNotification target_address) auto_accept dc resp s =
     (let s = set_target_address None s in Some (notify_call_event (Rejected target_address) s, s))"
| "dispatch_client_packet E (ConnectionError target_address) auto_accept dc resp s =
     (let s = set_target_address None s in Some (notify_call_event (CallError target_address UNAVAILABLE) s, s))"
| "dispatch_client_packet E (CallEndedNotification target_address) auto_accept dc resp s =
     (let s = set_target_address None s in Some (notify_call_event (Hangup target_address) s, s))"
| "dispatch_client_packet E (ServerTargetedAudio _ _ _ _ audio_data) auto_accept dc resp s = Some ([], play_samples audio_data s)"
| "dispatch_client_packet E (PeerTargetedAudio _ _ _ _ _ _ audio_data) auto_accept dc resp s = Some ([], play_samples audio_data s)"
| "dispatch_client_packet E (RoomGroupAudio _ _ audio_data) auto_accept dc resp s = Some ([], play_samples audio_data s)"
| "dispatch_client_packet E (RoomGroupAudioE2EE _ _ _ audio_data) auto_accept dc resp s = Some ([], play_samples audio_data s)"
| "dispatch_client_packet E (Ping timestamp) auto_accept dc resp s = Some ([ChannelSend dc (encode E (Pong timestamp))], s)"
| "dispatch_client_packet E _ auto_accept dc resp s = Some ([], s)"

section \<open>The data channel of a call\<close>

text \<open>What the event loop of \<^verbatim>\<open>setup_data_channel\<close> captures, and whether it still holds the receiver of the microphone.\<close>

record call_channel =
  ch_dc :: dc_handle
  ch_target :: "UserAddress option"
  ch_auto_accept :: bool
  ch_rx_audio :: bool

definition setup_data_channel ::
    "dc_handle \<Rightarrow> UserAddress option \<Rightarrow> ClConfiguration \<Rightarrow> ClientSession \<Rightarrow> call_channel \<times> ClientSession" where
  "setup_data_channel dc target_address config s =
     (\<lparr>ch_dc = dc, ch_target = target_address, ch_auto_accept = cfg_auto_accept (cl_client config), ch_rx_audio = True\<rparr>,
      set_data_channel dc s)"

definition on_open :: "'z wp_crates_scheme \<Rightarrow> call_channel \<Rightarrow> client_effect list \<times> call_channel" where
  "on_open E ch =
     ((case ch_target ch of
         Some target \<Rightarrow> [ChannelSend (ch_dc ch) (encode E (ClientTargetedAudio target CODEC_OPUS []))]
       | None \<Rightarrow> [])
      @ (if ch_rx_audio ch then [SpawnSender (ch_dc ch)] else []), ch\<lparr>ch_rx_audio := False\<rparr>)"

text \<open>\<^verbatim>\<open>OnMessage\<close>: a packet that does not decode is skipped; \<open>None\<close> is a panic.\<close>

definition on_client_message ::
    "'z wp_crates_scheme \<Rightarrow> readings \<Rightarrow> call_channel \<Rightarrow> responder \<Rightarrow> bytes \<Rightarrow> ClientSession \<Rightarrow> (client_effect list \<times> ClientSession) option" where
  "on_client_message E rd ch resp data s =
     (case decode E (wall_nanos rd) (time_counter rd) data of
        None \<Rightarrow> None
      | Some (Inl _) \<Rightarrow> Some ([], s)
      | Some (Inr packet) \<Rightarrow> dispatch_client_packet E packet (ch_auto_accept ch) (ch_dc ch) resp s)"

text \<open>Two sends of a handler are \<^verbatim>\<open>send(..).await\<close> on a bounded channel and wait while it is full: the prompt to
  \<^verbatim>\<open>incoming_call_tx\<close> and the notification to \<^verbatim>\<open>call_notification_tx\<close>. \<open>ready tx\<close> tells whether the channel takes
  a message at once (it has room, or its receiver is gone). The effects are performed in order up to the first send that waits.\<close>

fun waits_on :: "client_effect \<Rightarrow> tx_handle option" where
  "waits_on (CallPrompt tx _ _) = Some tx"
| "waits_on (NotifyHandler tx _) = Some tx"
| "waits_on _ = None"

fun perform :: "(tx_handle \<Rightarrow> bool) \<Rightarrow> client_effect list \<Rightarrow> client_effect list \<times> bool" where
  "perform ready [] = ([], True)"
| "perform ready (e # es) =
     (if (case waits_on e of Some tx \<Rightarrow> ready tx | None \<Rightarrow> True)
      then (let (done_effs, finished) = perform ready es in (e # done_effs, finished))
      else ([], False))"

text \<open>The arm of the event loop with its waits: the effects that have happened, whether the loop goes on to the next event, and the
  session, which the handlers change before they send.\<close>

definition client_message_step ::
    "'z wp_crates_scheme \<Rightarrow> readings \<Rightarrow> call_channel \<Rightarrow> responder \<Rightarrow> (tx_handle \<Rightarrow> bool) \<Rightarrow> bytes \<Rightarrow> ClientSession \<Rightarrow>
     ((client_effect list \<times> bool) \<times> ClientSession) option" where
  "client_message_step E rd ch resp ready data s =
     map_option (\<lambda>(effs, s). (perform ready effs, s)) (on_client_message E rd ch resp data s)"

text \<open>The packet the sender task makes of a chunk of the microphone's audio, by the session at that moment.\<close>

definition sender_packet :: "ClientSession \<Rightarrow> bytes \<Rightarrow> ProtocolPacket option" where
  "sender_packet s audio_bytes =
     (case cs_active_room s of
        Some room \<Rightarrow> Some (RoomGroupAudio room CODEC_OPUS audio_bytes)
      | None \<Rightarrow>
          (case cs_active_target s of
             Some target \<Rightarrow> Some (ClientTargetedAudio target CODEC_OPUS audio_bytes)
           | None \<Rightarrow> None))"

text \<open>The sender task on the chunks it receives, each with the session it finds and whether the channel takes the packet.\<close>

fun sender_task :: "'z wp_crates_scheme \<Rightarrow> dc_handle \<Rightarrow> (bytes \<times> ClientSession \<times> bool) list \<Rightarrow> client_effect list" where
  "sender_task E dc [] = []"
| "sender_task E dc ((audio_bytes, s, ok) # rest) =
     (case sender_packet s audio_bytes of
        None \<Rightarrow> sender_task E dc rest
      | Some packet \<Rightarrow> ChannelSend dc (encode E packet) # (if ok then sender_task E dc rest else []))"

section \<open>The data channel of a room\<close>

record room_channel =
  rc_dc :: dc_handle
  rc_room :: UserAddress
  rc_rx_audio :: bool

definition on_room_open :: "'z wp_crates_scheme \<Rightarrow> room_channel \<Rightarrow> client_effect list \<times> room_channel" where
  "on_room_open E rc =
     (ChannelSend (rc_dc rc) (encode E (RoomJoinRequest (rc_room rc))) #
      (if rc_rx_audio rc then [SpawnSender (rc_dc rc)] else []), rc\<lparr>rc_rx_audio := False\<rparr>)"

fun dispatch_room_packet ::
    "'z wp_crates_scheme \<Rightarrow> ProtocolPacket \<Rightarrow> dc_handle \<Rightarrow> ClientSession \<Rightarrow> client_effect list \<times> ClientSession" where
  "dispatch_room_packet E (ClientAssignment client_id user_address) dc s =
     ([], s\<lparr>cs_client_id := client_id, cs_user_address := Some user_address\<rparr>)"
| "dispatch_room_packet E (RoomGroupAudio _ _ audio_data) dc s = ([], play_samples audio_data s)"
| "dispatch_room_packet E (RoomGroupAudioE2EE _ _ _ audio_data) dc s = ([], play_samples audio_data s)"
| "dispatch_room_packet E (Ping timestamp) dc s = ([ChannelSend dc (encode E (Pong timestamp))], s)"
| "dispatch_room_packet E _ dc s = ([], s)"

definition on_room_message ::
    "'z wp_crates_scheme \<Rightarrow> readings \<Rightarrow> room_channel \<Rightarrow> bytes \<Rightarrow> ClientSession \<Rightarrow> (client_effect list \<times> ClientSession) option" where
  "on_room_message E rd rc data s =
     (case decode E (wall_nanos rd) (time_counter rd) data of
        None \<Rightarrow> None
      | Some (Inl _) \<Rightarrow> Some ([], s)
      | Some (Inr packet) \<Rightarrow> Some (dispatch_room_packet E packet (rc_dc rc) s))"

fun room_sender_task :: "'z wp_crates_scheme \<Rightarrow> dc_handle \<Rightarrow> UserAddress \<Rightarrow> (bytes \<times> bool) list \<Rightarrow> client_effect list" where
  "room_sender_task E dc r_addr [] = []"
| "room_sender_task E dc r_addr ((audio_bytes, ok) # rest) =
     ChannelSend dc (encode E (RoomGroupAudio r_addr CODEC_OPUS audio_bytes)) # (if ok then room_sender_task E dc r_addr rest else [])"

section \<open>Signing in and hanging up\<close>

text \<open>The request of \<^verbatim>\<open>perform_sdp_handshake\<close>: endpoint and headers. What the WebRTC stack and the HTTP client
  answer is in \<open>sdp_exchange\<close>: the local description, the response (status and body, or the send error), and whether the answer is valid
  JSON that the stack takes.\<close>

record sdp_exchange =
  ex_local_sdp :: "(string option, string) result"
  ex_response :: "(nat \<times> string, string) result"
  ex_answer :: "(unit, string) result"

datatype CallFailure =
    RtcFailure string
  | NoLocalDescription
  | SendFailed string string
  | ServerRejected nat string
  | AnswerFailed string
  | AudioFailure string

definition sdp_request :: "'z crypto_crates_scheme \<Rightarrow> u64 \<Rightarrow> ClConfiguration \<Rightarrow> ClientSession \<Rightarrow> string \<Rightarrow> string \<times> (string \<times> string) list" where
  "sdp_request E now config s local_sdp =
     (let (_, auth_header_val) = build_authorization_header E now (cs_keypair s) local_sdp
      in (server_url config @ ''/sdp'',
          [(''content-type'', ''application/json''), (''authorization'', auth_header_val), (''x-webphone-sign'', auth_header_val)]))"

definition perform_sdp_handshake :: "ClConfiguration \<Rightarrow> sdp_exchange \<Rightarrow> (unit, CallFailure) result" where
  "perform_sdp_handshake config ex =
     (case ex_local_sdp ex of
        Inl e \<Rightarrow> Err (RtcFailure e)
      | Inr None \<Rightarrow> Err NoLocalDescription
      | Inr (Some _) \<Rightarrow>
          (case ex_response ex of
             Inl err \<Rightarrow> Err (SendFailed (server_url config @ ''/sdp'') err)
           | Inr (status, body) \<Rightarrow>
               if \<not> (200 \<le> status \<and> status < 300) then Err (ServerRejected status body)
               else (case ex_answer ex of Inl e \<Rightarrow> Err (AnswerFailed e) | Inr _ \<Rightarrow> Ok ())))"

text \<open>\<^verbatim>\<open>start_call_with_session\<close> and \<^verbatim>\<open>start_room_call_with_session\<close> up to the point where the call runs, on the answers of the
  WebRTC stack, the server and the audio devices, and what they send when the call is cancelled. The audio engine takes over the
  echo switch of the configuration before it opens the devices. The channel of a room is not stored in the session.\<close>

record call_env =
  ce_peer :: "(unit, string) result"
  ce_channel :: "(dc_handle, string) result"
  ce_exchange :: sdp_exchange
  ce_audio :: "(unit, string) result"

definition call_begin :: "UserAddress option \<Rightarrow> ClientSession \<Rightarrow> ClientSession" where
  "call_begin target_address s =
     (case target_address of Some target \<Rightarrow> set_target_address (Some target) s | None \<Rightarrow> s)"

definition AudioEngine_start :: "call_env \<Rightarrow> ClConfiguration \<Rightarrow> ClientSession \<Rightarrow> (unit, CallFailure) result \<times> ClientSession" where
  "AudioEngine_start env config s =
     (case ce_audio env of Inl e \<Rightarrow> Err (AudioFailure e) | Inr _ \<Rightarrow> Ok (),
      set_allow_echoback (aud_allow_echoback (cl_audio config)) s)"

definition start_call_with_session ::
    "call_env \<Rightarrow> ClConfiguration \<Rightarrow> UserAddress option \<Rightarrow> ClientSession \<Rightarrow> (call_channel, CallFailure) result \<times> ClientSession" where
  "start_call_with_session env config target_address s =
     (let s = call_begin target_address s in
      case ce_peer env of
        Inl e \<Rightarrow> (Err (RtcFailure e), s)
      | Inr _ \<Rightarrow>
          (case ce_channel env of
             Inl e \<Rightarrow> (Err (RtcFailure e), s)
           | Inr dc \<Rightarrow>
               let (ch, s) = setup_data_channel dc target_address config s in
               (case perform_sdp_handshake config (ce_exchange env) of
                  Inl e \<Rightarrow> (Err e, s)
                | Inr _ \<Rightarrow>
                    let (started, s) = AudioEngine_start env config s
                    in (case started of Inl e \<Rightarrow> Err e | Inr _ \<Rightarrow> Ok ch, s))))"

definition start_room_call_with_session ::
    "call_env \<Rightarrow> ClConfiguration \<Rightarrow> UserAddress \<Rightarrow> ClientSession \<Rightarrow> (room_channel, CallFailure) result \<times> ClientSession" where
  "start_room_call_with_session env config room_address s =
     (case ce_peer env of
        Inl e \<Rightarrow> (Err (RtcFailure e), s)
      | Inr _ \<Rightarrow>
          (case ce_channel env of
             Inl e \<Rightarrow> (Err (RtcFailure e), s)
           | Inr dc \<Rightarrow>
               (case perform_sdp_handshake config (ce_exchange env) of
                  Inl e \<Rightarrow> (Err e, s)
                | Inr _ \<Rightarrow>
                    let (started, s) = AudioEngine_start env config s
                    in (case started of
                          Inl e \<Rightarrow> Err e
                        | Inr _ \<Rightarrow> Ok \<lparr>rc_dc = dc, rc_room = room_address, rc_rx_audio = True\<rparr>, s))))"

definition call_end :: "'z wp_crates_scheme \<Rightarrow> dc_handle \<Rightarrow> UserAddress option \<Rightarrow> client_effect list" where
  "call_end E dc target_address =
     (case target_address of Some target \<Rightarrow> [ChannelSend dc (encode E (CallHangup target))] | None \<Rightarrow> [])"

definition room_end :: "'z wp_crates_scheme \<Rightarrow> dc_handle \<Rightarrow> UserAddress \<Rightarrow> client_effect list" where
  "room_end E dc room_address = [ChannelSend dc (encode E (RoomLeaveRequest room_address))]"

section \<open>Lemmas\<close>

context hex_laws
begin

lemma short_id_canonical: "canonical E a \<Longrightarrow> short_id a = Some (take 12 (addr_id a))"
proof -
  assume a: "canonical E a"
  then obtain bs where bs: "length bs = 32" "addr_id a = hex_encode E bs"
    by (auto simp: canonical_iff from_bytes_def)
  then have "addr_id a ! 12 \<in> set (hex_encode E bs)" by (simp add: length_hex_encode)
  then have "(of_char (addr_id a ! 12) :: nat) < 128" by (rule hex_encode_ascii)
  with length_addr_canonical [OF a] show ?thesis by (simp add: short_id_def is_char_boundary_def)
qed

end

text \<open>Addresses whose short ID can be taken; the states of a session that no packet takes into a panic.\<close>

definition sliceable :: "UserAddress option \<Rightarrow> bool" where
  "sliceable a \<longleftrightarrow> (case a of Some a \<Rightarrow> short_id a \<noteq> None | None \<Rightarrow> True)"

definition session_ok :: "ClientSession \<Rightarrow> bool" where
  "session_ok s \<longleftrightarrow> rb_ok (cs_audio_buffer s) \<and> sliceable (cs_user_address s) \<and> sliceable (cs_active_target s)"

lemma is_party_total: "sliceable a \<Longrightarrow> sliceable (Some caller) \<Longrightarrow> \<exists>b. is_party a caller = Some b"
  by (auto simp: is_party_def same_party_def sliceable_def split: option.splits)

lemma session_ok_play: "session_ok s \<Longrightarrow> session_ok (play_samples audio s)"
  by (simp add: session_ok_def play_samples_def push_slice_contents(1))

lemma session_ok_target [simp]: "sliceable t \<Longrightarrow> session_ok s \<Longrightarrow> session_ok (set_target_address t s)"
  by (simp add: session_ok_def set_target_address_def)

text \<open>What no packet changes.\<close>

definition same_settings :: "ClientSession \<Rightarrow> ClientSession \<Rightarrow> bool" where
  "same_settings s t \<longleftrightarrow>
     cs_keypair t = cs_keypair s \<and> cs_active_room t = cs_active_room s \<and> cs_data_channel t = cs_data_channel s \<and>
     cs_incoming_call_tx t = cs_incoming_call_tx s \<and> cs_call_notification_tx t = cs_call_notification_tx s \<and>
     cs_is_muted t = cs_is_muted s \<and> cs_allow_echoback t = cs_allow_echoback s"

lemma same_settings_simps [simp]:
  "same_settings s s" "same_settings s (set_target_address t s)" "same_settings s (play_samples audio s)"
  "same_settings s (s\<lparr>cs_client_id := i, cs_user_address := a\<rparr>)"
  by (simp_all add: same_settings_def set_target_address_def play_samples_def)

lemma call_request_total:
  assumes "session_ok s" and "sliceable (Some caller)"
  shows "\<exists>effs s'. handle_call_request E caller auto_accept dc resp s = Some (effs, s') \<and> session_ok s' \<and> same_settings s s'"
proof -
  obtain b1 b2 where "is_party (cs_user_address s) caller = Some b1" "is_party (cs_active_target s) caller = Some b2"
    using assms is_party_total by (meson session_ok_def)
  then show ?thesis
    using assms by (auto simp: handle_call_request_def split: option.splits)
qed

lemma dispatch_client_total:
  assumes "hex_laws E" and "session_ok s" and "wf_packet E p"
  shows "\<exists>effs s'. dispatch_client_packet E p auto_accept dc resp s = Some (effs, s') \<and> session_ok s' \<and> same_settings s s'"
proof -
  have c: "sliceable (Some a)" if "canonical E a" for a
    using hex_laws.short_id_canonical [OF assms(1) that] by (simp add: sliceable_def)
  have assign: "session_ok (s\<lparr>cs_client_id := i, cs_user_address := Some a\<rparr>)" if "canonical E a" for i a
    using assms(2) c [OF that] by (simp add: session_ok_def)
  have none: "sliceable None" by (simp add: sliceable_def)
  show ?thesis
    using assms(2,3) call_request_total [OF assms(2)] session_ok_play [OF assms(2)] assign c none
    by (cases p) (simp_all add: Let_def, blast)
qed

text \<open>Only the last effect of a handler may wait, and only for a channel of the session.\<close>

definition last_waits :: "ClientSession \<Rightarrow> client_effect list \<Rightarrow> bool" where
  "last_waits s effs \<longleftrightarrow> (\<forall>e \<in> set (butlast effs). waits_on e = None) \<and>
     (\<forall>e \<in> set effs. \<forall>tx. waits_on e = Some tx \<longrightarrow> cs_incoming_call_tx s = Some tx \<or> cs_call_notification_tx s = Some tx)"

lemma last_waitsD:
  assumes "last_waits s effs"
  shows "\<forall>e \<in> set (butlast effs). waits_on e = None"
    and "\<forall>e \<in> set effs. \<forall>tx. waits_on e = Some tx \<longrightarrow> cs_incoming_call_tx s = Some tx \<or> cs_call_notification_tx s = Some tx"
  using assms by (simp_all add: last_waits_def)

lemma dispatch_last_waits: "dispatch_client_packet E p auto_accept dc resp s = Some (effs, s') \<Longrightarrow> last_waits s effs"
  by (cases p)
     (auto simp: last_waits_def handle_call_request_def notify_call_event_def set_target_address_def Let_def
        Option.bind_eq_Some_conv split: if_splits option.splits)

lemma perform_last:
  assumes "\<forall>e \<in> set (butlast effs). waits_on e = None"
  shows "perform ready effs =
    (if effs \<noteq> [] \<and> (\<exists>tx. waits_on (last effs) = Some tx \<and> \<not> ready tx) then (butlast effs, False) else (effs, True))"
  using assms
proof (induction effs)
  case (Cons e es)
  then show ?case by (cases "es = []") (auto simp: Let_def split: option.splits)
qed simp

lemma dispatch_keeps_mute:
  "dispatch_client_packet E p auto_accept dc resp s = Some (effs, s') \<Longrightarrow> cs_is_muted s' = cs_is_muted s"
  by (cases p)
     (auto simp: handle_call_request_def Option.bind_eq_Some_conv session_defs play_samples_def Let_def split: if_splits option.splits)

lemma started_call:
  assumes "start_call_with_session env config target s = (Ok ch, s')"
  shows "ch_target ch = target" "ch_auto_accept ch = cfg_auto_accept (cl_client config)" "cs_data_channel s' = Some (ch_dc ch)"
    "cs_active_target s' = (if target = None then cs_active_target s else target)" "cs_active_room s' = cs_active_room s"
  using assms
  by (auto simp: start_call_with_session_def AudioEngine_start_def setup_data_channel_def call_begin_def session_defs Let_def
      split: sum.splits option.splits if_splits)

section \<open>Properties\<close>

text \<open>C34: whatever bytes the daemon sends, the client's message handler does not panic; it keeps the audio buffer
  and the addresses of the session in order and touches neither the keys, the room, the channels nor the mute and echo switches.
  It finishes exactly when the one bounded channel it may have to send to, that of the session's call handler or notification
  handler, takes the message at once; on a full channel it has done everything but that last send and waits there, with the
  session already changed.\<close>

theorem client_message_invariant:
  assumes "crate_laws E" and "session_ok s"
  shows "\<exists>effs s'. on_client_message E rd ch resp data s = Some (effs, s') \<and> session_ok s' \<and> same_settings s s' \<and>
    (\<forall>e \<in> set (butlast effs). waits_on e = None) \<and>
    (\<forall>e \<in> set effs. \<forall>tx. waits_on e = Some tx \<longrightarrow> cs_incoming_call_tx s = Some tx \<or> cs_call_notification_tx s = Some tx) \<and>
    (\<forall>ready. client_message_step E rd ch resp ready data s =
       Some (if effs \<noteq> [] \<and> (\<exists>tx. waits_on (last effs) = Some tx \<and> \<not> ready tx) then (butlast effs, False) else (effs, True), s'))"
proof -
  have h: "hex_laws E" using assms(1) by (simp add: crate_laws_def bytes_laws_def)
  have "decodes_well E (decode E (wall_nanos rd) (time_counter rd) data)"
    by (rule crate_laws.decode_decodes_well [OF assms(1)])
  then consider e where "decode E (wall_nanos rd) (time_counter rd) data = Some (Err e)"
    | p where "decode E (wall_nanos rd) (time_counter rd) data = Some (Ok p)" "wf_packet E p"
    by (auto simp: decodes_well_def split: option.splits sum.splits)
  then have "\<exists>effs s'. on_client_message E rd ch resp data s = Some (effs, s') \<and> session_ok s' \<and> same_settings s s' \<and> last_waits s effs"
  proof cases
    case (2 p)
    obtain effs s' where d: "dispatch_client_packet E p (ch_auto_accept ch) (ch_dc ch) resp s = Some (effs, s')"
        "session_ok s'" "same_settings s s'"
      using dispatch_client_total [OF h assms(2) 2(2)] by blast
    with 2(1) dispatch_last_waits [OF d(1)] show ?thesis by (simp add: on_client_message_def)
  qed (use assms(2) in \<open>simp add: on_client_message_def last_waits_def\<close>)
  then obtain effs s' where r: "on_client_message E rd ch resp data s = Some (effs, s')" "session_ok s'" "same_settings s s'"
      "last_waits s effs"
    by blast
  show ?thesis
    using r perform_last [OF last_waitsD(1) [OF r(4)]] last_waitsD [OF r(4)] by (auto simp: client_message_step_def)
qed

lemma empty_buffer_ok: "rb_ok empty_buffer"
  using new_ok [of 65536] by (auto simp: empty_buffer_def default_capacity_def)

lemma session_ok_new [simp]: "session_ok (with_keypair kp)"
  by (simp add: session_ok_def with_keypair_def sliceable_def empty_buffer_ok)

definition channel_example :: call_channel where
  "channel_example = \<lparr>ch_dc = 11, ch_target = None, ch_auto_accept = False, ch_rx_audio = False\<rparr>"

text \<open>A request of \<open>addr_b\<close> while the channel of the call handler is full.\<close>

theorem client_message_invariant_witness:
  "\<exists>s'. client_message_step std_crates rd_example channel_example 0 (\<lambda>_. False) (encode std_crates (CallRequest 2 addr_b))
      ((with_keypair (keypair_from_bytes []))\<lparr>cs_incoming_call_tx := Some 3\<rparr>) = Some (([SpawnReply 0 11 addr_b], False), s') \<and>
     session_ok s' \<and> cs_is_muted s' = False"
proof -
  let ?s = "(with_keypair (keypair_from_bytes []))\<lparr>cs_incoming_call_tx := Some 3\<rparr>"
  have ok: "session_ok ?s" using session_ok_new [of "keypair_from_bytes []"] by (simp add: session_ok_def)
  have m: "on_client_message std_crates rd_example channel_example 0 (encode std_crates (CallRequest 2 addr_b)) ?s =
      Some ([SpawnReply 0 11 addr_b, CallPrompt 3 addr_b 0], set_target_address (Some addr_b) ?s)"
    using std.decode_encode_packet [of "CallRequest 2 addr_b"]
    by (simp add: on_client_message_def channel_example_def handle_call_request_def is_party_def with_keypair_def)
  from client_message_invariant [OF std.crate_laws_axioms ok, of rd_example channel_example 0 "encode std_crates (CallRequest 2 addr_b)"]
  obtain s' where s': "session_ok s'" "same_settings ?s s'"
      "\<forall>ready. client_message_step std_crates rd_example channel_example 0 ready (encode std_crates (CallRequest 2 addr_b)) ?s =
        Some (if \<not> ready 3 then ([SpawnReply 0 11 addr_b], False)
              else ([SpawnReply 0 11 addr_b, CallPrompt 3 addr_b 0], True), s')"
    unfolding m by (auto simp: if_distrib cong: if_cong)
  then show ?thesis by (auto simp: same_settings_def with_keypair_def)
qed

text \<open>C35: a client tells the daemon that it accepts a call only in answer to a request of that caller. It does so at
  once, unasked, only when it was set up to accept calls or its target already is that party; otherwise a prompt goes to the call
  handler, and the task that waits for the answer accepts exactly when the answer is yes.\<close>

theorem accept_needs_request:
  assumes "crate_laws E" and "wf_packet E p" and "canonical E a"
    and "dispatch_client_packet E p auto_accept dc resp s = Some (effs, s')"
  shows "(ChannelSend d (encode E (CallAcceptResponse a)) \<in> set effs \<longrightarrow>
            (\<exists>i. p = CallRequest i a) \<and> (auto_accept \<or> is_party (cs_active_target s) a = Some True) \<and> cs_active_target s' = Some a) \<and>
         (SpawnReply r d c \<in> set effs \<longrightarrow>
            (\<exists>i tx. p = CallRequest i c \<and> cs_incoming_call_tx s = Some tx \<and> CallPrompt tx c r \<in> set effs)
            \<and> \<not> auto_accept \<and> is_party (cs_active_target s) c = Some False) \<and>
         (canonical E c \<longrightarrow>
            (ChannelSend d (encode E (CallAcceptResponse a)) \<in> set (reply_task E d' c answer) \<longleftrightarrow> d = d' \<and> c = a \<and> answer = Some True))"
proof -
  have inj: "encode E q = encode E (CallAcceptResponse a) \<longleftrightarrow> q = CallAcceptResponse a" if "wf_packet E q" for q
    using crate_laws.decode_encode_packet [OF assms(1) that, of 0 0]
      crate_laws.decode_encode_packet [OF assms(1), of "CallAcceptResponse a" 0 0] assms(3)
    by (metis option.inject sum.inject(2) wf_packet.simps(6))
  have pong: "encode E (CallAcceptResponse a) \<noteq> encode E (Pong t)" for t using inj [of "Pong t"] by simp
  have 1: "(\<exists>i. p = CallRequest i a) \<and> (auto_accept \<or> is_party (cs_active_target s) a = Some True) \<and> cs_active_target s' = Some a"
    if "ChannelSend d (encode E (CallAcceptResponse a)) \<in> set effs"
  proof (cases p)
    case (CallRequest i c)
    have [simp]: "encode E (CallAcceptResponse a) = encode E (CallAcceptResponse c) \<longleftrightarrow> c = a"
      using inj [of "CallAcceptResponse c"] assms(2) CallRequest by auto
    show ?thesis
      using assms(4) that CallRequest
      by (auto simp: handle_call_request_def Option.bind_eq_Some_conv set_target_address_def split: if_splits option.splits)
  qed (use assms(4) that in \<open>auto simp: pong notify_call_event_def Let_def split: option.splits\<close>)
  have 2: "(\<exists>i tx. p = CallRequest i c \<and> cs_incoming_call_tx s = Some tx \<and> CallPrompt tx c r \<in> set effs)
      \<and> \<not> auto_accept \<and> is_party (cs_active_target s) c = Some False" if "SpawnReply r d c \<in> set effs"
    using assms(4) that
    by (cases p) (auto simp: handle_call_request_def notify_call_event_def Let_def Option.bind_eq_Some_conv
        split: if_splits option.splits)
  have 3: "ChannelSend d (encode E (CallAcceptResponse a)) \<in> set (reply_task E d' c answer) \<longleftrightarrow> d = d' \<and> c = a \<and> answer = Some True"
    if "canonical E c"
    using inj [of "CallAcceptResponse c"] inj [of "CallRejectResponse c"] that
    by (auto simp: reply_task_def split: option.splits)
  show ?thesis using 1 2 3 by blast
qed

text \<open>The user of the example calls \<open>addr_b\<close> and is called back.\<close>

theorem accept_needs_request_witness:
  "\<exists>s'. dispatch_client_packet std_crates (CallRequest 2 addr_b) False 11 0 (set_target_address (Some addr_b) (with_keypair (keypair_from_bytes []))) =
      Some ([ChannelSend 11 (encode std_crates (CallAcceptResponse addr_b))], s') \<and> cs_active_target s' = Some addr_b \<and>
     ChannelSend 11 (encode std_crates (CallAcceptResponse addr_b)) \<notin> set (reply_task std_crates 11 addr_b (Some False))"
proof -
  let ?s = "set_target_address (Some addr_b) (with_keypair (keypair_from_bytes []))"
  have d: "dispatch_client_packet std_crates (CallRequest 2 addr_b) False 11 0 ?s =
      Some ([ChannelSend 11 (encode std_crates (CallAcceptResponse addr_b))], set_target_address (Some addr_b) ?s)"
    by (simp add: handle_call_request_def is_party_def same_party_def set_target_address_def with_keypair_def)
  from accept_needs_request [OF std.crate_laws_axioms _ _ d, of addr_b 11 _ addr_b 11 "Some False"] d show ?thesis by simp
qed

text \<open>A prompt alone makes the caller the session's target, so a second request of the same caller is accepted without an answer
  to the first.\<close>

theorem second_request_accepted_unasked:
  assumes "dispatch_client_packet E (CallRequest i a) auto_accept dc resp s = Some (effs, s1)" and "CallPrompt tx a resp \<in> set effs"
  shows "dispatch_client_packet E (CallRequest j a) auto_accept dc resp' s1 =
    Some ([ChannelSend dc (encode E (CallAcceptResponse a))], set_target_address (Some a) s1)"
proof -
  have "is_party (cs_user_address s) a = Some False" "s1 = set_target_address (Some a) s"
    using assms by (auto simp: handle_call_request_def Option.bind_eq_Some_conv split: if_splits option.splits)
  then show ?thesis by (simp add: handle_call_request_def set_target_address_def is_party_def same_party_def)
qed

end
