(* ===== verification/WP_System.thy ===== *)
theory WP_System
  imports WP_Client WP_Signaling
begin

text \<open>
  Clients and a daemon together: the request a client signs in with, against the daemon's SDP endpoint, and a call
  between two clients, against the daemon's packet handlers.
\<close>

section \<open>Signing in\<close>

text \<open>The headers of a request as the server reads them.\<close>

definition header_map :: "(string \<times> string) list \<Rightarrow> HeaderMap" where
  "header_map hs n = map_option Some (map_of hs n)"

lemma sdp_request_header:
  "auth_header (header_map (snd (sdp_request E now config sess local_sdp))) ''x-webphone-sign''
     = Some (snd (build_authorization_header E now (cs_keypair sess) local_sdp))"
  by (simp add: sdp_request_def header_map_def auth_header_def case_prod_beta)

text \<open>C33: the request a client builds is admitted by a daemon whose clock is within five minutes of the
  client's and that has room, under the address of the client's own key, and the daemon takes the next client id for it.\<close>

theorem client_signs_in:
  assumes "crypto_laws E" and "keypair_ok E (cs_keypair sess)" and "cache_ok (sg_cache s)"
    and "abs_diff (unix_secs rd) now \<le> MAX_TIMESTAMP_DRIFT_SECS"
    and "hm_get (signatures (sg_cache s)) (sign E (cs_keypair sess) (auth_payload now (sd_sdp offer))) = None"
    and "hm_len (peer_connections (client_registry (sg_daemon s))) < max_connections (server cfg)"
  shows "\<exists>s'. admit_offer E cfg rd (header_map (snd (sdp_request E now config sess (sd_sdp offer)))) offer s =
           (Ok \<lparr>h_client_id = sg_client_count s, h_user_address = public_key_address E (cs_keypair sess),
                h_my_node_id = node_id (mesh cfg)\<rparr>, s') \<and>
         sg_client_count s' = sg_client_count s + 1 \<and> sg_daemon s' = sg_daemon s"
proof -
  have "fst (verify_any_authorization_header E (unix_secs rd)
      (snd (build_authorization_header E now (cs_keypair sess) (sd_sdp offer))) (sd_sdp offer) (sg_cache s))
      = Ok (public_key_address E (cs_keypair sess))"
    unfolding verify_any_authorization_header_def by (rule built_header_accepted [OF assms(1-5)])
  then obtain cache where "authenticate_offer E cfg rd (header_map (snd (sdp_request E now config sess (sd_sdp offer)))) offer (sg_cache s)
      = (Ok (public_key_address E (cs_keypair sess)), cache)"
    by (cases "verify_any_authorization_header E (unix_secs rd)
         (snd (build_authorization_header E now (cs_keypair sess) (sd_sdp offer))) (sd_sdp offer) (sg_cache s)")
       (auto simp: authenticate_offer_def sdp_request_header)
  then show ?thesis using assms(6) by (simp add: admit_offer_def Let_def)
qed

theorem client_signs_in_witness:
  "\<exists>s'. admit_offer std_crypto cfg_example rd_1005
       (header_map (snd (sdp_request std_crypto 1000 ClConfiguration_default (with_keypair (keypair_from_bytes (replicate 32 7))) (sd_sdp offer_example))))
       offer_example sg_example =
     (Ok \<lparr>h_client_id = sg_client_count sg_example,
          h_user_address = public_key_address std_crypto (keypair_from_bytes (replicate 32 7)), h_my_node_id = 7\<rparr>, s')"
proof -
  let ?sess = "with_keypair (keypair_from_bytes (replicate 32 7))"
  have "cs_keypair ?sess = keypair_from_bytes (replicate 32 7)" by (simp add: with_keypair_def)
  then have k: "keypair_ok std_crypto (cs_keypair ?sess)" by (simp add: keypair_ok_def keypair_from_bytes_def)
  have c: "sg_cache sg_example = AntiReplayCache_new" "sg_daemon sg_example = approved_example" by (simp_all add: sg_example_def)
  have "abs_diff (unix_secs rd_1005) 1000 \<le> MAX_TIMESTAMP_DRIFT_SECS"
    by (simp add: abs_diff_def MAX_TIMESTAMP_DRIFT_SECS_def unix_secs_def rd_1005_def)
  moreover have "hm_get (signatures (sg_cache sg_example)) sig = None" for sig
    by (simp add: c AntiReplayCache_new_def hm_simps)
  moreover have "hm_len (peer_connections (client_registry (sg_daemon sg_example))) < max_connections (server cfg_example)"
    by (simp add: c example_facts)
  ultimately show ?thesis
    using client_signs_in [OF stdc.crypto_laws_axioms k, of sg_example rd_1005 1000 offer_example cfg_example ClConfiguration_default]
      cache_ok_new
    by (auto simp: c example_facts \<open>cs_keypair ?sess = _\<close>)
qed

section \<open>A call\<close>

text \<open>Client \<open>a\<close> under \<open>pa\<close> and client \<open>b\<close> under \<open>pb\<close> are connected, both have answered keep-alives, and
  \<open>a\<close> has neither approved nor rejected \<open>b\<close> nor been told of it.\<close>

definition strangers :: "readings \<Rightarrow> daemon \<Rightarrow> client_id \<Rightarrow> dc_handle \<Rightarrow> UserAddress \<Rightarrow> client_id \<Rightarrow> UserAddress \<Rightarrow> bool" where
  "strangers rd d a dc_a pa b pb \<longleftrightarrow>
     a \<noteq> b \<and> conn_find_client_by_address d pa = Found a \<and> hm_get (data_channels (client_registry d)) a = Some dc_a \<and>
     a \<notin> set (get_stale_clients (instant_now rd) (client_registry d) KEEP_ALIVE_TIMEOUT_SECS) \<and>
     \<not> conn_is_client_in_room d b pa \<and> \<not> conn_is_room_or_target_full d pa \<and>
     hm_get (targets (client_registry d)) a = None \<and> \<not> conn_is_call_rejected d a pb \<and> \<not> conn_is_call_approved d a pb \<and>
     \<not> conn_has_been_notified d a b"

text \<open>What the daemon does with audio from \<open>b\<close> to \<open>a\<close>, before and after \<open>a\<close> has accepted \<open>b\<close>.\<close>

lemma first_audio_asks:
  assumes "strangers rd d a dc_a pa b pb" and "length audio \<le> MAX_MESSAGE_SIZE"
  shows "handle_client_targeted_audio E rd b (Some pb) pa codec node audio dc_b d =
     ([DcSend dc_a (encode E (CallRequest b pb))], conn_mark_notified a b d)"
proof -
  have "hm_get (data_channels (client_registry (conn_mark_notified a b d))) a = Some dc_a"
    using assms(1) by (simp add: strangers_def conn_mark_notified_def mark_notified_def)
  then show ?thesis
    using assms by (simp add: strangers_def handle_client_targeted_audio_def route_to_client_def address_or_default_def Let_def)
qed

lemma accepted_audio_flows:
  assumes "strangers rd d a dc_a pa b pb" and "length audio \<le> MAX_MESSAGE_SIZE" and "audio \<noteq> []"
    and "d' = snd (handle_call_accept_response E rd a pb (conn_mark_notified a b d))"
  shows "\<exists>m. AudioBroadcast m \<in> set (fst (handle_client_targeted_audio E rd b (Some pb) pa codec node audio dc_b d')) \<and>
     am_sender_id m = b \<and> am_target_address m = pa \<and> am_data m = audio"
proof -
  define d1 where "d1 = conn_mark_call_approved a pb (conn_mark_notified a b d)"
  have d': "d' = d1\<lparr>client_registry := (client_registry d1)\<lparr>targets := hm_or_insert a pb (targets (client_registry d1))\<rparr>\<rparr>"
    by (simp add: assms(4) handle_call_accept_response_def d1_def Let_def)
  have same: "addresses (client_registry d') = addresses (client_registry d)" "last_pong (client_registry d') = last_pong (client_registry d)"
      "rejected_calls (client_registry d') = rejected_calls (client_registry d)"
      "targets (client_registry d') = hm_or_insert a pb (targets (client_registry d))"
    by (simp_all add: d' d1_def conn_mark_call_approved_def mark_call_approved_def conn_mark_notified_def mark_notified_def)
  have t: "hm_get (targets (client_registry d')) a = Some pb" "hm_get (targets (client_registry d')) b = hm_get (targets (client_registry d)) b"
    using assms(1) by (auto simp: same strangers_def hm_simps)
  have "conn_find_client_by_address d' pa = conn_find_client_by_address d pa" "conn_is_client_in_room d' b pa = conn_is_client_in_room d b pa"
      "conn_is_call_rejected d' a pb = conn_is_call_rejected d a pb"
      "get_stale_clients (instant_now rd) (client_registry d') n = get_stale_clients (instant_now rd) (client_registry d) n" for n
    using t(2) by (simp_all add: conn_defs find_client_by_address_def is_client_in_room_def is_call_rejected_def get_stale_clients_def same(1-3))
  then show ?thesis
    using assms t(1) by (simp add: strangers_def handle_client_targeted_audio_def route_to_client_def address_or_default_def Let_def
        matches_address_prefix_def)
qed

lemma accept_notifies:
  assumes "conn_find_client_by_address d pb = Found b" and "hm_get (data_channels (client_registry d)) b = Some dc_b"
    and "hm_get (addresses (client_registry d)) a = Some pa"
  shows "fst (handle_call_accept_response E rd a pb (conn_mark_notified a b d)) = [DcSend dc_b (encode E (CallAcceptedNotification pa))]"
proof -
  define d1 where "d1 = conn_mark_call_approved a pb (conn_mark_notified a b d)"
  define d2 where "d2 = d1\<lparr>client_registry := (client_registry d1)\<lparr>targets := hm_or_insert a pb (targets (client_registry d1))\<rparr>\<rparr>"
  have same: "addresses (client_registry d2) = addresses (client_registry d)" "data_channels (client_registry d2) = data_channels (client_registry d)"
    by (simp_all add: d2_def d1_def conn_mark_call_approved_def mark_call_approved_def conn_mark_notified_def mark_notified_def)
  have "conn_find_client_by_address d2 pb = conn_find_client_by_address d pb"
    by (simp add: conn_find_client_by_address_def find_client_by_address_def same)
  then show ?thesis
    using assms by (simp add: handle_call_accept_response_def send_call_response_notification_def address_or_default_def Let_def same
        flip: d1_def d2_def)
qed

lemma call_request_prompts:
  assumes "cs_incoming_call_tx s = Some tx" and "is_party (cs_user_address s) caller = Some False"
    and "is_party (cs_active_target s) caller = Some False"
  shows "dispatch_client_packet E (CallRequest i caller) False dc resp s =
     Some ([SpawnReply resp dc caller, CallPrompt tx caller resp], set_target_address (Some caller) s)"
  using assms by (simp add: handle_call_request_def)

text \<open>C11: a call is set up and heard. A client starts a call to a client of the same node that does not know it:
  on opening its channel it sends the packet on which the daemon asks the other client, whose user is prompted; the user's answer reaches
  the daemon, which tells the caller; the first chunk of the caller's microphone after that is broadcast, the daemon forwards it over the
  other client's channel, and the other client puts exactly these samples into its player. (The chunks after it are not broadcast:
  see \<open>WP_Daemon\<close>, the daemon takes them for audio of a room.)\<close>

theorem call_is_established:
  assumes "strangers rd d a dc_a pa b pb" and "conn_find_client_by_address d pb = Found b"
    and "hm_get (data_channels (client_registry d)) b = Some dc_b" and "hm_get (addresses (client_registry d)) a = Some pa"
    and "start_call_with_session env config (Some pa) s0 = (Ok ch, caller)" and "cs_active_room s0 = None"
    and "cs_incoming_call_tx callee = Some tx" and "is_party (cs_user_address callee) pb = Some False"
    and "is_party (cs_active_target callee) pb = Some False"
    and "length chunk \<le> MAX_MESSAGE_SIZE" and "chunk \<noteq> []"
  shows "\<exists>callee' callee'' caller' d1 d2 m p.
     ChannelSend (ch_dc ch) (encode E (ClientTargetedAudio pa CODEC_OPUS [])) \<in> set (fst (on_open E ch)) \<and>
     dispatch_daemon_packet E rd b pb node (ClientTargetedAudio pa CODEC_OPUS []) dc_b d = ([DcSend dc_a (encode E (CallRequest b pb))], d1) \<and>
     dispatch_client_packet E (CallRequest b pb) False dc resp callee = Some ([SpawnReply resp dc pb, CallPrompt tx pb resp], callee') \<and>
     reply_task E dc pb (Some True) = [ChannelSend dc (encode E (CallAcceptResponse pb))] \<and>
     dispatch_daemon_packet E rd a pa node (CallAcceptResponse pb) dc_a d1 = ([DcSend dc_b (encode E (CallAcceptedNotification pa))], d2) \<and>
     dispatch_client_packet E (CallAcceptedNotification pa) False (ch_dc ch) resp caller = Some (notify_call_event (Accepted pa) caller', caller') \<and>
     sender_packet caller' chunk = Some (ClientTargetedAudio pa CODEC_OPUS chunk) \<and>
     AudioBroadcast m \<in> set (fst (dispatch_daemon_packet E rd b pb node (ClientTargetedAudio pa CODEC_OPUS chunk) dc_b d2)) \<and>
     forward_audio E rd \<lparr>cc_dc = dc_a, cc_client_id = a, cc_user_address = pa, cc_node_id = node\<rparr> m = [DcSend dc_a (encode E p)] \<and>
     dispatch_client_packet E p False dc resp callee' = Some ([], callee'') \<and>
     cs_audio_buffer callee'' = push_slice (decode_samples chunk) (cs_audio_buffer callee)"
proof -
  define d1 where "d1 = conn_mark_notified a b d"
  define d2 where "d2 = snd (handle_call_accept_response E rd a pb d1)"
  define caller' where "caller' = set_target_address (Some pa) caller"
  define callee' where "callee' = set_target_address (Some pb) callee"
  have h: "handle_call_accept_response E rd a pb d1 = ([DcSend dc_b (encode E (CallAcceptedNotification pa))], d2)"
    using accept_notifies [OF assms(2-4), of E rd] by (simp add: d2_def d1_def prod_eq_iff)
  obtain m where m: "AudioBroadcast m \<in> set (fst (handle_client_targeted_audio E rd b (Some pb) pa CODEC_OPUS node chunk dc_b d2))"
      "am_sender_id m = b" "am_target_address m = pa" "am_data m = chunk"
    using accepted_audio_flows [OF assms(1,10,11), of d2 E] unfolding d2_def d1_def by blast
  define p where "p = ServerTargetedAudio pa b (address_or_default E rd (am_sender_address m)) (am_codec_id m) chunk"
  have fwd: "forward_audio E rd \<lparr>cc_dc = dc_a, cc_client_id = a, cc_user_address = pa, cc_node_id = node\<rparr> m = [DcSend dc_a (encode E p)]"
    using m assms(1) by (auto simp: forward_audio_def p_def strangers_def matches_address_prefix_def)
  have opened: "ChannelSend (ch_dc ch) (encode E (ClientTargetedAudio pa CODEC_OPUS [])) \<in> set (fst (on_open E ch))"
    using started_call(1) [OF assms(5)] by (simp add: on_open_def)
  have snd: "sender_packet caller' chunk = Some (ClientTargetedAudio pa CODEC_OPUS chunk)"
    using started_call(5) [OF assms(5)] assms(6) by (simp add: sender_packet_def caller'_def set_target_address_def)
  have play: "dispatch_client_packet E p False dc resp callee' = Some ([], play_samples chunk callee')"
    "cs_audio_buffer (play_samples chunk callee') = push_slice (decode_samples chunk) (cs_audio_buffer callee)"
    by (simp_all add: p_def play_samples_def callee'_def set_target_address_def)
  have acc: "dispatch_client_packet E (CallAcceptedNotification pa) False (ch_dc ch) resp caller =
      Some (notify_call_event (Accepted pa) caller', caller')" by (simp add: caller'_def Let_def)
  have ask: "dispatch_daemon_packet E rd b pb node (ClientTargetedAudio pa CODEC_OPUS []) dc_b d = ([DcSend dc_a (encode E (CallRequest b pb))], d1)"
    using first_audio_asks [OF assms(1), of "[]"] by (simp add: d1_def)
  show ?thesis
    using opened ask call_request_prompts [OF assms(7-9), of E b dc resp, folded callee'_def] h acc snd m(1) fwd play
    by (intro exI [of _ callee'] exI [of _ "play_samples chunk callee'"] exI [of _ caller'] exI [of _ d1] exI [of _ d2] exI [of _ m] exI [of _ p])
       (simp add: reply_task_def del: dispatch_client_packet.simps)
qed

text \<open>C12: a call can be heard before it is answered. When the daemon tells a client of a call, the client
  makes the caller its target before the user is asked, so its microphone's audio goes out to the caller; the daemon takes that for a call
  in the other direction and asks the caller, whose client accepts it by itself because it is calling that party; from then on the
  daemon broadcasts the audio of the client whose user has not answered.\<close>

theorem unanswered_call_is_heard:
  assumes "strangers rd d a dc_a pa b pb" and "length chunk \<le> MAX_MESSAGE_SIZE" and "chunk \<noteq> []"
    and "cs_incoming_call_tx callee = Some tx" and "cs_active_room callee = None"
    and "is_party (cs_user_address callee) pa = Some False" and "is_party (cs_active_target callee) pa = Some False"
    and "cs_active_target caller = Some pb" and "is_party (cs_user_address caller) pb = Some False"
  shows "\<exists>callee' caller' d1 d2 eff m.
     dispatch_client_packet E (CallRequest a pa) False dc resp callee = Some ([SpawnReply resp dc pa, CallPrompt tx pa resp], callee') \<and>
     sender_packet callee' chunk = Some (ClientTargetedAudio pa CODEC_OPUS chunk) \<and>
     dispatch_daemon_packet E rd b pb node (ClientTargetedAudio pa CODEC_OPUS chunk) dc_b d = ([DcSend dc_a (encode E (CallRequest b pb))], d1) \<and>
     dispatch_client_packet E (CallRequest b pb) False dc' resp' caller = Some ([ChannelSend dc' (encode E (CallAcceptResponse pb))], caller') \<and>
     dispatch_daemon_packet E rd a pa node (CallAcceptResponse pb) dc_a d1 = (eff, d2) \<and>
     AudioBroadcast m \<in> set (fst (dispatch_daemon_packet E rd b pb node (ClientTargetedAudio pa CODEC_OPUS chunk) dc_b d2)) \<and>
     am_sender_id m = b \<and> am_target_address m = pa \<and> am_data m = chunk"
proof -
  define d1 where "d1 = conn_mark_notified a b d"
  obtain eff d2 where h: "handle_call_accept_response E rd a pb d1 = (eff, d2)" by (cases "handle_call_accept_response E rd a pb d1")
  then have d2: "d2 = snd (handle_call_accept_response E rd a pb (conn_mark_notified a b d))" by (simp add: d1_def)
  obtain m where m: "AudioBroadcast m \<in> set (fst (handle_client_targeted_audio E rd b (Some pb) pa CODEC_OPUS node chunk dc_b d2))"
      "am_sender_id m = b" "am_target_address m = pa" "am_data m = chunk"
    using accepted_audio_flows [OF assms(1-3) d2] by blast
  have callee: "dispatch_client_packet E (CallRequest a pa) False dc resp callee
      = Some ([SpawnReply resp dc pa, CallPrompt tx pa resp], set_target_address (Some pa) callee)"
    by (rule call_request_prompts [OF assms(4,6,7)])
  have caller: "dispatch_client_packet E (CallRequest b pb) False dc' resp' caller
      = Some ([ChannelSend dc' (encode E (CallAcceptResponse pb))], set_target_address (Some pb) caller)"
    using assms by (simp add: handle_call_request_def) (simp add: is_party_def same_party_def)
  have "sender_packet (set_target_address (Some pa) callee) chunk = Some (ClientTargetedAudio pa CODEC_OPUS chunk)"
    using assms(5) by (simp add: sender_packet_def set_target_address_def)
  then show ?thesis
    using callee caller h m first_audio_asks [OF assms(1,2), of E CODEC_OPUS node dc_b] d1_def by fastforce
qed

definition strangers_example :: daemon where
  "strangers_example =
     \<lparr>client_registry = ClientRegistry_new\<lparr>
        addresses := [(1, addr_a), (2, addr_b)], data_channels := [(1, 11), (2, 12)], last_pong := [(1, 0), (2, 0)]\<rparr>,
      dc_limiter = DATACHANNEL_RATE_LIMITER\<rparr>"

theorem unanswered_call_is_heard_witness:
  "\<exists>d2 m. AudioBroadcast m \<in> set (fst (dispatch_daemon_packet std_crates rd_example 2 addr_b 77 (ClientTargetedAudio addr_a CODEC_OPUS [1, 2]) 12 d2)) \<and>
     am_sender_id m = 2 \<and> am_data m = [1, 2]"
proof -
  let ?callee = "set_incoming_call_handler 5 (with_keypair (keypair_from_bytes []))"
  let ?caller = "set_target_address (Some addr_b) (with_keypair (keypair_from_bytes []))"
  have s: "strangers rd_example strangers_example 1 11 addr_a 2 addr_b"
    by (simp add: strangers_def strangers_example_def rd_example_def daemon_eval)
  from unanswered_call_is_heard [OF s, of "[1, 2]" ?callee 5 ?caller std_crates] show ?thesis
    by (simp add: MAX_MESSAGE_SIZE_def session_defs with_keypair_def is_party_def del: dispatch_client_packet.simps dispatch_daemon_packet.simps) blast
qed

definition env_example :: call_env where
  "env_example = \<lparr>ce_peer = Ok (), ce_channel = Ok 21, ce_exchange = \<lparr>ex_local_sdp = Ok (Some ''v=0''), ex_response = Ok (200, ''{}''), ex_answer = Ok ()\<rparr>,
     ce_audio = Ok ()\<rparr>"

theorem call_is_established_witness:
  "\<exists>d2 m. AudioBroadcast m \<in> set (fst (dispatch_daemon_packet std_crates rd_example 2 addr_b 77 (ClientTargetedAudio addr_a CODEC_OPUS [1, 2]) 12 d2))"
proof -
  let ?callee = "set_incoming_call_handler 5 (with_keypair (keypair_from_bytes []))"
  let ?s0 = "with_keypair (keypair_from_bytes [])"
  have s: "strangers rd_example strangers_example 1 11 addr_a 2 addr_b"
    by (simp add: strangers_def strangers_example_def rd_example_def daemon_eval)
  have f: "conn_find_client_by_address strangers_example addr_b = Found 2" "hm_get (data_channels (client_registry strangers_example)) 2 = Some 12"
      "hm_get (addresses (client_registry strangers_example)) 1 = Some addr_a"
    by (simp_all add: strangers_example_def daemon_eval)
  obtain ch caller where c: "start_call_with_session env_example ClConfiguration_default (Some addr_a) ?s0 = (Ok ch, caller)"
    by (simp add: start_call_with_session_def env_example_def perform_sdp_handshake_def AudioEngine_start_def setup_data_channel_def Let_def)
  from call_is_established [OF s f c, of ?callee 5 "[1, 2]" std_crates] show ?thesis
    by (simp add: MAX_MESSAGE_SIZE_def session_defs with_keypair_def is_party_def del: dispatch_client_packet.simps dispatch_daemon_packet.simps) blast
qed

end
