(* ===== verification/WP_Audio.thy ===== *)
theory WP_Audio
  imports WP_Client
begin

text \<open>
  From the microphone to the wire: the streaming resampler (\<^verbatim>\<open>crates/wpapi/src/resample.rs\<close>) and the input callback of the audio
  engine (\<^verbatim>\<open>audio.rs\<close>). Finite \<^verbatim>\<open>f32\<close> values are reals, every operation is rounded, \<open>None\<close> is a NaN; the loop of the
  resampler is a partial function, so that not returning is \<open>None\<close>.
\<close>

section \<open>Single precision\<close>

text \<open>Rounding to 24 significant bits, or to a multiple of the smallest subnormal number. Infinities and overflow do not occur for
  audio samples and are not represented, and neither is the sign of zero: a sample \<^verbatim>\<open>-0.0\<close>, which the source sends with its
  sign bit, has the bits of \<^verbatim>\<open>+0.0\<close> here. Statements about bits hold for samples other than \<^verbatim>\<open>-0.0\<close>; as numbers the two
  zeros are equal.\<close>

type_synonym f32 = "real option"

definition f32_unit :: "real \<Rightarrow> real" where
  "f32_unit x = pow2 (max (f64_exponent x) (- 126) - 23)"

definition f32_round :: "real \<Rightarrow> real" where
  "f32_round x = (if x = 0 then 0 else of_int (round_half_even (x / f32_unit x)) * f32_unit x)"

definition f32_sqrt :: "real \<Rightarrow> real" where
  "f32_sqrt x =
     (if x \<le> 0 then 0
      else (let u = pow2 (f64_exponent x div 2 - 23); y = x / (u * u); q = isqrt (nat \<lfloor>y\<rfloor>); h = real q + 1 / 2
            in real (if y < h * h \<or> y = h * h \<and> even q then q else q + 1) * u))"

text \<open>\<^verbatim>\<open>f32::to_bits\<close> of a single-precision number.\<close>

definition f32_magnitude :: "real \<Rightarrow> nat" where
  "f32_magnitude x =
     (if x = 0 then 0
      else (let e = max (f64_exponent x) (- 126); m = nat \<lfloor>\<bar>x\<bar> / pow2 (e - 23)\<rfloor>
            in if m < 2 ^ 23 then m else nat (e + 127) * 2 ^ 23 + (m - 2 ^ 23)))"

definition f32_bits :: "real \<Rightarrow> u32" where
  "f32_bits x = of_nat (f32_magnitude x + (if x < 0 then 2 ^ 31 else 0))"

text \<open>The operations of \<^verbatim>\<open>f32\<close>, and \<^verbatim>\<open>to_bits\<close> where NaNs have the bit pattern \<open>nan\<close>: which of its patterns an operation
  yields is left open by the language.\<close>

definition f32_op :: "(real \<Rightarrow> real \<Rightarrow> real) \<Rightarrow> f32 \<Rightarrow> f32 \<Rightarrow> f32" where
  "f32_op f x y = do { a \<leftarrow> x; b \<leftarrow> y; Some (f32_round (f a b)) }"

definition f32_to_bits :: "u32 \<Rightarrow> f32 \<Rightarrow> u32" where
  "f32_to_bits nan x = (case x of Some a \<Rightarrow> f32_bits a | None \<Rightarrow> nan)"

lemma f32_op_simps [simp]: "f32_op f None y = None" "f32_op f x None = None" "f32_op f (Some a) (Some b) = Some (f32_round (f a b))"
  by (cases x; simp add: f32_op_def)+

section \<open>The resampler\<close>

record Resampler =
  src_rate :: real
  dst_rate :: real
  rs_phase :: real
  last_sample :: "f32 option"

definition Resampler_new :: "u32 \<Rightarrow> u32 \<Rightarrow> Resampler" where
  "Resampler_new src dst = \<lparr>src_rate = real (unat src), dst_rate = real (unat dst), rs_phase = 0, last_sample = None\<rparr>"

definition current_phase :: "real \<Rightarrow> real \<Rightarrow> nat \<Rightarrow> real" where
  "current_phase phase step out_idx = f64_round (phase + f64_round (f64_round (real out_idx) * step))"

definition interpolate :: "f32 \<Rightarrow> f32 list \<Rightarrow> real \<Rightarrow> f32" where
  "interpolate prev inp cp =
     (let n = length inp; idx = nat \<lfloor>cp\<rfloor>;
          frac = f32_round (f64_round (cp - f64_round (real idx)));
          s0 = (if idx = 0 then prev else inp ! (idx - 1));
          s1 = (if idx < n then inp ! idx else inp ! (n - 1))
      in f32_op (+) (f32_op (*) s0 (Some (f32_round (1 - frac)))) (f32_op (*) s1 (Some frac)))"

text \<open>The loop. Inside it the phase is below the number of samples, so every index is in range. A target rate of 0, for which the step
  is infinite, is not represented.\<close>

partial_function (option) resample_loop ::
    "real \<Rightarrow> real \<Rightarrow> f32 \<Rightarrow> f32 list \<Rightarrow> nat \<Rightarrow> (f32 list \<times> real) option" where
  "resample_loop phase step prev inp out_idx =
     (let cp = current_phase phase step out_idx; limit = f64_round (real (length inp)) in
      if limit \<le> cp then Some ([], (let p = f64_round (cp - limit) in if p < 0 then 0 else p))
      else do {
        (out, phase') \<leftarrow> resample_loop phase step prev inp (out_idx + 1);
        Some (interpolate prev inp cp # out, phase') })"

definition process :: "Resampler \<Rightarrow> f32 list \<Rightarrow> (f32 list \<times> Resampler) option" where
  "process r inp =
     (if inp = [] then Some ([], r)
      else if \<bar>src_rate r - dst_rate r\<bar> < 1 / 1000 then Some (inp, r\<lparr>last_sample := Some (last inp)\<rparr>)
      else
        let step = f64_round (src_rate r / dst_rate r);
            prev = (case last_sample r of Some x \<Rightarrow> x | None \<Rightarrow> hd inp)
        in do {
          (out, phase') \<leftarrow> resample_loop (rs_phase r) step prev inp 0;
          Some (out, r\<lparr>rs_phase := phase', last_sample := Some (last inp)\<rparr>) })"

section \<open>The microphone\<close>

definition f32_sum :: "f32 list \<Rightarrow> f32" where
  "f32_sum xs = foldl (f32_op (+)) (Some 0) xs"

definition audio_level :: "f32 list \<Rightarrow> f32" where
  "audio_level data =
     (let sum_sq = f32_sum (map (\<lambda>s. f32_op (*) s s) data);
          rms = (if data \<noteq> [] then map_option f32_sqrt (f32_op (/) sum_sq (Some (f32_round (real (length data))))) else Some 0)
      in map_option (\<lambda>x. max 0 (min 1 x)) (f32_op (*) rms (Some 5)))"

definition mono_samples :: "nat \<Rightarrow> f32 list \<Rightarrow> f32 list" where
  "mono_samples ch data =
     map (\<lambda>f. f32_op (/) (f32_sum (map (\<lambda>c. data ! (f * ch + c)) [0..<ch])) (Some (real ch))) [0..<length data div ch]"

text \<open>The bytes offered to the sender task, the resampler and the session after one call of the input callback;
  \<open>None\<close> is the panic of a division by zero or a resampler that does not return.\<close>

definition input_callback ::
    "u32 \<Rightarrow> nat \<Rightarrow> f32 list \<Rightarrow> Resampler \<Rightarrow> ClientSession \<Rightarrow> (bytes option \<times> Resampler \<times> ClientSession) option" where
  "input_callback nan ch data r s =
     (if cs_is_muted s then Some (None, r, s\<lparr>cs_input_level := f32_bits 0\<rparr>)
      else
        let s = s\<lparr>cs_input_level := f32_to_bits nan (audio_level data)\<rparr> in
        if ch = 0 then None
        else if length data div ch = 0 then Some (None, r, s)
        else do {
          (resampled, r) \<leftarrow> process r (mono_samples ch data);
          let s = (if cs_allow_echoback s
                   then s\<lparr>cs_audio_buffer := push_slice (map (f32_to_bits nan) resampled) (cs_audio_buffer s)\<rparr> else s) in
          Some (Some (concat (map (\<lambda>x. u32_to_le_bytes (f32_to_bits nan x)) resampled)), r, s) })"

section \<open>Termination of the resampler\<close>

lemma f64_round_half: "0 \<le> x \<Longrightarrow> x / 2 \<le> f64_round x"
proof -
  assume "0 \<le> x"
  then have "x - f64_round x \<le> x / 2 ^ 53" using abs_le_D2 [OF f64_round_error [of x]] by simp
  moreover have "x / 2 ^ 53 \<le> x / 2" using \<open>0 \<le> x\<close> by (simp add: divide_left_mono)
  ultimately show ?thesis by linarith
qed

text \<open>Rounded three times, the phase still grows at least an eighth of a step at a time.\<close>

lemma current_phase_lower:
  assumes "0 \<le> phase" and "0 \<le> step"
  shows "real k * step / 8 \<le> current_phase phase step k"
proof -
  define a where "a = f64_round (real k) * step"
  have a: "0 \<le> a" unfolding a_def by (intro mult_nonneg_nonneg f64_round_nonneg assms(2)) simp
  have k: "real k * step / 2 \<le> a"
    unfolding a_def using mult_right_mono [OF f64_round_half [of "real k"] assms(2)] by simp
  have "a / 2 \<le> phase + f64_round a" using f64_round_half [OF a] assms(1) by linarith
  then have "a / 4 \<le> (phase + f64_round a) / 2" by simp
  also have "\<dots> \<le> current_phase phase step k"
    unfolding current_phase_def a_def [symmetric]
    by (intro f64_round_half add_nonneg_nonneg assms(1) f64_round_nonneg a)
  finally have "a / 4 \<le> current_phase phase step k" .
  moreover have "real k * step / 8 \<le> a / 4" using k by (simp add: mult.commute)
  ultimately show ?thesis by (rule order_trans [rotated])
qed

lemma phase_reaches:
  assumes "0 \<le> phase" and "0 < step"
  shows "\<exists>k. limit \<le> current_phase phase step k"
proof -
  define k where "k = nat \<lceil>8 * limit / step\<rceil>"
  have "8 * limit / step \<le> real k" unfolding k_def by linarith
  then have "limit \<le> real k * step / 8" using assms(2) by (simp add: pos_divide_le_eq mult.commute)
  then show ?thesis using current_phase_lower [of phase step k] assms by (intro exI [of _ k]) linarith
qed

lemma resample_loop_terminates:
  assumes "limit = f64_round (real (length inp))" and "limit \<le> current_phase phase step (k + n)"
    and "\<And>j. j < n \<Longrightarrow> current_phase phase step (k + j) < limit"
  shows "\<exists>out p. resample_loop phase step prev inp k = Some (out, p) \<and> length out = n \<and> 0 \<le> p"
  using assms(2,3)
proof (induction n arbitrary: k)
  case 0
  then show ?case by (subst resample_loop.simps) (simp add: assms(1) Let_def)
next
  case (Suc n)
  obtain out p where "resample_loop phase step prev inp (k + 1) = Some (out, p)" "length out = n" "0 \<le> p"
    using Suc.IH [of "k + 1"] Suc.prems(1) Suc.prems(2) [of "Suc _"] by auto
  then show ?case
    using Suc.prems(2) [of 0] by (subst resample_loop.simps) (simp add: assms(1) [symmetric] Let_def)
qed

lemma resample_loop_never:
  assumes "\<And>j. current_phase phase step j < f64_round (real (length inp))"
  shows "resample_loop phase step prev inp k = None"
proof (rule ccontr)
  assume "resample_loop phase step prev inp k \<noteq> None"
  then obtain r where r: "resample_loop phase step prev inp k = Some r" by blast
  have "\<exists>j. f64_round (real (length inp)) \<le> current_phase phase step j"
  proof (rule resample_loop.raw_induct [where P = "\<lambda>phase step (prev :: f32) (inp :: f32 list) k r. \<exists>j. f64_round (real (length inp)) \<le> current_phase phase step j", OF _ r])
    fix f :: "real \<Rightarrow> real \<Rightarrow> f32 \<Rightarrow> f32 list \<Rightarrow> nat \<Rightarrow> (f32 list \<times> real) option"
      and phase step :: real and prev :: f32 and inp :: "f32 list" and k :: nat and r :: "f32 list \<times> real"
    assume IH: "\<And>phase step prev inp k r. f phase step prev inp k = Some r \<Longrightarrow> \<exists>j. f64_round (real (length inp)) \<le> current_phase phase step j"
      and eq: "(let cp = current_phase phase step k; limit = f64_round (real (length inp))
        in if limit \<le> cp then Some ([], let p = f64_round (cp - limit) in if p < 0 then 0 else p)
           else Option.bind (f phase step prev inp (k + 1)) (\<lambda>(out, phase'). Some (interpolate prev inp cp # out, phase'))) = Some r"
    then show "\<exists>j. f64_round (real (length inp)) \<le> current_phase phase step j"
      by (cases "f64_round (real (length inp)) \<le> current_phase phase step k") (auto simp: Let_def Option.bind_eq_Some_conv)
  qed
  then show False using assms by (meson not_le)
qed

section \<open>Samples on the wire\<close>

lemma chunks4_concat:
  "list_all (\<lambda>b. length b = 4) bs \<Longrightarrow> chunks4 (length bs) (concat bs @ rest) = bs"
  by (induction bs) simp_all

lemma length_concat_4: "list_all (\<lambda>b. length b = 4) bs \<Longrightarrow> length (concat bs) = 4 * length bs"
  by (induction bs) simp_all

lemma f32_magnitude_unit:
  assumes "\<bar>x\<bar> \<le> 1"
  shows "f32_magnitude x \<le> 0x3F800000"
proof (cases "x = 0")
  case False
  define e where "e = max (f64_exponent x) (- 126)"
  define m where "m = nat \<lfloor>\<bar>x\<bar> / pow2 (e - 23)\<rfloor>"
  have "pow2 (f64_exponent x) \<le> pow2 0" using exponent_bounds(1) [OF False] assms by (simp add: pow2_def)
  then have e0: "e \<le> 0" unfolding pow2_le_iff by (simp add: e_def)
  have "\<bar>x\<bar> < pow2 (e + 1)"
    using exponent_bounds(2) [OF False] pow2_mono [of "f64_exponent x + 1" "e + 1"] by (simp add: e_def)
  also have "pow2 (e + 1) = 2 ^ 24 * pow2 (e - 23)"
  proof -
    have "pow2 (e - 23 + 24) = pow2 (e - 23) * pow2 24" by (rule pow2_add)
    moreover have "pow2 24 = 2 ^ 24" by (simp add: pow2_def)
    moreover have "e - 23 + 24 = e + 1" by simp
    ultimately show ?thesis by (simp add: mult.commute)
  qed
  finally have "\<bar>x\<bar> / pow2 (e - 23) < 2 ^ 24" by (simp add: pos_divide_less_eq)
  then have m: "m < 2 ^ 24" unfolding m_def by (simp add: nat_less_iff floor_less_iff)
  have mag: "f32_magnitude x = (if m < 2 ^ 23 then m else nat (e + 127) * 2 ^ 23 + (m - 2 ^ 23))"
    using False by (simp add: f32_magnitude_def Let_def flip: e_def m_def)
  show ?thesis
  proof (cases "e = 0")
    case True
    then have "\<bar>x\<bar> / pow2 (e - 23) \<le> 2 ^ 23" using assms by (simp add: pow2_def)
    then have "m \<le> 2 ^ 23" unfolding m_def by (simp add: nat_le_iff floor_le_iff)
    then show ?thesis using True by (auto simp: mag)
  next
    case False
    then have "nat (e + 127) \<le> 126" using e0 by simp
    then have "nat (e + 127) * 2 ^ 23 \<le> 126 * 2 ^ 23" by (rule mult_right_mono) simp
    then show ?thesis using m by (auto simp: mag)
  qed
qed (simp add: f32_magnitude_def)

lemma clamp_unit_bits: "\<bar>x\<bar> \<le> 1 \<Longrightarrow> f32_clamp_unit (f32_bits x) = f32_bits x"
proof -
  assume x: "\<bar>x\<bar> \<le> 1"
  note m = f32_magnitude_unit [OF x]
  define v where "v = f32_magnitude x + (if x < 0 then 2 ^ 31 else 0)"
  have "v < 2 ^ 32" using m by (auto simp: v_def)
  then have "unat (f32_bits x) = v" unfolding f32_bits_def v_def [symmetric] by (simp add: unat_of_nat)
  then have "unat (f32_bits x) = f32_magnitude x + (if x < 0 then 2 ^ 31 else 0)" by (simp only: v_def)
  then have "unat (f32_bits x) mod 2 ^ 31 = f32_magnitude x" using m by simp
  with m show ?thesis by (simp add: f32_clamp_unit_def)
qed

section \<open>Properties\<close>

lemma process_returns:
  assumes "0 < src_rate r" and "0 < dst_rate r" and "0 \<le> rs_phase r"
  shows "\<exists>out r'. process r inp = Some (out, r') \<and> 0 \<le> rs_phase r' \<and> src_rate r' = src_rate r \<and> dst_rate r' = dst_rate r \<and>
    (if inp = [] then out = [] \<and> r' = r
     else last_sample r' = Some (last inp) \<and>
       (if \<bar>src_rate r - dst_rate r\<bar> < 1 / 1000 then out = inp
        else f64_round (real (length inp)) \<le> current_phase (rs_phase r) (f64_round (src_rate r / dst_rate r)) (length out) \<and>
          (\<forall>k<length out. current_phase (rs_phase r) (f64_round (src_rate r / dst_rate r)) k < f64_round (real (length inp)))))"
proof (cases "inp = [] \<or> \<bar>src_rate r - dst_rate r\<bar> < 1 / 1000")
  case True
  then show ?thesis using assms(3) by (auto simp: process_def)
next
  case False
  define step where "step = f64_round (src_rate r / dst_rate r)"
  define limit where "limit = f64_round (real (length inp))"
  define P where "P k \<longleftrightarrow> limit \<le> current_phase (rs_phase r) step k" for k
  have "0 < step" using f64_round_half [of "src_rate r / dst_rate r"] assms by (simp add: step_def) (smt (verit) divide_pos_pos)
  then obtain k where "P k" using phase_reaches [OF assms(3), of step limit] by (auto simp: P_def)
  then have least: "P (LEAST k. P k)" by (rule LeastI)
  have less: "\<not> P j" if "j < (LEAST k. P k)" for j using not_less_Least [OF that] .
  define prev where "prev = (case last_sample r of Some x \<Rightarrow> x | None \<Rightarrow> hd inp)"
  have "\<exists>out p. resample_loop (rs_phase r) step prev inp 0 = Some (out, p) \<and> length out = (LEAST k. P k) \<and> 0 \<le> p"
  proof (rule resample_loop_terminates [OF limit_def])
    show "limit \<le> current_phase (rs_phase r) step (0 + (LEAST k. P k))" using least by (simp add: P_def)
    show "current_phase (rs_phase r) step (0 + j) < limit" if "j < (LEAST k. P k)" for j using less [OF that] by (simp add: P_def)
  qed
  then obtain out p where "resample_loop (rs_phase r) step prev inp 0 = Some (out, p)" "length out = (LEAST k. P k)" "0 \<le> p"
    by blast
  then show ?thesis
    using False least less by (auto simp: process_def Let_def P_def not_le simp flip: step_def limit_def prev_def)
qed

text \<open>with positive rates the resampler returns for every input and every state it can be in, with one output
  for each step of the phase below the end of the input; phase and last sample are carried over.\<close>

theorem resampler_terminates:
  assumes "0 < src_rate r" and "0 < dst_rate r" and "0 \<le> rs_phase r"
  shows "\<exists>out r'. process r inp = Some (out, r') \<and> 0 \<le> rs_phase r' \<and> src_rate r' = src_rate r \<and> dst_rate r' = dst_rate r \<and>
    (if inp = [] then out = [] \<and> r' = r
     else last_sample r' = Some (last inp) \<and>
       (if \<bar>src_rate r - dst_rate r\<bar> < 1 / 1000 then out = inp
        else f64_round (real (length inp)) \<le> current_phase (rs_phase r) (f64_round (src_rate r / dst_rate r)) (length out) \<and>
          (\<forall>k<length out. current_phase (rs_phase r) (f64_round (src_rate r / dst_rate r)) k < f64_round (real (length inp)))))"
  by (rule process_returns [OF assms])

theorem resampler_terminates_witness:
  "\<exists>out r'. process (Resampler_new 16000 48000) [Some 1, Some (1 / 2)] = Some (out, r') \<and> last_sample r' = Some (Some (1 / 2))"
  using resampler_terminates [of "Resampler_new 16000 48000" "[Some 1, Some (1 / 2)]"] by (auto simp: Resampler_new_def)

text \<open>With a source rate of 0 the resampler never returns, and its output grows without end; a build with overflow checks
  panics instead when it computes the capacity of the output.\<close>

lemma resampler_hangs:
  assumes "0 < dst" and "inp \<noteq> []"
  shows "process (Resampler_new 0 dst) inp = None"
proof -
  have "0 < unat dst" using assms(1) by (simp add: word_less_nat_alt)
  then have "1 \<le> real (unat dst)" by linarith
  moreover have "current_phase 0 0 j < f64_round (real (length inp))" for j
  proof -
    have "0 < real (length inp) / 2" using assms(2) by simp
    also have "\<dots> \<le> f64_round (real (length inp))" by (rule f64_round_half) simp
    finally show ?thesis by (simp add: current_phase_def)
  qed
  ultimately show ?thesis
    using assms(2) resample_loop_never [of 0 0 inp] by (simp add: process_def Resampler_new_def)
qed

lemma samples_arrive:
  assumes "input_callback nan ch data r s = Some (Some bytes, r', s')" and "process r (mono_samples ch data) = Some (out, r')"
    and "list_all (\<lambda>x. x \<noteq> None \<and> \<bar>the x\<bar> \<le> 1) out"
  shows "decode_samples bytes = map (f32_to_bits nan) out"
proof -
  have bytes: "bytes = concat (map (\<lambda>x. u32_to_le_bytes (f32_to_bits nan x)) out)"
    using assms(1,2) by (auto simp: input_callback_def Let_def split: if_splits)
  define bs where "bs = map (\<lambda>x. u32_to_le_bytes (f32_to_bits nan x)) out"
  have l: "list_all (\<lambda>b. length b = 4) bs" by (simp add: bs_def list_all_iff)
  have "chunks4 (length bytes div 4) bytes = bs"
    using chunks4_concat [OF l, of "[]"] length_concat_4 [OF l] bytes by (simp add: bs_def)
  then have "decode_samples bytes = map (\<lambda>x. f32_clamp_unit (f32_to_bits nan x)) out"
    by (simp add: decode_samples_def bs_def o_def)
  also have "\<dots> = map (f32_to_bits nan) out" using assms(3) by (auto simp: list_all_iff f32_to_bits_def clamp_unit_bits)
  finally show ?thesis .
qed

text \<open>what the microphone sends arrives: for samples within the range of audio, the receiver's decoder
  recovers from the bytes of the input callback exactly the samples, bit by bit.\<close>

theorem microphone_samples_arrive:
  assumes "input_callback nan ch data r s = Some (Some bytes, r', s')" and "process r (mono_samples ch data) = Some (out, r')"
    and "list_all (\<lambda>x. x \<noteq> None \<and> \<bar>the x\<bar> \<le> 1) out"
  shows "decode_samples bytes = map (f32_to_bits nan) out \<and> \<not> cs_is_muted s"
  using samples_arrive [OF assms] assms(1) by (auto simp: input_callback_def split: if_splits)

text \<open>The number 1 is exact in single precision.\<close>

lemma f32_round_1 [simp]: "f32_round 1 = 1"
proof -
  have "f64_exponent 1 = 0" by (rule exponent_unique) (simp_all add: pow2_def)
  then have u: "f32_unit 1 = 1 / 2 ^ 23" by (simp add: f32_unit_def pow2_def)
  have "round_half_even (2 ^ 23) = 2 ^ 23" using round_half_even_int [of "2 ^ 23"] by simp
  then show ?thesis unfolding f32_round_def u by simp
qed

theorem microphone_samples_arrive_witness:
  "\<exists>bytes r' s'. input_callback 0x7FC00000 1 [Some 1] (Resampler_new 48000 48000) (with_keypair (keypair_from_bytes [])) = Some (Some bytes, r', s') \<and>
     decode_samples bytes = [f32_bits 1]"
proof -
  have p: "process (Resampler_new 48000 48000) (mono_samples 1 [Some 1]) = Some ([Some 1], (Resampler_new 48000 48000)\<lparr>last_sample := Some (Some 1)\<rparr>)"
    by (simp add: process_def Resampler_new_def mono_samples_def f32_sum_def)
  then obtain bytes s' where
    i: "input_callback 0x7FC00000 1 [Some 1] (Resampler_new 48000 48000) (with_keypair (keypair_from_bytes [])) =
      Some (Some bytes, (Resampler_new 48000 48000)\<lparr>last_sample := Some (Some 1)\<rparr>, s')"
    by (simp add: input_callback_def with_keypair_def Let_def)
  show ?thesis using i microphone_samples_arrive [OF i p] by (simp add: f32_to_bits_def)
qed

end
