(* ===== verification/WP_Speaker.thy ===== *)
theory WP_Speaker
  imports WP_Audio
begin

text \<open>
  The rest of the audio engine (\<^verbatim>\<open>crates/wpapi/src/audio.rs\<close>): the choice of the devices, the start of the streams, and the output
  callback, from the ring buffer to the speaker. The answers of cpal are arguments; a callback runs in one step,
  that is, as when no \<^verbatim>\<open>push_slice\<close> of the receiving task falls into it.
\<close>

section \<open>Devices\<close>

text \<open>The host of cpal: its devices by number, and how they describe themselves.\<close>

record audio_host =
  ah_input_devices :: "(nat list, string) result"
  ah_output_devices :: "(nat list, string) result"
  ah_default_input :: "nat option"
  ah_default_output :: "nat option"
  ah_description :: "nat \<Rightarrow> (string, string) result"

definition device_names :: "audio_host \<Rightarrow> (nat list, string) result \<Rightarrow> string list" where
  "device_names host devices =
     (case devices of
        Inl _ \<Rightarrow> []
      | Inr ds \<Rightarrow> concat (map (\<lambda>d. case ah_description host d of Inr n \<Rightarrow> [n] | Inl _ \<Rightarrow> []) ds))"

definition get_device_names :: "audio_host \<Rightarrow> string list \<times> string list" where
  "get_device_names host = (device_names host (ah_input_devices host), device_names host (ah_output_devices host))"

text \<open>What \<^verbatim>\<open>wpclient list-devices\<close> prints.\<close>

definition print_devices :: "audio_host \<Rightarrow> string list" where
  "print_devices host =
     (let (inputs, outputs) = get_device_names host; item = (\<lambda>dev. ''  '' @ [CHR 0xE2, CHR 0x80, CHR 0xA2] @ '' '' @ dev)
      in [''Audio Input Devices (Microphones):''] @ map item inputs @ [[], ''Audio Output Devices (Speakers):''] @ map item outputs)"

text \<open>The search both kinds of devices share; \<open>lower\<close> is \<^verbatim>\<open>str::to_lowercase\<close>, which depends on the tables of Unicode.\<close>

fun first_containing :: "(string \<Rightarrow> string) \<Rightarrow> audio_host \<Rightarrow> string \<Rightarrow> nat list \<Rightarrow> nat option" where
  "first_containing lower host name_lower [] = None"
| "first_containing lower host name_lower (d # ds) =
     (case ah_description host d of
        Inr n \<Rightarrow> if str_contains (lower n) name_lower then Some d else first_containing lower host name_lower ds
      | Inl _ \<Rightarrow> first_containing lower host name_lower ds)"

definition find_device ::
    "(string \<Rightarrow> string) \<Rightarrow> audio_host \<Rightarrow> string \<Rightarrow> string \<Rightarrow> (nat list, string) result \<Rightarrow> nat option \<Rightarrow> string option \<Rightarrow> (nat, string) result" where
  "find_device lower host Which which devices default_device name_opt =
     (case name_opt of
        Some name \<Rightarrow>
          (case devices of
             Inl e \<Rightarrow> Err e
           | Inr ds \<Rightarrow>
               (case first_containing lower host (lower name) ds of
                  Some d \<Rightarrow> Ok d
                | None \<Rightarrow> Err (Which @ '' audio device containing '' @ [CHR 0x27] @ name @ [CHR 0x27] @ '' not found'')))
      | None \<Rightarrow>
          (case default_device of
             Some d \<Rightarrow> Ok d
           | None \<Rightarrow> Err (''No default '' @ which @ '' audio device available'')))"

definition find_input_device :: "(string \<Rightarrow> string) \<Rightarrow> audio_host \<Rightarrow> string option \<Rightarrow> (nat, string) result" where
  "find_input_device lower host = find_device lower host ''Input'' ''input'' (ah_input_devices host) (ah_default_input host)"

definition find_output_device :: "(string \<Rightarrow> string) \<Rightarrow> audio_host \<Rightarrow> string option \<Rightarrow> (nat, string) result" where
  "find_output_device lower host = find_device lower host ''Output'' ''output'' (ah_output_devices host) (ah_default_output host)"

section \<open>The streams\<close>

text \<open>What cpal answers when a stream is built for a device with a number of channels and a rate, and when it is played.\<close>

type_synonym stream_config = "u16 \<times> u32"

record stream_answers =
  sa_build :: "nat \<Rightarrow> stream_config \<Rightarrow> (unit, string) result"
  sa_default :: "nat \<Rightarrow> (stream_config, string) result"
  sa_play :: "(unit, string) result"

definition open_stream :: "stream_answers \<Rightarrow> nat \<Rightarrow> stream_config \<Rightarrow> (stream_config, string) result" where
  "open_stream sa device cfg =
     (case sa_build sa device cfg of
        Inr _ \<Rightarrow> Ok cfg
      | Inl _ \<Rightarrow> and_then (sa_default sa device) (\<lambda>def_cfg. and_then (sa_build sa device def_cfg) (\<lambda>_. Ok def_cfg)))"

text \<open>The engine: the channels of both devices and the state their callbacks close over.\<close>

record speaker =
  output_resampler :: Resampler
  leftover :: "f32 list"

record AudioEngine =
  mic_channels :: u16
  mic_resampler :: Resampler
  spk_channels :: u16
  spk_rate :: u32
  spk_state :: speaker

definition AudioEngine_start_streams ::
    "(string \<Rightarrow> string) \<Rightarrow> audio_host \<Rightarrow> stream_answers \<Rightarrow> stream_answers \<Rightarrow> ClConfiguration \<Rightarrow> ClientSession \<Rightarrow>
     (AudioEngine, string) result \<times> ClientSession" where
  "AudioEngine_start_streams lower host inp outp config s =
     (let audio = cl_audio config; target = (channels audio, sample_rate audio); net_sample_rate = sample_rate audio in
      (and_then (find_input_device lower host (input_device audio)) (\<lambda>in_dev.
       and_then (find_output_device lower host (output_device audio)) (\<lambda>out_dev.
       and_then (open_stream inp in_dev target) (\<lambda>(in_ch, in_rate).
       and_then (open_stream outp out_dev target) (\<lambda>(out_ch, out_rate).
       and_then (sa_play inp) (\<lambda>_.
       and_then (sa_play outp) (\<lambda>_.
       Ok \<lparr>mic_channels = in_ch, mic_resampler = Resampler_new in_rate net_sample_rate,
           spk_channels = out_ch, spk_rate = out_rate,
           spk_state = \<lparr>output_resampler = Resampler_new net_sample_rate out_rate, leftover = []\<rparr>\<rparr>)))))),
       set_allow_echoback (aud_allow_echoback audio) s))"

section \<open>The speaker\<close>

text \<open>\<^verbatim>\<open>f32::from_bits\<close>, as in \<open>f32_from_le_bytes\<close>; an infinity, which no decoded sample is, reads as two to the power of 128.\<close>

definition f32_of_bits :: "u32 \<Rightarrow> f32" where
  "f32_of_bits b =
     (let magnitude = unat b mod 2 ^ 31; ex = magnitude div 2 ^ 23; man = magnitude mod 2 ^ 23;
          sign = (if unat b < 2 ^ 31 then 1 else - 1)
      in if 0x7F800000 < magnitude then None
         else if ex = 0 then Some (sign * (real man * pow2 (- 149)))
         else Some (sign * (real (2 ^ 23 + man) * pow2 (int ex - 150))))"

primrec drain :: "nat \<Rightarrow> AudioRingBuffer \<Rightarrow> u32 list \<times> AudioRingBuffer" where
  "drain 0 rb = ([], rb)"
| "drain (Suc n) rb =
     (let (s, rb) = rb_pop rb; (ss, rb) = drain n rb in ((case s of Some b \<Rightarrow> [b] | None \<Rightarrow> []) @ ss, rb))"

text \<open>How many samples of the network the callback asks the ring buffer for. A device with a rate of 0, for which the quotient is
  infinite, is not represented.\<close>

definition net_needed :: "u32 \<Rightarrow> u32 \<Rightarrow> nat \<Rightarrow> nat" where
  "net_needed net_sample_rate rate needed_resampled =
     nat \<lceil>f64_round (f64_round (real needed_resampled) * f64_round (real (unat net_sample_rate) / real (unat rate)))\<rceil> + 4"

definition refill ::
    "u32 \<Rightarrow> u32 \<Rightarrow> nat \<Rightarrow> speaker \<Rightarrow> AudioRingBuffer \<Rightarrow> (speaker \<times> AudioRingBuffer) option" where
  "refill net_sample_rate rate frames_needed sp rb =
     (if length (leftover sp) < frames_needed
      then (let n = net_needed net_sample_rate rate (frames_needed - length (leftover sp));
                (net_samples, rb) = drain (min n (unat (rb_len rb))) rb
            in do {
              (resampled, r) \<leftarrow> process (output_resampler sp) (map f32_of_bits net_samples);
              Some (\<lparr>output_resampler = r, leftover = leftover sp @ resampled\<rparr>, rb) })
      else Some (sp, rb))"

definition frame_sample :: "f32 list \<Rightarrow> nat \<Rightarrow> f32" where
  "frame_sample buf f = (if f < length buf then buf ! f else Some 0)"

text \<open>The samples written over \<open>data\<close>, the callback's state and the session afterwards; \<open>None\<close> is the panic of a division by zero or a
  resampler that does not return.\<close>

definition output_callback ::
    "u32 \<Rightarrow> u32 \<Rightarrow> u32 \<Rightarrow> nat \<Rightarrow> f32 list \<Rightarrow> speaker \<Rightarrow> ClientSession \<Rightarrow> (f32 list \<times> speaker \<times> ClientSession) option" where
  "output_callback nan net_sample_rate rate ch data sp s =
     (if ch = 0 then None
      else
        let frames_needed = length data div ch in
        if frames_needed = 0 then Some (data, sp, s)
        else do {
          (sp, rb) \<leftarrow> refill net_sample_rate rate frames_needed sp (cs_audio_buffer s);
          let data = concat (map (\<lambda>f. replicate ch (frame_sample (leftover sp) f)) [0..<frames_needed]) @ drop (frames_needed * ch) data;
          let sp = sp\<lparr>leftover := drop (min frames_needed (length (leftover sp))) (leftover sp)\<rparr>;
          Some (data, sp, s\<lparr>cs_audio_buffer := rb, cs_output_level := f32_to_bits nan (audio_level data)\<rparr>) })"

section \<open>Lemmas\<close>

lemma drain_contents:
  assumes "rb_ok rb"
  shows "rb_ok (snd (drain n rb)) \<and> fst (drain n rb) = take n (rb_contents rb) \<and> rb_contents (snd (drain n rb)) = drop n (rb_contents rb)"
  using assms
proof (induction n arbitrary: rb)
  case (Suc n)
  obtain x rb' where p: "rb_pop rb = (x, rb')" by fastforce
  have pop: "rb_ok rb'" "case rb_contents rb of [] \<Rightarrow> x = None \<and> rb' = rb | y # ys \<Rightarrow> x = Some y \<and> rb_contents rb' = ys"
    using rb_pop_cases [OF Suc.prems] by (simp_all add: p split: list.splits)
  from Suc.IH [OF pop(1)] pop(2) show ?case by (cases "rb_contents rb") (simp_all add: p case_prod_beta)
qed simp

lemma net_needed_equal_rates: "0 < rate \<Longrightarrow> n \<le> 2 ^ 53 \<Longrightarrow> net_needed rate rate n = n + 4"
proof -
  assume "0 < rate" and n: "n \<le> 2 ^ 53"
  then have "unat rate \<noteq> 0" by (simp add: word_less_nat_alt)
  then have "real (unat rate) / real (unat rate) = 1" by (metis divide_self of_nat_eq_0_iff)
  with n show ?thesis unfolding net_needed_def by (simp only: f64_round_nat f64_round_1 mult_1_right ceiling_of_nat nat_int)
qed

lemma f32_op_None_iff: "f32_op f x y = None \<longleftrightarrow> x = None \<or> y = None"
  by (cases x; cases y) simp_all

lemma audio_level_nan: "None \<in> set data \<Longrightarrow> audio_level data = None"
proof -
  assume n: "None \<in> set data"
  have absorb: "foldl (f32_op (+)) None ys = None" for ys by (induction ys) simp_all
  have "f32_sum (map (\<lambda>s. f32_op (*) s s) data) = None"
    using split_list [OF n] by (auto simp: f32_sum_def absorb)
  with n show ?thesis by (auto simp: audio_level_def)
qed

lemma f32_sum_finite: "None \<notin> set xs \<Longrightarrow> f32_sum xs \<noteq> None"
proof -
  have "None \<notin> set xs \<Longrightarrow> foldl (f32_op (+)) (Some a) xs \<noteq> None" for a
  proof (induction xs arbitrary: a)
    case (Cons x xs)
    then obtain b where "x = Some b" by (cases x) auto
    with Cons show ?case by simp
  qed simp
  then show "None \<notin> set xs \<Longrightarrow> f32_sum xs \<noteq> None" by (simp add: f32_sum_def)
qed

lemma audio_level_finite:
  assumes "None \<notin> set data"
  shows "\<exists>x. audio_level data = Some x \<and> 0 \<le> x \<and> x \<le> 1"
proof -
  have "None \<notin> set (map (\<lambda>s. f32_op (*) s s) data)" using assms by (auto simp: eq_commute [of None] f32_op_None_iff)
  then obtain a where "f32_sum (map (\<lambda>s. f32_op (*) s s) data) = Some a" using f32_sum_finite by blast
  then show ?thesis by (auto simp: audio_level_def Let_def)
qed

text \<open>A decoded sample is a number within the range of audio, or a NaN that was sent.\<close>

lemma f32_of_bits_nan: "f32_of_bits b = None \<longleftrightarrow> 0x7F800000 < unat b mod 2 ^ 31"
  by (simp add: f32_of_bits_def Let_def)

lemma clamp_keeps_nan: "0x7F800000 < unat b mod 2 ^ 31 \<Longrightarrow> f32_clamp_unit b = b"
  by (simp add: f32_clamp_unit_def)

lemma unat_f32_bits:
  assumes "f32_magnitude x < 2 ^ 31"
  shows "unat (f32_bits x) = f32_magnitude x + (if x < 0 then 2 ^ 31 else 0)"
proof -
  define v where "v = f32_magnitude x + (if x < 0 then 2 ^ 31 else 0)"
  have "v < 2 ^ 32" using assms by (auto simp: v_def)
  then have "unat (f32_bits x) = v" unfolding f32_bits_def v_def [symmetric] by (simp add: unat_of_nat)
  then show ?thesis by (simp only: v_def)
qed

text \<open>The numbers of single precision, and that their bits determine them.\<close>

definition is_f32 :: "real \<Rightarrow> bool" where
  "is_f32 x \<longleftrightarrow> \<bar>x\<bar> < pow2 128 \<and> \<bar>x\<bar> / f32_unit x = real (nat \<lfloor>\<bar>x\<bar> / f32_unit x\<rfloor>)"

lemma f32_of_bits_bits:
  assumes "is_f32 x"
  shows "f32_of_bits (f32_bits x) = Some x"
proof (cases "x = 0")
  case True
  then show ?thesis by (simp add: f32_bits_def f32_magnitude_def f32_of_bits_def)
next
  case False
  define e where "e = max (f64_exponent x) (- 126)"
  define m where "m = nat \<lfloor>\<bar>x\<bar> / pow2 (e - 23)\<rfloor>"
  have unit: "f32_unit x = pow2 (e - 23)" by (simp add: f32_unit_def e_def)
  have x: "\<bar>x\<bar> = real m * pow2 (e - 23)"
    using assms by (simp add: is_f32_def unit m_def field_simps)
  have "pow2 (f64_exponent x) < pow2 128" using exponent_bounds(1) [OF False] assms by (simp add: is_f32_def)
  then have e: "- 126 \<le> e" "e \<le> 127" using pow2_le_iff [of 128 "f64_exponent x"] by (auto simp: e_def not_le)
  have p24: "pow2 (k + 1) = 2 ^ 24 * pow2 (k - 23)" "pow2 k = 2 ^ 23 * pow2 (k - 23)" for k
  proof -
    have "pow2 (24 + (k - 23)) = 2 ^ 24 * pow2 (k - 23)" "pow2 (23 + (k - 23)) = 2 ^ 23 * pow2 (k - 23)"
      unfolding pow2_add by (simp_all only: pow2_def [of 24] pow2_def [of 23] nat_numeral zero_le_numeral if_True)
    then show "pow2 (k + 1) = 2 ^ 24 * pow2 (k - 23)" "pow2 k = 2 ^ 23 * pow2 (k - 23)" by (simp_all add: algebra_simps)
  qed
  have "\<bar>x\<bar> < pow2 (e + 1)"
    using exponent_bounds(2) [OF False] pow2_mono [of "f64_exponent x + 1" "e + 1"] by (simp add: e_def)
  then have "real m < real (2 ^ 24)" unfolding x p24(1) by simp
  then have m: "m < 2 ^ 24" by (simp only: of_nat_less_iff)
  have small: "e = - 126" if "m < 2 ^ 23"
  proof (rule ccontr)
    assume "e \<noteq> - 126"
    then have "pow2 e \<le> \<bar>x\<bar>" using exponent_bounds(1) [OF False] by (simp add: e_def max_def split: if_splits)
    then have "real (2 ^ 23) \<le> real m" unfolding x p24(2) [of e] by simp
    then have "2 ^ 23 \<le> m" by (simp only: of_nat_le_iff)
    with that show False by simp
  qed
  have mag: "f32_magnitude x = (if m < 2 ^ 23 then m else nat (e + 127) * 2 ^ 23 + (m - 2 ^ 23))"
    using False by (simp add: f32_magnitude_def Let_def flip: e_def m_def)
  show ?thesis
  proof (cases "m < 2 ^ 23")
    case True
    then show ?thesis
      using mag small x by (auto simp: f32_of_bits_def unat_f32_bits split: if_splits)
  next
    case False
    define ex where "ex = nat (e + 127)"
    have ex: "1 \<le> ex" "ex \<le> 254" "int ex - 150 = e - 23" using e by (simp_all add: ex_def)
    have mg: "f32_magnitude x = ex * 2 ^ 23 + (m - 2 ^ 23)" using mag False by (simp add: ex_def)
    have f: "m - 2 ^ 23 < 2 ^ 23" "2 ^ 23 + (m - 2 ^ 23) = m" using m False by simp_all
    have d: "f32_magnitude x div 2 ^ 23 = ex" "f32_magnitude x mod 2 ^ 23 = m - 2 ^ 23" unfolding mg using f(1) by simp_all
    have "ex * 2 ^ 23 \<le> 254 * 2 ^ 23" using ex(2) by (rule mult_right_mono) simp
    then have b: "f32_magnitude x < 0x7F800000" unfolding mg using f(1) by simp
    have u: "unat (f32_bits x) = f32_magnitude x + (if x < 0 then 2 ^ 31 else 0)" by (rule unat_f32_bits) (use b in simp)
    then have "unat (f32_bits x) mod 2 ^ 31 = f32_magnitude x" "unat (f32_bits x) < 2 ^ 31 \<longleftrightarrow> \<not> x < 0" using b by auto
    then show ?thesis
      using b ex d f(2) by (simp add: f32_of_bits_def Let_def not_less) (auto simp flip: x)
  qed
qed

section \<open>Properties\<close>

text \<open>At equal rates the ring buffer and the samples left over are one queue, and refilling moves samples from one part to the other.\<close>

definition queued :: "speaker \<Rightarrow> AudioRingBuffer \<Rightarrow> f32 list" where
  "queued sp rb = leftover sp @ map f32_of_bits (rb_contents rb)"

definition same_rates :: "u32 \<Rightarrow> u32 \<Rightarrow> speaker \<Rightarrow> bool" where
  "same_rates net rate sp \<longleftrightarrow> net = rate \<and> 0 < rate \<and> src_rate (output_resampler sp) = dst_rate (output_resampler sp)"

lemma refill_same_rates:
  assumes "rb_ok rb" and "same_rates net rate sp" and "frames \<le> 2 ^ 53"
  shows "\<exists>sp' rb'. refill net rate frames sp rb = Some (sp', rb') \<and> rb_ok rb' \<and> same_rates net rate sp' \<and> queued sp' rb' = queued sp rb \<and>
    (\<forall>f<frames. frame_sample (leftover sp') f = frame_sample (queued sp rb) f) \<and>
    (length (leftover sp') < frames \<longrightarrow> rb_contents rb' = [])"
proof (cases "length (leftover sp) < frames")
  case True
  define d where "d = min (net_needed net rate (frames - length (leftover sp))) (unat (rb_len rb))"
  obtain xs rb' where dr: "drain d rb = (xs, rb')" by fastforce
  with drain_contents [OF assms(1), of d] have xs: "xs = take d (rb_contents rb)" and rb': "rb_ok rb'" "rb_contents rb' = drop d (rb_contents rb)"
    by simp_all
  have "process (output_resampler sp) ys = Some (ys, if ys = [] then output_resampler sp else (output_resampler sp)\<lparr>last_sample := Some (last ys)\<rparr>)" for ys
    using assms(2) by (simp add: process_def same_rates_def)
  then have r: "\<exists>r. refill net rate frames sp rb = Some (\<lparr>output_resampler = r, leftover = leftover sp @ map f32_of_bits xs\<rparr>, rb') \<and>
      src_rate r = src_rate (output_resampler sp) \<and> dst_rate r = dst_rate (output_resampler sp)"
    using True by (simp add: refill_def flip: d_def) (simp add: dr)
  have q: "map f32_of_bits xs @ map f32_of_bits (rb_contents rb') = map f32_of_bits (rb_contents rb)"
    unfolding xs rb'(2) map_append [symmetric] by simp
  have n: "net_needed net rate (frames - length (leftover sp)) = frames - length (leftover sp) + 4"
    using net_needed_equal_rates [of rate] assms(2,3) by (simp add: same_rates_def)
  have l: "length xs = d" by (simp add: xs d_def)
  have long: "frames \<le> length (leftover sp @ map f32_of_bits xs) \<or> rb_contents rb' = []"
    using n True l by (auto simp: rb'(2) d_def min_def)
  have "frame_sample (leftover sp @ map f32_of_bits xs) f = frame_sample (queued sp rb) f" if "f < frames" for f
  proof (cases "f < length (leftover sp @ map f32_of_bits xs)")
    case True
    have "frame_sample (queued sp rb) f = ((leftover sp @ map f32_of_bits xs) @ map f32_of_bits (rb_contents rb')) ! f"
      using True q by (simp add: frame_sample_def queued_def flip: q)
    then show ?thesis using True by (simp only: frame_sample_def nth_append if_True)
  next
    case False
    then have "rb_contents rb' = []" using long that by auto
    then show ?thesis using False q by (simp add: frame_sample_def queued_def flip: q)
  qed
  with r rb'(1) assms(2) long q show ?thesis by (auto simp: same_rates_def queued_def)
next
  case False
  then show ?thesis using assms by (auto simp: refill_def frame_sample_def queued_def nth_append)
qed

text \<open>The samples of the next frames of a queue on \<open>ch\<close> channels, with silence after its end.\<close>

definition played :: "nat \<Rightarrow> nat \<Rightarrow> f32 list \<Rightarrow> f32 list" where
  "played ch frames q = concat (map (\<lambda>f. replicate ch (frame_sample q f)) [0..<frames])"

lemma output_same_rates:
  assumes "rb_ok (cs_audio_buffer s)" and "same_rates net rate sp" and "0 < ch" and "ch \<le> length data" and "length data div ch \<le> 2 ^ 53"
    and "frames = length data div ch" and "q = queued sp (cs_audio_buffer s)" and "data' = played ch frames q @ drop (frames * ch) data"
  shows "\<exists>sp' rb'. output_callback nan net rate ch data sp s =
      Some (data', sp', s\<lparr>cs_audio_buffer := rb', cs_output_level := f32_to_bits nan (audio_level data')\<rparr>) \<and>
    queued sp' rb' = drop frames q \<and> rb_ok rb' \<and> same_rates net rate sp'"
proof -
  have f: "frames \<noteq> 0" using assms(3,4) by (simp add: assms(6) div_eq_0_iff)
  obtain sp' rb' where r: "refill net rate frames sp (cs_audio_buffer s) = Some (sp', rb')" "rb_ok rb'" "same_rates net rate sp'"
      "queued sp' rb' = q" "length (leftover sp') < frames \<longrightarrow> rb_contents rb' = []"
      "\<forall>f<frames. frame_sample (leftover sp') f = frame_sample q f"
    using refill_same_rates [OF assms(1,2), of frames] assms(5-7) by auto
  have e: "concat (map (\<lambda>f. replicate ch (frame_sample (leftover sp') f)) [0..<frames]) = played ch frames q"
    unfolding played_def using r(6) by (intro arg_cong [where f = concat]) simp
  have "drop (min frames (length (leftover sp'))) (leftover sp') @ map f32_of_bits (rb_contents rb') = drop frames q"
    using r(4,5) by (cases "length (leftover sp') < frames") (auto simp: queued_def min_def)
  then show ?thesis
    using assms(3,8) f r(1-3) unfolding output_callback_def assms(6) [symmetric]
    by (simp add: e queued_def same_rates_def Let_def) blast
qed

lemma nth_played: "f < frames \<Longrightarrow> c < ch \<Longrightarrow> played ch frames q ! (f * ch + c) = frame_sample q f"
proof (induction frames)
  case (Suc frames)
  have l: "length (played ch n q) = n * ch" for n by (induction n) (simp_all add: played_def)
  have p: "played ch (Suc frames) q = played ch frames q @ replicate ch (frame_sample q frames)" by (simp add: played_def)
  show ?case
  proof (cases "f = frames")
    case False
    then have "Suc f * ch \<le> frames * ch" using Suc.prems(1) by (intro mult_le_mono1) simp
    then have "f * ch + c < frames * ch" using Suc.prems(2) by simp
    then show ?thesis using Suc False by (simp add: p nth_append l)
  qed (use Suc.prems(2) in \<open>simp add: p nth_append l\<close>)
qed simp

lemma length_played: "length (played ch frames q) = frames * ch"
  by (induction frames) (simp_all add: played_def)

lemma nth_played_append:
  assumes "f < frames" and "c < ch"
  shows "(played ch frames q @ rest) ! (f * ch + c) = frame_sample q f"
proof -
  have "Suc f * ch \<le> frames * ch" using assms(1) by (intro mult_le_mono1) simp
  then have "f * ch + c < frames * ch" using assms(2) by simp
  then show ?thesis using nth_played [OF assms] by (simp add: nth_append length_played)
qed

lemma speaker_output:
  assumes "rb_ok (cs_audio_buffer s)" and "same_rates net rate sp" and "0 < ch" and "ch \<le> length data" and "length data div ch \<le> 2 ^ 53"
    and "frames = length data div ch" and "q = queued sp (cs_audio_buffer s)"
  shows "\<exists>data' sp' s'. output_callback nan net rate ch data sp s = Some (data', sp', s') \<and>
    (\<forall>f<frames. \<forall>c<ch. data' ! (f * ch + c) = (if f < length q then q ! f else Some 0)) \<and>
    queued sp' (cs_audio_buffer s') = drop frames q \<and> rb_ok (cs_audio_buffer s') \<and> same_rates net rate sp'"
proof -
  have "\<forall>f<frames. \<forall>c<ch. (played ch frames q @ drop (frames * ch) data) ! (f * ch + c) = (if f < length q then q ! f else Some 0)"
    using nth_played_append [of _ frames _ ch q] by (simp add: frame_sample_def)
  then show ?thesis using output_same_rates [OF assms refl, of nan] by auto
qed

text \<open>C16: the speaker plays what was received, in order and once: at equal rates each call of the output callback writes the next samples
  of the queue formed by leftover and ring buffer, the same to every channel, and silence where the queue is exhausted; the queue
  then starts with the sample after them.\<close>

theorem speaker_plays_queue:
  assumes "rb_ok (cs_audio_buffer s)" and "same_rates net rate sp" and "0 < ch" and "ch \<le> length data" and "length data div ch \<le> 2 ^ 53"
    and "frames = length data div ch" and "q = queued sp (cs_audio_buffer s)"
  shows "\<exists>data' sp' s'. output_callback nan net rate ch data sp s = Some (data', sp', s') \<and>
    (\<forall>f<frames. \<forall>c<ch. data' ! (f * ch + c) = (if f < length q then q ! f else Some 0)) \<and>
    queued sp' (cs_audio_buffer s') = drop frames q \<and> rb_ok (cs_audio_buffer s') \<and> same_rates net rate sp'"
  by (rule speaker_output [OF assms])

text \<open>A session whose buffer holds two samples, and a speaker at the rate of the network.\<close>

definition speaker_example :: speaker where
  "speaker_example = \<lparr>output_resampler = Resampler_new 48000 48000, leftover = []\<rparr>"

definition session_example :: "u32 list \<Rightarrow> ClientSession" where
  "session_example bits = (with_keypair (keypair_from_bytes []))\<lparr>cs_audio_buffer := push_slice bits wrapping_example\<rparr>"

lemma speaker_example_ok: "same_rates 48000 48000 speaker_example"
  by (simp add: same_rates_def speaker_example_def Resampler_new_def)

lemma session_example_ok:
  "length bits \<le> 1024 \<Longrightarrow> rb_ok (cs_audio_buffer (session_example bits)) \<and> rb_contents (cs_audio_buffer (session_example bits)) = bits"
  using push_slice_contents [OF wrapping_example_ok refl, of bits]
  by (simp add: session_example_def wrapping_example_def rb_contents_def rb_len_def)

theorem speaker_plays_queue_witness:
  "\<exists>data' sp' s'. output_callback 0x7FC00000 48000 48000 2 (replicate 6 (Some 0)) speaker_example (session_example [0x3F000000, 0x3F800000])
      = Some (data', sp', s') \<and> data' ! 2 = f32_of_bits 0x3F800000 \<and> data' ! 3 = f32_of_bits 0x3F800000 \<and> data' ! 4 = Some 0"
proof -
  let ?s = "session_example [0x3F000000, 0x3F800000]" and ?q = "[f32_of_bits 0x3F000000, f32_of_bits 0x3F800000]"
  have ok: "rb_ok (cs_audio_buffer ?s)" "?q = queued speaker_example (cs_audio_buffer ?s)"
    using session_example_ok [of "[0x3F000000, 0x3F800000]"] by (simp_all add: queued_def speaker_example_def)
  have "\<exists>data' sp' s'. output_callback 0x7FC00000 48000 48000 2 (replicate 6 (Some 0)) speaker_example ?s = Some (data', sp', s') \<and>
      (\<forall>f<3. \<forall>c<2. data' ! (f * 2 + c) = (if f < length ?q then ?q ! f else Some 0)) \<and>
      queued sp' (cs_audio_buffer s') = drop 3 ?q \<and> rb_ok (cs_audio_buffer s') \<and> same_rates 48000 48000 sp'"
    by (rule speaker_plays_queue [OF ok(1) speaker_example_ok _ _ _ _ ok(2)]) simp_all
  then obtain data' sp' s' where o: "output_callback 0x7FC00000 48000 48000 2 (replicate 6 (Some 0)) speaker_example ?s = Some (data', sp', s')"
      "\<forall>f<3. \<forall>c<2. data' ! (f * 2 + c) = (if f < length ?q then ?q ! f else Some 0)"
    by blast
  have "data' ! (1 * 2 + 0) = ?q ! 1" "data' ! (1 * 2 + 1) = ?q ! 1" "data' ! (2 * 2 + 0) = Some 0"
    using o(2) [rule_format, of 1 0] o(2) [rule_format, of 1 1] o(2) [rule_format, of 2 0] by simp_all
  with o(1) show ?thesis by (simp add: eval_nat_numeral)
qed

text \<open>C15: what is said into the microphone comes out of the speaker: the microphone's samples, mixed down to one channel and resampled
  to the rate of the network (\<open>out\<close>: at most 4800 of them, each an f32 between -1 and 1), sent by an input callback that is not
  muted, decoded and buffered by a receiver with nothing else to play, are what the output callback of a speaker with the rate of the
  network writes, followed by silence.\<close>

theorem microphone_to_speaker:
  assumes "input_callback nan ch data r s = Some (Some bytes, r', s')" and "process r (mono_samples ch data) = Some (out, r')"
    and "list_all (\<lambda>x. x \<noteq> None \<and> is_f32 (the x) \<and> \<bar>the x\<bar> \<le> 1) out"
    and "rb_ok (cs_audio_buffer peer)" and "rb_contents (cs_audio_buffer peer) = []" and "length out \<le> min 4800 (length (buffer (cs_audio_buffer peer)))"
    and "same_rates net rate sp" and "leftover sp = []" and "0 < ch'" and "ch' \<le> length data'" and "length data' div ch' \<le> 2 ^ 53"
  shows "\<exists>ys sp' peer'. output_callback nan net rate ch' data' sp (play_samples bytes peer) = Some (ys, sp', peer') \<and>
    (\<forall>f<length data' div ch'. \<forall>c<ch'. ys ! (f * ch' + c) = (if f < length out then out ! f else Some 0))"
proof -
  let ?rb = "push_slice (decode_samples bytes) (cs_audio_buffer peer)"
  have bits: "decode_samples bytes = map (f32_to_bits nan) out"
    by (rule samples_arrive [OF assms(1,2)]) (use assms(3) in \<open>auto simp: list_all_iff\<close>)
  have "f32_of_bits (f32_to_bits nan x) = x" if "x \<in> set out" for x
    using assms(3) that f32_of_bits_bits [of "the x"] by (auto simp: list_all_iff f32_to_bits_def)
  then have inv: "map f32_of_bits (decode_samples bytes) = out" by (simp add: bits map_idI)
  have "rb_ok ?rb" "rb_contents ?rb = decode_samples bytes"
    using push_slice_contents [OF assms(4) refl, of "decode_samples bytes"] assms(5,6) by (simp_all add: bits)
  then have "rb_ok (cs_audio_buffer (play_samples bytes peer))" "out = queued sp (cs_audio_buffer (play_samples bytes peer))"
    by (simp_all add: play_samples_def queued_def assms(8) inv)
  from speaker_output [OF this(1) assms(7,9-11) refl this(2), of nan] show ?thesis by blast
qed

lemma is_f32_1: "is_f32 1"
proof -
  have "f64_exponent 1 = 0" by (rule exponent_unique) (simp_all add: pow2_def)
  then have u: "f32_unit 1 = 1 / 2 ^ 23" by (simp add: f32_unit_def pow2_def)
  show ?thesis unfolding is_f32_def u by (simp add: pow2_def)
qed

theorem microphone_to_speaker_witness:
  "\<exists>bytes r' s' ys sp' peer'. input_callback 0x7FC00000 1 [Some 1] (Resampler_new 48000 48000) (with_keypair (keypair_from_bytes [])) = Some (Some bytes, r', s') \<and>
     output_callback 0x7FC00000 48000 48000 2 (replicate 4 (Some 0)) speaker_example (play_samples bytes (session_example [])) = Some (ys, sp', peer') \<and>
     ys ! 0 = Some 1"
proof -
  let ?r = "(Resampler_new 48000 48000)\<lparr>last_sample := Some (Some 1)\<rparr>"
  have p: "process (Resampler_new 48000 48000) (mono_samples 1 [Some 1]) = Some ([Some 1], ?r)"
    by (simp add: process_def Resampler_new_def mono_samples_def f32_sum_def)
  then obtain bytes s' where
    i: "input_callback 0x7FC00000 1 [Some 1] (Resampler_new 48000 48000) (with_keypair (keypair_from_bytes [])) = Some (Some bytes, ?r, s')"
    by (simp add: input_callback_def with_keypair_def Let_def)
  have peer: "rb_ok (cs_audio_buffer (session_example []))" "rb_contents (cs_audio_buffer (session_example [])) = []"
    "length (buffer (cs_audio_buffer (session_example []))) = 1024"
    using session_example_ok [of "[]"] by (simp_all add: session_example_def push_slice_def cap_latency_def wrapping_example_def rb_len_def)
  have "\<exists>ys sp' peer'. output_callback 0x7FC00000 48000 48000 2 (replicate 4 (Some 0)) speaker_example (play_samples bytes (session_example []))
      = Some (ys, sp', peer') \<and>
    (\<forall>f<length (replicate 4 (Some (0 :: real))) div 2. \<forall>c<2. ys ! (f * 2 + c) = (if f < length [Some (1 :: real)] then [Some 1] ! f else Some 0))"
  proof (rule microphone_to_speaker [OF i p _ peer(1,2) _ speaker_example_ok])
    show "length [Some (1 :: real)] \<le> min 4800 (length (buffer (cs_audio_buffer (session_example []))))" by (simp add: peer(3))
  qed (simp_all add: is_f32_1 speaker_example_def)
  then obtain ys sp' peer' where o: "output_callback 0x7FC00000 48000 48000 2 (replicate 4 (Some 0)) speaker_example
        (play_samples bytes (session_example [])) = Some (ys, sp', peer')"
      "\<forall>f<length (replicate 4 (Some (0 :: real))) div 2. \<forall>c<2. ys ! (f * 2 + c) = (if f < length [Some (1 :: real)] then [Some 1] ! f else Some 0)"
    by blast
  have "ys ! 0 = Some 1" using o(2) [rule_format, of 0 0] by simp
  with i o(1) show ?thesis by blast
qed

definition speaker_ok :: "speaker \<Rightarrow> bool" where
  "speaker_ok sp \<longleftrightarrow> 0 < src_rate (output_resampler sp) \<and> 0 < dst_rate (output_resampler sp) \<and> 0 \<le> rs_phase (output_resampler sp)"

text \<open>How many samples of the network a call with \<open>frames\<close> frames asks for.\<close>

definition asked :: "u32 \<Rightarrow> u32 \<Rightarrow> nat \<Rightarrow> speaker \<Rightarrow> nat" where
  "asked net rate frames sp = (if length (leftover sp) < frames then net_needed net rate (frames - length (leftover sp)) else 0)"

lemma refill_returns:
  assumes "rb_ok rb" and "speaker_ok sp" and "n = asked net rate frames sp"
  shows "\<exists>out r rb'. process (output_resampler sp) (map f32_of_bits (take n (rb_contents rb))) = Some (out, r) \<and>
    refill net rate frames sp rb = Some (\<lparr>output_resampler = r, leftover = leftover sp @ out\<rparr>, rb') \<and>
    rb_contents rb' = drop n (rb_contents rb) \<and> rb_ok rb' \<and> speaker_ok \<lparr>output_resampler = r, leftover = leftover sp @ out\<rparr>"
proof (cases "length (leftover sp) < frames")
  case True
  define d where "d = min n (unat (rb_len rb))"
  obtain xs rb' where dr: "drain d rb = (xs, rb')" by fastforce
  have d: "take d (rb_contents rb) = take n (rb_contents rb)" "drop d (rb_contents rb) = drop n (rb_contents rb)"
    by (simp_all add: d_def min_def)
  have xs: "xs = take n (rb_contents rb)" "rb_contents rb' = drop n (rb_contents rb)" "rb_ok rb'"
    using drain_contents [OF assms(1), of d] d by (simp_all add: dr)
  obtain out r where p: "process (output_resampler sp) (map f32_of_bits xs) = Some (out, r)" "0 \<le> rs_phase r"
      "src_rate r = src_rate (output_resampler sp)" "dst_rate r = dst_rate (output_resampler sp)"
    using process_returns [of "output_resampler sp" "map f32_of_bits xs"] assms(2) by (auto simp: speaker_ok_def)
  have n: "net_needed net rate (frames - length (leftover sp)) = n" using True assms(3) by (simp add: asked_def)
  have "refill net rate frames sp rb = Some (\<lparr>output_resampler = r, leftover = leftover sp @ out\<rparr>, rb')"
    using True by (simp add: refill_def n dr p(1) flip: d_def)
  with p assms(2) xs show ?thesis by (simp add: speaker_ok_def)
next
  case False
  then show ?thesis using assms by (auto simp: refill_def asked_def process_def speaker_ok_def)
qed

text \<open>C17: for a device of any rate the output callback returns. It takes the samples it asks for from the ring buffer, has them
  resampled, and writes every frame of the device on every channel: the leftover of the last call, then the resampled samples, then
  silence. What it did not write is the next leftover, the rest of the ring buffer stays, ring buffer and resampler stay in order, and
  the level is between 0 and 1, unless a NaN was written.\<close>

theorem speaker_returns:
  assumes "rb_ok (cs_audio_buffer s)" and "speaker_ok sp" and "0 < ch"
    and "frames = length data div ch" and "n = asked net rate frames sp"
  shows "\<exists>out data' sp' s'. output_callback nan net rate ch data sp s = Some (data', sp', s') \<and>
    process (output_resampler sp) (map f32_of_bits (take n (rb_contents (cs_audio_buffer s)))) = Some (out, output_resampler sp') \<and>
    (\<forall>f<frames. \<forall>c<ch. data' ! (f * ch + c) = (if f < length (leftover sp @ out) then (leftover sp @ out) ! f else Some 0)) \<and>
    drop (frames * ch) data' = drop (frames * ch) data \<and> length data' = length data \<and>
    leftover sp' = drop frames (leftover sp @ out) \<and>
    rb_contents (cs_audio_buffer s') = drop n (rb_contents (cs_audio_buffer s)) \<and>
    rb_ok (cs_audio_buffer s') \<and> speaker_ok sp' \<and>
    (ch \<le> length data \<longrightarrow> None \<notin> set data' \<longrightarrow> (\<exists>x. 0 \<le> x \<and> x \<le> 1 \<and> cs_output_level s' = f32_bits x))"
proof (cases "frames = 0")
  case True
  then have "length data < ch" using assms(3,4) by (simp add: div_eq_0_iff)
  then show ?thesis using assms True by (auto simp: output_callback_def asked_def process_def)
next
  case False
  obtain out r rb' where r: "process (output_resampler sp) (map f32_of_bits (take n (rb_contents (cs_audio_buffer s)))) = Some (out, r)"
      "refill net rate frames sp (cs_audio_buffer s) = Some (\<lparr>output_resampler = r, leftover = leftover sp @ out\<rparr>, rb')"
      "rb_contents rb' = drop n (rb_contents (cs_audio_buffer s))" "rb_ok rb'" "speaker_ok \<lparr>output_resampler = r, leftover = leftover sp @ out\<rparr>"
    using refill_returns [OF assms(1,2,5)] by blast
  let ?q = "leftover sp @ out"
  define data' where "data' = played ch frames ?q @ drop (frames * ch) data"
  have fit: "frames * ch \<le> length data" by (simp add: assms(4))
  have "output_callback nan net rate ch data sp s = Some (data', \<lparr>output_resampler = r, leftover = drop frames ?q\<rparr>,
      s\<lparr>cs_audio_buffer := rb', cs_output_level := f32_to_bits nan (audio_level data')\<rparr>)"
    using False assms(3) r(2)
    by (simp add: output_callback_def data'_def played_def Let_def min_def flip: assms(4))
  moreover have "\<exists>x. 0 \<le> x \<and> x \<le> 1 \<and> f32_to_bits nan (audio_level data') = f32_bits x" if "None \<notin> set data'"
    using audio_level_finite [OF that] by (auto simp: f32_to_bits_def)
  moreover have "data' ! (f * ch + c) = (if f < length ?q then ?q ! f else Some 0)" if "f < frames" "c < ch" for f c
    using nth_played_append [OF that] by (simp add: data'_def frame_sample_def)
  moreover have "drop (frames * ch) data' = drop (frames * ch) data" "length data' = length data"
    using fit by (simp_all add: data'_def length_played)
  ultimately show ?thesis using r(1,3-5)
    by (intro exI [of _ out] exI conjI) (assumption | simp add: speaker_ok_def)+
qed

theorem speaker_returns_witness:
  "\<exists>data' sp' s'. output_callback 0x7FC00000 48000 48000 2 (replicate 6 (Some 0)) speaker_example (session_example [0x3F000000])
     = Some (data', sp', s') \<and> data' ! 0 = f32_of_bits 0x3F000000 \<and> data' ! 1 = f32_of_bits 0x3F000000 \<and> data' ! 4 = Some 0"
proof -
  let ?s = "session_example [0x3F000000]"
  have ok: "rb_ok (cs_audio_buffer ?s)" "rb_contents (cs_audio_buffer ?s) = [0x3F000000]" "speaker_ok speaker_example"
    using session_example_ok [of "[0x3F000000]"] by (simp_all add: speaker_ok_def speaker_example_def Resampler_new_def)
  have n: "asked 48000 48000 3 speaker_example = 7"
    using net_needed_equal_rates [of 48000 3] by (simp add: asked_def speaker_example_def)
  from speaker_returns [OF ok(1,3), of 2 3 "replicate 6 (Some 0)" 7 48000 48000 "0x7FC00000"] n obtain out data' sp' s' where
    o: "output_callback 0x7FC00000 48000 48000 2 (replicate 6 (Some 0)) speaker_example ?s = Some (data', sp', s')"
      "process (output_resampler speaker_example) (map f32_of_bits (take 7 (rb_contents (cs_audio_buffer ?s)))) = Some (out, output_resampler sp')"
      "\<forall>f<3. \<forall>c<2. data' ! (f * 2 + c) = (if f < length (leftover speaker_example @ out) then (leftover speaker_example @ out) ! f else Some 0)"
    by auto
  have out: "leftover speaker_example @ out = [f32_of_bits 0x3F000000]"
    using o(2) ok(2) by (auto simp: process_def speaker_example_def Resampler_new_def)
  show ?thesis
    using o(1) o(3) [rule_format, of 0 0] o(3) [rule_format, of 0 1] o(3) [rule_format, of 2 0] unfolding out by simp
qed

end
