(* ===== verification/WP_Tui.thy ===== *)
theory WP_Tui
  imports WP_Client
begin

text \<open>
  The state machine of the terminal client (\<^verbatim>\<open>crates/wpclient/src/tui/app.rs\<close>, \<^verbatim>\<open>tui/event.rs\<close> and the loop of
  \<^verbatim>\<open>tui.rs\<close>): key presses, background events, and the packets of the data channel, which change the session that the application
  shares with its background tasks. Spawned tasks, answers on oneshot channels and the cancellation of a task are
  effects. Characters are the bytes of their UTF-8 encoding; audio levels are the bits of their floats. Drawing and the
  tick that refreshes the level meters are in \<open>WP_Render\<close>.
\<close>

section \<open>State\<close>

datatype AppEvent =
    ServerAddressAssigned UserAddress
  | SessionEnded u64 "(string, string) result"
  | CallAccepted u64 string
  | CallRejected u64 string string
  | CallEnded string
  | IncomingCallEvent string responder
  | RegisteredAddresses "UserAddress list"
  | AudioLevels u32 u32
  | LogEvent string

datatype InputMode = NormalMode | CallInput | RoomInput | IncomingCallMode

datatype CallState = Idle | Standby | Connecting string | InCall string | InRoom string

record TuiApp =
  app_config :: ClConfiguration
  input_mode :: InputMode
  call_state :: CallState
  current_session_id :: u64
  my_address :: "UserAddress option"
  input_buffer :: string
  logs :: "string list"
  registered_addresses :: "UserAddress list"
  app_is_muted :: bool
  app_input_level :: u32
  app_output_level :: u32
  incoming_from :: "string option"
  incoming_responder :: "responder option"
  cancel_tx :: "tx_handle option"
  app_session :: "ClientSession option"

text \<open>\<open>SpawnSend\<close>: a task that sends a packet over the data channel of the session; \<open>SpawnCall\<close>: the task of
  \<^verbatim>\<open>start_call_with_session\<close> without a target; \<open>SpawnFetch\<close>: the request for the registered addresses.\<close>

datatype tui_effect =
    SpawnSend ProtocolPacket
  | SpawnCall u64 ClConfiguration
  | SpawnFetch ClConfiguration
  | SendResponse responder bool
  | CancelTask tx_handle

text \<open>What the runtime hands out when channels are created and keys generated.\<close>

record fresh =
  fr_handle :: tx_handle
  fr_keypair :: UserKeypair

definition add_log :: "string \<Rightarrow> TuiApp \<Rightarrow> TuiApp" where
  "add_log msg app = app\<lparr>logs := (if 100 \<le> length (logs app) then drop 1 (logs app) else logs app) @ [msg]\<rparr>"

definition map_session :: "(ClientSession \<Rightarrow> ClientSession) \<Rightarrow> TuiApp \<Rightarrow> TuiApp" where
  "map_session f app = app\<lparr>app_session := map_option f (app_session app)\<rparr>"

definition TuiApp_with_keypair :: "ClConfiguration \<Rightarrow> UserKeypair \<Rightarrow> TuiApp" where
  "TuiApp_with_keypair config keypair =
     add_log ''TUI Application initialized. Press [s] for standby, [c] to call, [r] for room.''
       \<lparr>app_config = config, input_mode = NormalMode, call_state = Idle, current_session_id = 0, my_address = None,
        input_buffer = [], logs = [], registered_addresses = [], app_is_muted = False, app_input_level = 0, app_output_level = 0,
        incoming_from = None, incoming_responder = None, cancel_tx = None,
        app_session = Some (set_allow_echoback (aud_allow_echoback (cl_audio config)) (with_keypair keypair))\<rparr>"

definition next_session_id :: "TuiApp \<Rightarrow> u64 \<times> TuiApp" where
  "next_session_id app = (current_session_id app + 1, app\<lparr>current_session_id := current_session_id app + 1\<rparr>)"

definition hangup_packets :: "ClientSession \<Rightarrow> tui_effect list" where
  "hangup_packets s =
     (case cs_active_target s of Some target \<Rightarrow> [SpawnSend (CallHangup target)] | None \<Rightarrow> [])
     @ (case cs_active_room s of Some room \<Rightarrow> [SpawnSend (RoomLeaveRequest room)] | None \<Rightarrow> [])"

definition hangup :: "TuiApp \<Rightarrow> tui_effect list \<times> TuiApp" where
  "hangup app =
     (let effs = (case app_session app of Some s \<Rightarrow> hangup_packets s | None \<Rightarrow> []);
          app = map_session (\<lambda>s. set_room_address None (set_target_address None s)) app;
          app = app\<lparr>app_input_level := 0, app_output_level := 0\<rparr>
      in (effs,
          if cancel_tx app \<noteq> None then add_log ''Returned to Standby Mode.'' (app\<lparr>call_state := Standby\<rparr>)
          else add_log ''Returned to IDLE state.'' (app\<lparr>call_state := Idle\<rparr>)))"

section \<open>Events of the background tasks\<close>

text \<open>What the forwarding tasks of \<^verbatim>\<open>setup_incoming_call_handler\<close> and \<^verbatim>\<open>setup_call_notification_handler\<close> make of what
  they receive; \<open>None\<close> is the panic of \<^verbatim>\<open>short_id\<close>.\<close>

definition incoming_call_event :: "UserAddress \<Rightarrow> responder \<Rightarrow> AppEvent option" where
  "incoming_call_event caller_addr resp = map_option (\<lambda>i. IncomingCallEvent i resp) (short_id caller_addr)"

fun notification_event :: "u64 \<Rightarrow> CallNotification \<Rightarrow> AppEvent option" where
  "notification_event session_id (Accepted target_addr) = map_option (CallAccepted session_id) (short_id target_addr)"
| "notification_event session_id (Rejected target_addr) =
     map_option (\<lambda>i. CallRejected session_id i ''Connection rejected by target user'') (short_id target_addr)"
| "notification_event session_id (CallError target_addr reason) = map_option (\<lambda>i. CallRejected session_id i reason) (short_id target_addr)"
| "notification_event session_id (Hangup target_addr) = map_option CallEnded (short_id target_addr)"

definition standby_or_idle :: "TuiApp \<Rightarrow> CallState" where
  "standby_or_idle app = (if cancel_tx app \<noteq> None then Standby else Idle)"

definition is_outgoing_target :: "CallState \<Rightarrow> string \<Rightarrow> bool" where
  "is_outgoing_target st from_id =
     (case st of
        Connecting target \<Rightarrow> target = from_id \<or> starts_with from_id target \<or> starts_with target from_id
      | InCall target \<Rightarrow> target = from_id \<or> starts_with from_id target \<or> starts_with target from_id
      | _ \<Rightarrow> False)"

text \<open>In the messages of the application a short ID is cut without a panic: \<^verbatim>\<open>ServerAddressAssigned\<close> carries an address
  of the wire.\<close>

fun handle_app_event :: "AppEvent \<Rightarrow> TuiApp \<Rightarrow> tui_effect list \<times> TuiApp" where
  "handle_app_event (ServerAddressAssigned addr) app =
     ([], (add_log (''Server assigned Short ID: '' @ take 12 (addr_id addr)) app)\<lparr>my_address := Some addr\<rparr>)"
| "handle_app_event (SessionEnded session_id result) app =
     (let app = (case result of
                   Inr target \<Rightarrow> add_log (''Session ended: '' @ target) app
                 | Inl err \<Rightarrow> add_log (''Session error: '' @ err) app)
      in ([], if current_session_id app = session_id then app\<lparr>call_state := Idle, cancel_tx := None\<rparr> else app))"
| "handle_app_event (CallAccepted _ target) app =
     ([], (add_log (''Call connected with target '' @ target @ ''!'') app)\<lparr>call_state := InCall target\<rparr>)"
| "handle_app_event (CallRejected _ target reason) app =
     (let app = add_log (''Call to '' @ target @ '' failed: '' @ reason) app;
          app = app\<lparr>call_state := standby_or_idle app\<rparr>
      in ([], map_session (set_target_address None) app))"
| "handle_app_event (CallEnded target) app =
     (let app = add_log (''Call with target '' @ target @ '' ended.'') app;
          app = app\<lparr>call_state := standby_or_idle app\<rparr>
      in ([], map_session (\<lambda>s. set_room_address None (set_target_address None s)) app))"
| "handle_app_event (IncomingCallEvent from_id resp) app =
     (let app = add_log (''Incoming call request from: '' @ from_id) app
      in if cfg_auto_accept (cl_client (app_config app)) \<or> is_outgoing_target (call_state app) from_id
         then ([SendResponse resp True], (add_log ''Auto-accepted incoming call.'' app)\<lparr>call_state := InCall from_id\<rparr>)
         else ([], app\<lparr>incoming_from := Some from_id, incoming_responder := Some resp, input_mode := IncomingCallMode\<rparr>))"
| "handle_app_event (RegisteredAddresses addrs) app =
     ([], (add_log (''Retrieved '' @ show_nat (length addrs) @ '' registered address(es).'') app)\<lparr>registered_addresses := addrs\<rparr>)"
| "handle_app_event (AudioLevels inp out) app = ([], app\<lparr>app_input_level := inp, app_output_level := out\<rparr>)"
| "handle_app_event (LogEvent msg) app = ([], add_log msg app)"

text \<open>The tasks of standby mode: a hundred looks at the address of the session, the first one found is announced; and the outcome of the
  call task.\<close>

definition assigned_event :: "(nat \<Rightarrow> UserAddress option) \<Rightarrow> AppEvent option" where
  "assigned_event look = (case List.map_filter look [0..<100] of addr # _ \<Rightarrow> Some (ServerAddressAssigned addr) | [] \<Rightarrow> None)"

definition session_ended_event :: "u64 \<Rightarrow> (unit, string) result \<Rightarrow> AppEvent" where
  "session_ended_event session_id res = SessionEnded session_id (case res of Inr _ \<Rightarrow> Ok ''Standby ended'' | Inl e \<Rightarrow> Err e)"

section \<open>Operations\<close>

definition stop_standby :: "TuiApp \<Rightarrow> tui_effect list \<times> TuiApp" where
  "stop_standby app =
     (let effs = (case cancel_tx app of Some tx \<Rightarrow> [CancelTask tx] | None \<Rightarrow> []);
          app = app\<lparr>cancel_tx := None\<rparr>;
          app = map_session (\<lambda>s. set_room_address None (set_target_address None s)) app
      in (effs, add_log ''Standby mode stopped. Entered IDLE state.'' (app\<lparr>call_state := Idle\<rparr>)))"

text \<open>Without a session in the application the call task runs on a session of its own.\<close>

definition start_standby :: "fresh \<Rightarrow> TuiApp \<Rightarrow> tui_effect list \<times> TuiApp" where
  "start_standby fr app =
     (if cancel_tx app \<noteq> None then stop_standby app
      else
        let (session_id, app) = next_session_id app;
            app = add_log ''Starting standby mode (listening for incoming calls)...'' (app\<lparr>cancel_tx := Some (fr_handle fr), call_state := Standby\<rparr>)
        in ([SpawnCall session_id (app_config app)],
            map_session (\<lambda>s. set_call_notification_handler (fr_handle fr) (set_incoming_call_handler (fr_handle fr) s)) app))"

definition start_call :: "string \<Rightarrow> TuiApp \<Rightarrow> tui_effect list \<times> TuiApp" where
  "start_call target_id app =
     (let clean_id = str_trim target_id in
      if length clean_id < 12
      then ([], (add_log (''Target Short ID must be at least 12 characters (got '' @ show_nat (length clean_id) @ '').'') app)\<lparr>call_state := Standby\<rparr>)
      else
        let target_addr = UserAddress_new clean_id;
            app = add_log (''Initiating call to target User ID: '' @ clean_id) (app\<lparr>call_state := Connecting clean_id\<rparr>)
        in (if app_session app \<noteq> None then [SpawnSend (ClientTargetedAudio target_addr CODEC_OPUS [])] else [],
            map_session (set_target_address (Some target_addr)) app))"

definition start_room :: "'z wp_crates_scheme \<Rightarrow> string \<Rightarrow> TuiApp \<Rightarrow> tui_effect list \<times> TuiApp" where
  "start_room E room_id app =
     (let room_addr = from_room_id E room_id;
          app = add_log (''Joining SFU group room: '' @ room_id @ '' ('' @ take 12 (addr_id room_addr) @ '')'') (app\<lparr>call_state := InRoom room_id\<rparr>)
      in (if app_session app \<noteq> None then [SpawnSend (RoomJoinRequest room_addr)] else [],
          map_session (set_room_address (Some room_addr)) app))"

definition fetch_registered_addresses :: "TuiApp \<Rightarrow> tui_effect list \<times> TuiApp" where
  "fetch_registered_addresses app =
     ([SpawnFetch (app_config app)], add_log ''Fetching registered user addresses from daemon...'' app)"

definition renew_identity :: "fresh \<Rightarrow> TuiApp \<Rightarrow> tui_effect list \<times> TuiApp" where
  "renew_identity fr app =
     (let cancel = (case cancel_tx app of Some tx \<Rightarrow> [CancelTask tx] | None \<Rightarrow> []);
          app = app\<lparr>cancel_tx := None, call_state := Idle, app_session := Some (with_keypair (fr_keypair fr)), my_address := None\<rparr>;
          app = add_log ''Generated new Ed25519 identity keypair. Reconnecting to daemon...'' app;
          (effs, app) = start_standby fr app
      in (cancel @ effs, app))"

section \<open>Keys and actions\<close>

datatype KeyCode = KeyChar string | KeyEnter | KeyEsc | KeyBackspace | OtherKey

record KeyEvent =
  key_code :: KeyCode
  key_control :: bool

datatype AppAction =
    Quit | StartStandby | StopStandby | RenewIdentity | EnterCallInput | EnterRoomInput | ToggleMute | ToggleAutoAccept
  | ToggleEchoback | HangupAction | FetchRegisteredAddresses | SubmitCallInput | SubmitRoomInput | CancelInputMode
  | InputChar string | BackspaceInput | AcceptIncomingCall | RejectIncomingCall | NoAction

definition normal_key :: "KeyCode \<Rightarrow> AppAction" where
  "normal_key k =
     (if k = KeyChar ''q'' then Quit
      else if k = KeyChar ''s'' then StartStandby
      else if k \<in> {KeyChar ''i'', KeyChar ''I''} then StopStandby
      else if k \<in> {KeyChar ''u'', KeyChar ''k'', KeyChar ''U'', KeyChar ''K''} then RenewIdentity
      else if k = KeyChar ''c'' then EnterCallInput
      else if k = KeyChar ''r'' then EnterRoomInput
      else if k = KeyChar ''m'' then ToggleMute
      else if k \<in> {KeyChar ''a'', KeyChar ''A''} then ToggleAutoAccept
      else if k \<in> {KeyChar ''e'', KeyChar ''E''} then ToggleEchoback
      else if k \<in> {KeyChar ''h'', KeyChar ''x''} then HangupAction
      else if k = KeyChar ''l'' then FetchRegisteredAddresses
      else NoAction)"

fun text_key :: "AppAction \<Rightarrow> KeyCode \<Rightarrow> AppAction" where
  "text_key submit KeyEnter = submit"
| "text_key submit KeyEsc = CancelInputMode"
| "text_key submit (KeyChar c) = InputChar c"
| "text_key submit KeyBackspace = BackspaceInput"
| "text_key submit OtherKey = NoAction"

definition prompt_key :: "KeyCode \<Rightarrow> AppAction" where
  "prompt_key k =
     (if k \<in> {KeyChar ''y'', KeyChar ''Y'', KeyEnter} then AcceptIncomingCall
      else if k \<in> {KeyChar ''n'', KeyChar ''N'', KeyEsc} then RejectIncomingCall
      else NoAction)"

definition parse_key_event :: "InputMode \<Rightarrow> KeyEvent \<Rightarrow> AppAction" where
  "parse_key_event mode key =
     (if key_control key \<and> key_code key = KeyChar ''c'' then Quit
      else case mode of
             NormalMode \<Rightarrow> normal_key (key_code key)
           | CallInput \<Rightarrow> text_key SubmitCallInput (key_code key)
           | RoomInput \<Rightarrow> text_key SubmitRoomInput (key_code key)
           | IncomingCallMode \<Rightarrow> prompt_key (key_code key))"

text \<open>\<^verbatim>\<open>String::pop\<close>: the last character, with its continuation bytes.\<close>

definition pop_char :: "string \<Rightarrow> string" where
  "pop_char s = rev (drop 1 (dropWhile (\<lambda>c. 128 \<le> (of_char c :: nat) \<and> (of_char c :: nat) < 192) (rev s)))"

fun execute_action :: "'z wp_crates_scheme \<Rightarrow> fresh \<Rightarrow> AppAction \<Rightarrow> TuiApp \<Rightarrow> bool \<times> tui_effect list \<times> TuiApp" where
  "execute_action E fr Quit app = (True, [], app)"
| "execute_action E fr StartStandby app = (False, start_standby fr app)"
| "execute_action E fr StopStandby app = (False, stop_standby app)"
| "execute_action E fr RenewIdentity app = (False, renew_identity fr app)"
| "execute_action E fr EnterCallInput app = (False, [], app\<lparr>input_buffer := [], input_mode := CallInput\<rparr>)"
| "execute_action E fr EnterRoomInput app = (False, [], app\<lparr>input_buffer := [], input_mode := RoomInput\<rparr>)"
| "execute_action E fr ToggleMute app =
     (let app = app\<lparr>app_is_muted := \<not> app_is_muted app\<rparr>;
          app = map_session (set_muted (app_is_muted app)) app
      in (False, [], add_log (''Microphone is now '' @ (if app_is_muted app then ''Muted'' else ''Unmuted'')) app))"
| "execute_action E fr ToggleAutoAccept app =
     (let b = (\<not> cfg_auto_accept (cl_client (app_config app)));
          app = app\<lparr>app_config := (app_config app)\<lparr>cl_client := \<lparr>cfg_auto_accept = b\<rparr>\<rparr>\<rparr>
      in (False, [], add_log (''Auto Accept is now '' @ (if b then ''enabled'' else ''disabled'')) app))"
| "execute_action E fr ToggleEchoback app =
     (let b = (\<not> aud_allow_echoback (cl_audio (app_config app)));
          app = app\<lparr>app_config := (app_config app)\<lparr>cl_audio := (cl_audio (app_config app))\<lparr>aud_allow_echoback := b\<rparr>\<rparr>\<rparr>;
          app = map_session (set_allow_echoback b) app
      in (False, [], add_log (''Echo Back is now '' @ (if b then ''enabled'' else ''disabled'')) app))"
| "execute_action E fr HangupAction app = (False, hangup app)"
| "execute_action E fr FetchRegisteredAddresses app = (False, fetch_registered_addresses app)"
| "execute_action E fr SubmitCallInput app =
     (let target = str_trim (input_buffer app);
          app = app\<lparr>input_mode := NormalMode\<rparr>
      in (False, if target \<noteq> [] then start_call target app else ([], app)))"
| "execute_action E fr SubmitRoomInput app =
     (let room = str_trim (input_buffer app);
          app = app\<lparr>input_mode := NormalMode\<rparr>
      in (False, if room \<noteq> [] then start_room E room app else ([], app)))"
| "execute_action E fr CancelInputMode app = (False, [], app\<lparr>input_mode := NormalMode\<rparr>)"
| "execute_action E fr (InputChar c) app = (False, [], app\<lparr>input_buffer := input_buffer app @ c\<rparr>)"
| "execute_action E fr BackspaceInput app = (False, [], app\<lparr>input_buffer := pop_char (input_buffer app)\<rparr>)"
| "execute_action E fr AcceptIncomingCall app =
     (let (effs, app) = (case incoming_responder app of
            Some resp \<Rightarrow> ([SendResponse resp True], add_log ''Accepted incoming call.'' (app\<lparr>incoming_responder := None\<rparr>))
          | None \<Rightarrow> ([], app));
          app = (case incoming_from app of Some from_id \<Rightarrow> app\<lparr>incoming_from := None, call_state := InCall from_id\<rparr> | None \<Rightarrow> app)
      in (False, effs, app\<lparr>input_mode := NormalMode\<rparr>))"
| "execute_action E fr RejectIncomingCall app =
     (let (effs, app) = (case incoming_responder app of
            Some resp \<Rightarrow> ([SendResponse resp False], add_log ''Rejected incoming call.'' (app\<lparr>incoming_responder := None\<rparr>))
          | None \<Rightarrow> ([], app));
          app = map_session (set_target_address None) app
      in (False, effs, app\<lparr>input_mode := NormalMode, incoming_from := None\<rparr>))"
| "execute_action E fr NoAction app = (False, [], app)"

definition handle_key_input :: "'z wp_crates_scheme \<Rightarrow> fresh \<Rightarrow> KeyEvent \<Rightarrow> TuiApp \<Rightarrow> bool \<times> tui_effect list \<times> TuiApp" where
  "handle_key_input E fr key app = execute_action E fr (parse_key_event (input_mode app) key) app"

text \<open>What follows the loop of \<^verbatim>\<open>run_tui_with_keypair\<close>.\<close>

definition tui_exit :: "TuiApp \<Rightarrow> tui_effect list \<times> TuiApp" where
  "tui_exit app =
     (let (effs, app) = hangup app
      in case cancel_tx app of
           Some tx \<Rightarrow> (effs @ [CancelTask tx], app\<lparr>cancel_tx := None\<rparr>)
         | None \<Rightarrow> (effs, app))"

section \<open>Runs\<close>

text \<open>A run of the application: it starts in standby; then keys, background events and packets arrive in any order. The labels record the
  action of a key and the effects of a step.\<close>

datatype tui_label =
    Pressed AppAction "tui_effect list"
  | Happened AppEvent "tui_effect list"
  | Received ProtocolPacket

inductive tui_run :: "'z wp_crates_scheme \<Rightarrow> tui_label list \<Rightarrow> TuiApp \<Rightarrow> bool" for E :: "'z wp_crates_scheme" where
  start: "tui_run E [] (snd (start_standby fr (TuiApp_with_keypair config keypair)))"
| key: "tui_run E tr app \<Longrightarrow> handle_key_input E fr key app = (quit, effs, app') \<Longrightarrow>
        tui_run E (tr @ [Pressed (parse_key_event (input_mode app) key) effs]) app'"
| event: "tui_run E tr app \<Longrightarrow> handle_app_event ev app = (effs, app') \<Longrightarrow> tui_run E (tr @ [Happened ev effs]) app'"
| packet: "tui_run E tr app \<Longrightarrow> app_session app = Some s \<Longrightarrow> dispatch_client_packet E p auto_accept dc resp s = Some (effs, s') \<Longrightarrow>
        tui_run E (tr @ [Received p]) (app\<lparr>app_session := Some s'\<rparr>)"

definition prompt_ok :: "TuiApp \<Rightarrow> bool" where
  "prompt_ok app \<longleftrightarrow>
     (input_mode app = IncomingCallMode \<longleftrightarrow> incoming_responder app \<noteq> None) \<and> (incoming_responder app \<noteq> None \<longleftrightarrow> incoming_from app \<noteq> None)"

definition tui_ok :: "TuiApp \<Rightarrow> bool" where
  "tui_ok app \<longleftrightarrow> length (logs app) \<le> 100 \<and> app_session app \<noteq> None \<and> prompt_ok app"

lemma add_log_simps [simp]:
  "app_config (add_log m app) = app_config app" "input_mode (add_log m app) = input_mode app" "call_state (add_log m app) = call_state app"
  "current_session_id (add_log m app) = current_session_id app" "incoming_from (add_log m app) = incoming_from app"
  "incoming_responder (add_log m app) = incoming_responder app" "cancel_tx (add_log m app) = cancel_tx app"
  "app_session (add_log m app) = app_session app" "app_is_muted (add_log m app) = app_is_muted app"
  by (simp_all add: add_log_def)

lemma map_session_simps [simp]:
  "app_config (map_session f app) = app_config app" "input_mode (map_session f app) = input_mode app" "call_state (map_session f app) = call_state app"
  "current_session_id (map_session f app) = current_session_id app" "incoming_from (map_session f app) = incoming_from app"
  "incoming_responder (map_session f app) = incoming_responder app" "cancel_tx (map_session f app) = cancel_tx app"
  "app_session (map_session f app) = map_option f (app_session app)" "app_is_muted (map_session f app) = app_is_muted app"
  "logs (map_session f app) = logs app"
  by (simp_all add: map_session_def)

lemma length_add_log: "length (logs app) \<le> 100 \<Longrightarrow> length (logs (add_log m app)) \<le> 100"
  by (auto simp: add_log_def)

lemmas tui_ops =
  start_standby_def stop_standby_def start_call_def start_room_def fetch_registered_addresses_def renew_identity_def hangup_def
  next_session_id_def

lemma tui_ok_start: "tui_ok (snd (start_standby fr (TuiApp_with_keypair config keypair)))"
  by (simp add: tui_ok_def prompt_ok_def tui_ops TuiApp_with_keypair_def Let_def add_log_def)

lemma tui_ok_event:
  assumes "tui_ok app"
  shows "tui_ok (snd (handle_app_event ev app))"
  using assms by (cases ev) (auto simp: tui_ok_def prompt_ok_def Let_def length_add_log split: sum.splits)

text \<open>The keys that change the mode are read in a mode without a prompt.\<close>

lemma tui_ok_key:
  assumes "tui_ok app"
  shows "tui_ok (snd (snd (handle_key_input E fr key app)))"
proof -
  define act where "act = parse_key_event (input_mode app) key"
  have mode: "input_mode app \<noteq> IncomingCallMode" if "act \<notin> {Quit, AcceptIncomingCall, RejectIncomingCall, NoAction}"
    using that by (auto simp: act_def parse_key_event_def prompt_key_def split: if_splits)
  have log: "length (logs (add_log m app')) \<le> 100" if "logs app' = logs app" for m app'
    using length_add_log [of app'] that assms by (simp add: tui_ok_def)
  show ?thesis
    unfolding handle_key_input_def act_def [symmetric]
    using assms mode
    by (cases act) (auto simp: tui_ok_def prompt_ok_def tui_ops Let_def length_add_log log split: option.splits)
qed

section \<open>Properties\<close>


definition fr_example :: fresh where
  "fr_example = \<lparr>fr_handle = 3, fr_keypair = keypair_from_bytes [1]\<rparr>"

definition app_start :: TuiApp where
  "app_start = snd (start_standby fr_example (TuiApp_with_keypair ClConfiguration_default (keypair_from_bytes [])))"

lemma run_start: "tui_run E [] app_start"
  unfolding app_start_def by (rule tui_run.start)

lemma app_start_simps:
  "incoming_responder app_start = None" "input_mode app_start = NormalMode" "call_state app_start = Standby" "app_is_muted app_start = False"
  "cfg_auto_accept (cl_client (app_config app_start)) = False" "cancel_tx app_start = Some 3"
  by (simp_all add: app_start_def tui_ops TuiApp_with_keypair_def ClConfiguration_default_def fr_example_def Let_def)

definition app_ringing :: TuiApp where
  "app_ringing = snd (handle_app_event (IncomingCallEvent ''aaaaaaaaaaaa'' 9) app_start)"

lemma run_ringing: "tui_run E [Happened (IncomingCallEvent ''aaaaaaaaaaaa'' 9) []] app_ringing"
  using tui_run.event [OF run_start, of "IncomingCallEvent ''aaaaaaaaaaaa'' 9" "[]" app_ringing]
  by (simp add: app_ringing_def Let_def app_start_simps is_outgoing_target_def)

lemma app_ringing_simps:
  "incoming_responder app_ringing = Some 9" "input_mode app_ringing = IncomingCallMode" "call_state app_ringing = Standby"
  "cfg_auto_accept (cl_client (app_config app_ringing)) = False" "app_is_muted app_ringing = False"
  by (simp_all add: app_ringing_def Let_def app_start_simps is_outgoing_target_def)


text \<open>C37: as long as the identity is not renewed, the mute switch on screen is that of the microphone;
  renewing the identity starts a session whose microphone is live while the screen still shows it as before.\<close>

theorem mute_until_renewal:
  assumes "tui_run E tr app" and "\<forall>effs. Pressed RenewIdentity effs \<notin> set tr"
  shows "(\<exists>s. app_session app = Some s \<and> cs_is_muted s = app_is_muted app) \<and>
    (\<exists>s. app_session (snd (renew_identity fr app)) = Some s \<and> \<not> cs_is_muted s) \<and>
    app_is_muted (snd (renew_identity fr app)) = app_is_muted app"
proof -
  have "\<exists>s. app_session app = Some s \<and> cs_is_muted s = app_is_muted app"
    using assms
  proof (induction rule: tui_run.induct)
    case start
    show ?case by (simp add: tui_ops TuiApp_with_keypair_def with_keypair_def session_defs Let_def)
  next
    case (key tr app fr key quit effs app')
    then obtain s where s: "app_session app = Some s" "cs_is_muted s = app_is_muted app" by auto
    define act where "act = parse_key_event (input_mode app) key"
    have act: "execute_action E fr act app = (quit, effs, app')" "act \<noteq> RenewIdentity"
      using key.hyps(2) key.prems by (auto simp: handle_key_input_def act_def)
    show ?case
      using s act by (cases act) (auto simp: tui_ops session_defs Let_def split: option.splits if_splits)
  next
    case (event tr app ev effs app')
    then obtain s where "app_session app = Some s" "cs_is_muted s = app_is_muted app" by auto
    then show ?case
      using event.hyps(2) by (cases ev) (auto simp: session_defs Let_def split: sum.splits if_splits)
  next
    case (packet tr app s p auto_accept dc resp effs s')
    have "cs_is_muted s' = cs_is_muted s" by (rule dispatch_keeps_mute [OF packet.hyps(3)])
    then show ?case using packet by auto
  qed
  moreover have "\<exists>s. app_session (snd (renew_identity fr app)) = Some s \<and> \<not> cs_is_muted s"
      "app_is_muted (snd (renew_identity fr app)) = app_is_muted app"
    by (simp_all add: renew_identity_def start_standby_def next_session_id_def Let_def session_defs with_keypair_def)
  ultimately show ?thesis by blast
qed

theorem mute_until_renewal_witness:
  "\<exists>app s. app_is_muted (snd (renew_identity fr_example app)) \<and> app_session (snd (renew_identity fr_example app)) = Some s \<and> \<not> cs_is_muted s"
proof -
  let ?key = "\<lparr>key_code = KeyChar ''m'', key_control = False\<rparr>"
  obtain q effs app where k: "handle_key_input std_crates fr_example ?key app_start = (q, effs, app)"
    by (cases "handle_key_input std_crates fr_example ?key app_start")
  have m: "app_is_muted app"
    using k by (auto simp: handle_key_input_def parse_key_event_def app_start_simps normal_key_def Let_def)
  have p: "parse_key_event (input_mode app_start) ?key = ToggleMute"
    by (simp add: parse_key_event_def app_start_simps normal_key_def)
  from mute_until_renewal [OF tui_run.key [OF run_start k], of fr_example] m show ?thesis by (auto simp: p)
qed

text \<open>a second call that arrives while a first one is on screen takes its place: the first caller's
  responder is dropped without an answer and no later key answers it.\<close>

theorem second_call_silences_first:
  assumes "incoming_responder app = Some r" and "r' \<noteq> r"
    and "\<not> cfg_auto_accept (cl_client (app_config app))" and "\<not> is_outgoing_target (call_state app) from_id"
    and "handle_app_event (IncomingCallEvent from_id r') app = (effs, app')"
  shows "effs = [] \<and> incoming_responder app' = Some r' \<and> incoming_from app' = Some from_id \<and>
         SendResponse r b \<notin> set (fst (snd (execute_action E fr act app')))"
proof -
  have a: "effs = []" "incoming_responder app' = Some r'" "incoming_from app' = Some from_id"
    using assms by (auto simp: Let_def)
  moreover have "SendResponse r b \<notin> set (fst (snd (execute_action E fr act app')))"
    using a(2) assms(2)
    by (cases act) (auto simp: tui_ops hangup_packets_def Let_def split: option.splits)
  ultimately show ?thesis by blast
qed

theorem second_call_silences_first_witness:
  "\<forall>act. SendResponse 9 False \<notin> set (fst (snd (execute_action std_crates fr_example act
      (snd (handle_app_event (IncomingCallEvent ''bbbbbbbbbbbb'' 10) app_ringing)))))"
proof
  fix act
  show "SendResponse 9 False \<notin> set (fst (snd (execute_action std_crates fr_example act
      (snd (handle_app_event (IncomingCallEvent ''bbbbbbbbbbbb'' 10) app_ringing)))))"
    using second_call_silences_first [of app_ringing 9 10 "''bbbbbbbbbbbb''" "[]"
        "snd (handle_app_event (IncomingCallEvent ''bbbbbbbbbbbb'' 10) app_ringing)" False std_crates fr_example act]
    by (simp add: app_ringing_simps is_outgoing_target_def Let_def del: execute_action.simps)
qed

text \<open>The channel of a running session keeps the setting it was opened with: switching auto-accept off in the application
  leaves it on there.\<close>

lemma auto_accept_captured:
  assumes "cfg_auto_accept (cl_client (app_config app))" and "setup_data_channel dc None (app_config app) s = (ch, s')"
  shows "\<not> cfg_auto_accept (cl_client (app_config (snd (snd (execute_action E fr ToggleAutoAccept app))))) \<and> ch_auto_accept ch"
  using assms by (auto simp: setup_data_channel_def Let_def)

text \<open>The announcement of an address does not say for which session it is: one that was looked up for the session before
  a renewal and arrives after it becomes the address on display, while the session runs under the new key.\<close>

lemma stale_address_after_renewal:
  assumes "app_session app = Some s" and "cs_user_address s = Some old"
  shows "\<exists>ev. assigned_event (\<lambda>_. cs_user_address s) = Some ev \<and>
    my_address (snd (handle_app_event ev (snd (renew_identity fr app)))) = Some old \<and>
    map_option cs_keypair (app_session (snd (handle_app_event ev (snd (renew_identity fr app))))) = Some (fr_keypair fr)"
proof -
  have "List.map_filter (\<lambda>_. cs_user_address s) [0..<100] = old # List.map_filter (\<lambda>_. cs_user_address s) [1..<100]"
    using assms(2) by (simp add: upt_conv_Cons map_filter_simps)
  then have "assigned_event (\<lambda>_. cs_user_address s) = Some (ServerAddressAssigned old)" by (simp add: assigned_event_def)
  then show ?thesis
    by (simp add: renew_identity_def start_standby_def next_session_id_def Let_def case_prod_beta session_defs with_keypair_def)
qed

end
