(* ===== verification/WP_Render.thy ===== *)
theory WP_Render
  imports WP_Speaker WP_Tui
begin

text \<open>
  What the terminal client draws (\<^verbatim>\<open>crates/wpclient/src/tui/ui.rs\<close>, \<^verbatim>\<open>views.rs\<close>, \<^verbatim>\<open>views/\<close>) and the tick of its loop
  (\<^verbatim>\<open>tui.rs\<close>). A frame is the list of its widgets with their texts, in the order they are drawn; colours, borders and the layout
  of the areas, which only ratatui looks at, are left out, except the height of the log panel. \<open>None\<close> is a panic. Of ratatui the model takes
  which ratios \<^verbatim>\<open>Gauge::ratio\<close> accepts; it is documented to panic for a ratio that is not between 0 and 1.
\<close>

section \<open>Frames\<close>

text \<open>A paragraph with its title and the text of its lines, a gauge, and the clearing of an area.\<close>

datatype widget = Paragraph string "string list" | Gauge string f32 | ClearArea

definition gauge :: "(f32 \<Rightarrow> bool) \<Rightarrow> string \<Rightarrow> f32 \<Rightarrow> widget option" where
  "gauge ratio_ok title ratio = (if ratio_ok ratio then Some (Gauge title ratio) else None)"

definition clamp_level :: "f32 \<Rightarrow> f32" where
  "clamp_level = map_option (\<lambda>x. max 0 (min 1 x))"

definition switch_text :: "string \<Rightarrow> string \<Rightarrow> bool \<Rightarrow> string" where
  "switch_text yes no b = (if b then yes else no)"

definition render_header :: "TuiApp \<Rightarrow> widget list option" where
  "render_header app =
     do { my_id_str \<leftarrow> (case my_address app of Some a \<Rightarrow> short_id a | None \<Rightarrow> Some ''Assigning...'');
          let status_text = (case call_state app of
                Idle \<Rightarrow> ''IDLE''
              | Standby \<Rightarrow> ''STANDBY (Waiting)''
              | Connecting _ \<Rightarrow> ''CONNECTING...''
              | InCall _ \<Rightarrow> ''IN CALL''
              | InRoom _ \<Rightarrow> ''IN ROOM'');
          Some [Paragraph [] ['' web-phone TUI '' @ '' | Server: '' @
            host_str (app_config app) @ '':'' @ show_nat (unat (srv_port (cl_server (app_config app)))) @
            '' | My ID: '' @ my_id_str @ '' | Status: '' @ status_text @
            '' | Mic: '' @ switch_text ''MUTED'' ''ON'' (app_is_muted app) @
            '' | Echoback: '' @ switch_text ''ON'' ''OFF'' (aud_allow_echoback (cl_audio (app_config app))) @
            '' | AutoAccept: '' @ switch_text ''ON'' ''OFF'' (cfg_auto_accept (cl_client (app_config app)))]] }"

section \<open>The left panel\<close>

definition render_audio_gauges :: "(f32 \<Rightarrow> bool) \<Rightarrow> TuiApp \<Rightarrow> string \<Rightarrow> widget list option" where
  "render_audio_gauges ratio_ok app spk_title =
     do { mic_gauge \<leftarrow> gauge ratio_ok (switch_text '' Mic Level (MUTED - Press [m] to unmute) '' '' Mic Level '' (app_is_muted app))
            (clamp_level (f32_of_bits (app_input_level app)));
          spk_gauge \<leftarrow> gauge ratio_ok spk_title (clamp_level (f32_of_bits (app_output_level app)));
          Some [mic_gauge, spk_gauge] }"

text \<open>The lines call and room view have in common.\<close>

definition switch_lines :: "TuiApp \<Rightarrow> string list" where
  "switch_lines app =
     [''Mute: '' @ switch_text ''MUTED (Press [m] to unmute)'' ''ACTIVE (Press [m] to mute)'' (app_is_muted app),
      ''Echo Back: '' @ switch_text ''ENABLED'' ''DISABLED'' (aud_allow_echoback (cl_audio (app_config app))) @ '' (Press [e] to toggle)'',
      ''Auto Accept: '' @ switch_text ''ENABLED'' ''DISABLED'' (cfg_auto_accept (cl_client (app_config app))) @ '' (Press [a] to toggle)'']"

definition render_call_view :: "(f32 \<Rightarrow> bool) \<Rightarrow> TuiApp \<Rightarrow> string \<Rightarrow> widget list option" where
  "render_call_view ratio_ok app target =
     do { gauges \<leftarrow> render_audio_gauges ratio_ok app '' Speaker Level '';
          Some ([Paragraph '' Active 1-to-1 Voice Call '' ['' Connected Target: '' @ target, '' Connection State: '' @ ''ENCRYPTED P2P CALL'']]
            @ gauges @ [Paragraph [] (switch_lines app @ [''Press [h] to hang up call.''])]) }"

definition render_room_view :: "(f32 \<Rightarrow> bool) \<Rightarrow> TuiApp \<Rightarrow> string \<Rightarrow> widget list option" where
  "render_room_view ratio_ok app room =
     do { gauges \<leftarrow> render_audio_gauges ratio_ok app '' Room Audio Level '';
          Some ([Paragraph '' SFU Group Voice Room '' ['' SFU Room Address: '' @ room, '' Mode: '' @ ''SFU MULTI-PARTY GROUP CALL'']]
            @ gauges @ [Paragraph '' Room Info & Active Speakers '' (switch_lines app @ [''Press [h] to leave room.''])]) }"

definition render_standby_view :: "TuiApp \<Rightarrow> widget list" where
  "render_standby_view app =
     [Paragraph '' Standby / Idle Overview ''
        ['' Status: '' @ ''Ready for incoming or outgoing calls'',
         '' Assigned Address: '' @ (case my_address app of Some a \<Rightarrow> addr_id a | None \<Rightarrow> ''Assigning...''),
         '' Microphone: '' @ switch_text ''MUTED ([m] to unmute)'' ''UNMUTED ([m] to mute)'' (app_is_muted app),
         '' Echo Back: '' @ switch_text ''ENABLED ([e] to disable)'' ''DISABLED ([e] to enable)'' (aud_allow_echoback (cl_audio (app_config app))),
         '' Auto Accept: '' @ switch_text ''ENABLED ([a] to disable)'' ''DISABLED ([a] to enable)'' (cfg_auto_accept (cl_client (app_config app))),
         [],
         ''Press [c] to initiate 1-to-1 call, [r] to join SFU group room, [a] to toggle auto accept, [e] to toggle echoback, [l] to list online peers.'']]"

definition render_left_panel :: "(f32 \<Rightarrow> bool) \<Rightarrow> TuiApp \<Rightarrow> widget list option" where
  "render_left_panel ratio_ok app =
     (case call_state app of
        InCall target \<Rightarrow> render_call_view ratio_ok app target
      | InRoom room \<Rightarrow> render_room_view ratio_ok app room
      | _ \<Rightarrow> Some (render_standby_view app))"

section \<open>The right panel\<close>

text \<open>\<^verbatim>\<open>&s[..n]\<close> panics when byte \<open>n\<close> is inside a character.\<close>

definition address_line :: "UserAddress \<Rightarrow> string option" where
  "address_line a =
     do { s \<leftarrow> short_id a;
          let n = min (length (addr_id a)) 16;
          if is_char_boundary (addr_id a) n
          then Some ('' '' @ [CHR 0xE2, CHR 0x80, CHR 0xA2] @ '' '' @ s @ '' ('' @ take n (addr_id a) @ '')'') else None }"

fun address_lines :: "UserAddress list \<Rightarrow> string list option" where
  "address_lines [] = Some []"
| "address_lines (a # as) = do { l \<leftarrow> address_line a; ls \<leftarrow> address_lines as; Some (l # ls) }"

definition log_lines :: "u16 \<Rightarrow> string list \<Rightarrow> string list" where
  "log_lines height msgs = map (\<lambda>msg. ''> '' @ msg) (rev (take (unat height - 2) (rev msgs)))"

definition render_right_panel :: "u16 \<Rightarrow> TuiApp \<Rightarrow> widget list option" where
  "render_right_panel height app =
     do { addr_items \<leftarrow> (if registered_addresses app = [] then Some [''No addresses cached. Press [l] to fetch.'']
                          else address_lines (registered_addresses app));
          Some [Paragraph ('' Registered Peers ('' @ show_nat (length (registered_addresses app)) @ '') - [l] Fetch '') addr_items,
                Paragraph '' Activity Logs '' (log_lines height (logs app))] }"

definition render_body :: "(f32 \<Rightarrow> bool) \<Rightarrow> u16 \<Rightarrow> TuiApp \<Rightarrow> widget list option" where
  "render_body ratio_ok height app =
     do { left \<leftarrow> render_left_panel ratio_ok app; right \<leftarrow> render_right_panel height app; Some (left @ right) }"

section \<open>Footer and prompts\<close>

fun help_text :: "InputMode \<Rightarrow> string" where
  "help_text NormalMode =
     '' [s] Standby | [i] Idle | [c] Call | [r] Room | [m] Mute | [a] Auto Accept | [e] Echoback | [h] Hangup | [l] List Peers | [u] New ID | [q] Quit''"
| "help_text CallInput = '' [Enter] Submit | [Esc] Cancel''"
| "help_text RoomInput = '' [Enter] Submit | [Esc] Cancel''"
| "help_text IncomingCallMode = '' [y] Accept | [n] Reject''"

definition render_footer :: "TuiApp \<Rightarrow> widget list" where
  "render_footer app = [Paragraph [] [help_text (input_mode app)]]"

definition render_input_modal :: "TuiApp \<Rightarrow> string \<Rightarrow> widget list" where
  "render_input_modal app prompt = [ClearArea, Paragraph '' Input Prompt '' [prompt, [], ''> '' @ input_buffer app @ ''_'']]"

definition render_incoming_modal :: "TuiApp \<Rightarrow> widget list" where
  "render_incoming_modal app =
     [ClearArea, Paragraph '' INCOMING CALL ''
        [''Incoming audio call request!'', [], ''Caller ID: '' @ (case incoming_from app of Some i \<Rightarrow> i | None \<Rightarrow> ''Unknown''), [],
         ''Press [y] to Accept, [n] to Reject'']]"

definition render_ui :: "(f32 \<Rightarrow> bool) \<Rightarrow> u16 \<Rightarrow> TuiApp \<Rightarrow> widget list option" where
  "render_ui ratio_ok height app =
     do { header \<leftarrow> render_header app;
          body \<leftarrow> render_body ratio_ok height app;
          Some (header @ body @ render_footer app @
            (case input_mode app of
               CallInput \<Rightarrow> render_input_modal app ''Enter Target User ID / Short ID:''
             | RoomInput \<Rightarrow> render_input_modal app ''Enter SFU Room ID:''
             | IncomingCallMode \<Rightarrow> render_incoming_modal app
             | NormalMode \<Rightarrow> [])) }"

section \<open>The tick\<close>

text \<open>Without a session the meters fall; \<^verbatim>\<open>f32::max\<close> prefers a number to a NaN.\<close>

definition fade_level :: "u32 \<Rightarrow> u32" where
  "fade_level l = f32_bits (case f32_op (*) (f32_of_bits l) (Some (f32_round (85 / 100))) of Some x \<Rightarrow> max x 0 | None \<Rightarrow> 0)"

definition tui_tick :: "TuiApp \<Rightarrow> TuiApp" where
  "tui_tick app =
     (case app_session app of
        Some s \<Rightarrow> app\<lparr>app_input_level := cs_input_level s, app_output_level := cs_output_level s\<rparr>
      | None \<Rightarrow> app\<lparr>app_input_level := fade_level (app_input_level app), app_output_level := fade_level (app_output_level app)\<rparr>)"

section \<open>Properties\<close>

definition ratio_law :: "(f32 \<Rightarrow> bool) \<Rightarrow> bool" where
  "ratio_law ratio_ok \<longleftrightarrow> (\<forall>r. ratio_ok r \<longleftrightarrow> (\<exists>x. r = Some x \<and> 0 \<le> x \<and> x \<le> 1))"

definition shows_gauges :: "CallState \<Rightarrow> bool" where
  "shows_gauges st \<longleftrightarrow> (case st of InCall _ \<Rightarrow> True | InRoom _ \<Rightarrow> True | _ \<Rightarrow> False)"

lemma ratio_clamped: "ratio_law ratio_ok \<Longrightarrow> ratio_ok (clamp_level r) \<longleftrightarrow> r \<noteq> None"
  by (cases r) (simp_all add: ratio_law_def clamp_level_def)

lemma gauges_None:
  "ratio_law ratio_ok \<Longrightarrow> render_audio_gauges ratio_ok app title = None \<longleftrightarrow> f32_of_bits (app_input_level app) = None \<or> f32_of_bits (app_output_level app) = None"
  by (simp add: render_audio_gauges_def gauge_def ratio_clamped)

lemma left_panel_None:
  "ratio_law ratio_ok \<Longrightarrow> render_left_panel ratio_ok app = None \<longleftrightarrow>
     shows_gauges (call_state app) \<and> (f32_of_bits (app_input_level app) = None \<or> f32_of_bits (app_output_level app) = None)"
  by (auto simp: render_left_panel_def render_call_view_def render_room_view_def shows_gauges_def gauges_None bind_eq_None_conv
      split: CallState.splits)

text \<open>Where an address can be cut for the display.\<close>

definition cuttable :: "nat \<Rightarrow> UserAddress \<Rightarrow> bool" where
  "cuttable n a \<longleftrightarrow> length (addr_id a) \<le> n \<or> is_char_boundary (addr_id a) n"

lemma short_id_None: "short_id a = None \<longleftrightarrow> \<not> cuttable 12 a"
  by (auto simp: short_id_def cuttable_def is_char_boundary_def)

lemma address_line_None: "address_line a = None \<longleftrightarrow> \<not> cuttable 12 a \<or> \<not> cuttable 16 a"
  by (auto simp: address_line_def bind_eq_None_conv short_id_None Let_def cuttable_def min_def is_char_boundary_def)

lemma address_lines_None: "address_lines as = None \<longleftrightarrow> (\<exists>a\<in>set as. \<not> cuttable 12 a \<or> \<not> cuttable 16 a)"
  by (induction as) (auto simp: bind_eq_None_conv address_line_None)

lemma render_ui_None:
  assumes "ratio_law ratio_ok"
  shows "render_ui ratio_ok height app = None \<longleftrightarrow>
    (\<exists>a. my_address app = Some a \<and> \<not> cuttable 12 a) \<or> (\<exists>a\<in>set (registered_addresses app). \<not> cuttable 12 a \<or> \<not> cuttable 16 a) \<or>
    shows_gauges (call_state app) \<and> (f32_of_bits (app_input_level app) = None \<or> f32_of_bits (app_output_level app) = None)"
proof -
  have "render_header app = None \<longleftrightarrow> (\<exists>a. my_address app = Some a \<and> \<not> cuttable 12 a)"
    by (auto simp: render_header_def bind_eq_None_conv short_id_None split: option.splits)
  moreover have "render_right_panel height app = None \<longleftrightarrow> (\<exists>a\<in>set (registered_addresses app). \<not> cuttable 12 a \<or> \<not> cuttable 16 a)"
    by (simp add: render_right_panel_def bind_eq_None_conv address_lines_None)
  ultimately show ?thesis
    using left_panel_None [OF assms, of app] by (auto simp: render_ui_def render_body_def bind_eq_None_conv)
qed

text \<open>The log panel shows the latest messages, in order, as many as it has lines.\<close>

lemma log_lines_latest: "log_lines height msgs = map (\<lambda>msg. ''> '' @ msg) (drop (length msgs - (unat height - 2)) msgs)"
  by (simp add: log_lines_def rev_take)

text \<open>exactly when a frame cannot be drawn: the address of the client or a listed address would be cut inside a character, or a call or room is
  on the screen and a level is a NaN. In every other state the client draws all of its widgets.\<close>

theorem screen_panics_iff:
  assumes "ratio_law ratio_ok"
  shows "render_ui ratio_ok height app = None \<longleftrightarrow>
    (\<exists>a. my_address app = Some a \<and> \<not> cuttable 12 a) \<or> (\<exists>a\<in>set (registered_addresses app). \<not> cuttable 12 a \<or> \<not> cuttable 16 a) \<or>
    shows_gauges (call_state app) \<and> (f32_of_bits (app_input_level app) = None \<or> f32_of_bits (app_output_level app) = None)"
  by (rule render_ui_None [OF assms])

definition ratio_example :: "f32 \<Rightarrow> bool" where
  "ratio_example r = (case r of Some x \<Rightarrow> 0 \<le> x \<and> x \<le> 1 | None \<Rightarrow> False)"

lemma ratio_example_law: "ratio_law ratio_example"
  by (auto simp: ratio_law_def ratio_example_def split: option.splits)

definition app_in_call :: TuiApp where
  "app_in_call = (TuiApp_with_keypair ClConfiguration_default (keypair_from_bytes []))\<lparr>call_state := InCall ''bob'', app_session := Some (session_example [])\<rparr>"

lemma app_in_call_simps [simp]:
  "my_address app_in_call = None" "registered_addresses app_in_call = []" "call_state app_in_call = InCall ''bob''"
  "app_session app_in_call = Some (session_example [])" "app_input_level app_in_call = 0" "app_output_level app_in_call = 0"
  by (simp_all add: app_in_call_def TuiApp_with_keypair_def add_log_def)

theorem screen_panics_iff_witness:
  "render_ui ratio_example 10 app_in_call \<noteq> None \<and> render_ui ratio_example 10 (app_in_call\<lparr>app_output_level := 0x7FC00000\<rparr>) = None"
  using screen_panics_iff [OF ratio_example_law, of 10 app_in_call]
    screen_panics_iff [OF ratio_example_law, of 10 "app_in_call\<lparr>app_output_level := 0x7FC00000\<rparr>"]
  by (simp add: shows_gauges_def f32_of_bits_nan)

text \<open>C13: four bytes of audio end the terminal client: when a client in a call or room with nothing to play receives a packet whose one sample
  is a NaN, decoding keeps the NaN, the output callback makes it the output level, the next tick copies
  the level to the screen, and the frame drawn after it panics.\<close>

theorem nan_sample_ends_terminal:
  assumes "ratio_law ratio_ok" and "app_session app = Some s" and "shows_gauges (call_state app)"
    and "rb_ok (cs_audio_buffer s)" and "rb_contents (cs_audio_buffer s) = []" and "same_rates net rate sp" and "leftover sp = []"
    and "0 < ch" and "ch \<le> length data" and "length data div ch \<le> 2 ^ 53"
    and "0x7F800000 < unat sample mod 2 ^ 31" and "0x7F800000 < unat nan mod 2 ^ 31"
  shows "\<exists>s1 data' sp' s2.
    dispatch_client_packet E (ServerTargetedAudio target sender sender_address codec (u32_to_le_bytes sample)) auto_accept dc resp s = Some ([], s1) \<and>
    output_callback nan net rate ch data sp s1 = Some (data', sp', s2) \<and>
    render_ui ratio_ok height (tui_tick (app\<lparr>app_session := Some s2\<rparr>)) = None"
proof -
  let ?s = "play_samples (u32_to_le_bytes sample) s" and ?frames = "length data div ch"
  have "decode_samples (u32_to_le_bytes sample) = [sample]"
    using chunks4_concat [of "[u32_to_le_bytes sample]" "[]"] by (simp add: decode_samples_def clamp_keeps_nan [OF assms(11)])
  moreover have "length (buffer (cs_audio_buffer s)) \<noteq> 0" using assms(4) by (auto simp: rb_ok_def)
  ultimately have ok: "rb_ok (cs_audio_buffer ?s)" "rb_contents (cs_audio_buffer ?s) = [sample]"
    using push_slice_contents [OF assms(4) refl, of "[sample]"] assms(5) by (simp_all add: play_samples_def Suc_leI)
  have q: "[None] = queued sp (cs_audio_buffer ?s)" using ok(2) assms(7,11) f32_of_bits_nan [of sample] by (simp add: queued_def)
  obtain sp' rb' where o: "output_callback nan net rate ch data sp ?s = Some (played ch ?frames [None] @ drop (?frames * ch) data, sp',
      ?s\<lparr>cs_audio_buffer := rb', cs_output_level := f32_to_bits nan (audio_level (played ch ?frames [None] @ drop (?frames * ch) data))\<rparr>)"
    using output_same_rates [OF ok(1) assms(6,8-10) refl q refl, of nan] by blast
  have "0 < ?frames" using assms(8,9) by (simp add: div_greater_zero_iff)
  then have "None \<in> set (played ch ?frames [None])"
    using assms(8) by (auto simp: played_def frame_sample_def intro!: bexI [of _ 0])
  then have "audio_level (played ch ?frames [None] @ drop (?frames * ch) data) = None" by (intro audio_level_nan) simp
  with o show ?thesis
    using assms(2,3,12) by (simp add: render_ui_None [OF assms(1)] tui_tick_def f32_to_bits_def f32_of_bits_nan)
qed

theorem nan_sample_ends_terminal_witness:
  "\<exists>s1 data' sp' s2.
    dispatch_client_packet std_crates (ServerTargetedAudio (UserAddress_new ''alice'') 1 (UserAddress_new ''bob'') CODEC_PCM_F32LE (u32_to_le_bytes 0x7FC00000)) False 1 2 (session_example []) = Some ([], s1) \<and>
    output_callback 0x7FC00000 48000 48000 1 [Some 0] speaker_example s1 = Some (data', sp', s2) \<and>
    render_ui ratio_example 10 (tui_tick (app_in_call\<lparr>app_session := Some s2\<rparr>)) = None"
  by (rule nan_sample_ends_terminal [OF ratio_example_law _ _ _ _ speaker_example_ok])
     (use session_example_ok [of "[]"] in \<open>simp_all add: shows_gauges_def speaker_example_def\<close>)

text \<open>A tick keeps the invariant of the application.\<close>

lemma tui_tick_ok: "tui_ok app \<Longrightarrow> tui_ok (tui_tick app)"
  by (auto simp: tui_tick_def tui_ok_def prompt_ok_def split: option.splits)

end
