(* ===== verification/WP_Storage.thy ===== *)
theory WP_Storage
  imports WP_Auth
begin

text \<open>
  Secrets at rest and in transit: the encrypted key store (\<^verbatim>\<open>crates/wpapi/src/keystore.rs\<close>), SFrame
  encryption of room audio (\<^verbatim>\<open>sframe.rs\<close>) and ephemeral TURN credentials (\<^verbatim>\<open>turn_auth.rs\<close>). AES-GCM,
  Argon2id, HMAC, Base64 and JSON are third-party crates and extend the record of crate
  functions; the locale \<open>storage_laws\<close> states what the models rely on. Random salts and nonces, clock readings
  and the outcome of file operations are arguments.
\<close>

section \<open>Data\<close>

record KdfParams =
  salt :: string
  mem_limit_kib :: u32
  ops_limit :: u32
  parallelism :: u32

record CryptoMeta =
  kdf :: string
  kdf_params :: KdfParams
  cipher :: string
  ks_nonce :: string
  ks_ciphertext :: string

record EncryptedKeyStore =
  version :: u32
  ks_user_address :: string
  key_type :: string
  crypto :: CryptoMeta

datatype KeyStoreError =
    KsIo string
  | KsJson string
  | InvalidPassphrase
  | UnsupportedVersion u32
  | UnsupportedKdf string
  | UnsupportedCipher string
  | InvalidBase64 string
  | InvalidNonceLength
  | KdfError string
  | EncryptionError string
  | AddressMismatch
  | InvalidPayloadLength
  | KeypairError string

datatype SFrameError =
    EncryptionFailed string
  | DecryptionFailed
  | InvalidKeySize
  | InvalidPayloadFormat

record TurnCredential =
  tc_urls :: "string list"
  tc_username :: string
  tc_credential :: string
  tc_expiration_timestamp :: u64

record storage_crates = crypto_crates +
  aes_key_ok :: "bytes \<Rightarrow> bool"
  aes_encrypt :: "bytes \<Rightarrow> bytes \<Rightarrow> bytes \<Rightarrow> (bytes, string) result"
  aes_decrypt :: "bytes \<Rightarrow> bytes \<Rightarrow> bytes \<Rightarrow> bytes option"
  argon2_params :: "u32 \<Rightarrow> u32 \<Rightarrow> u32 \<Rightarrow> (unit, string) result"
  argon2id :: "u32 \<Rightarrow> u32 \<Rightarrow> u32 \<Rightarrow> bytes \<Rightarrow> bytes \<Rightarrow> (bytes, string) result"
  base64_encode :: "bytes \<Rightarrow> string"
  base64_decode :: "string \<Rightarrow> bytes option"
  hmac_sha1 :: "bytes \<Rightarrow> bytes \<Rightarrow> bytes"
  hmac_sha256 :: "bytes \<Rightarrow> bytes \<Rightarrow> bytes"
  keystore_to_json :: "EncryptedKeyStore \<Rightarrow> (string, string) result"
  keystore_from_json :: "string \<Rightarrow> (EncryptedKeyStore, string) result"

section \<open>Encrypted frames\<close>

text \<open>A codec is its key.\<close>

record SFrameCodec =
  sf_key :: bytes

definition SFrameCodec_new :: "'z storage_crates_scheme \<Rightarrow> bytes \<Rightarrow> (SFrameCodec, SFrameError) result" where
  "SFrameCodec_new E key = (if aes_key_ok E key then Ok \<lparr>sf_key = key\<rparr> else Err InvalidKeySize)"

definition sframe_encrypt :: "'z storage_crates_scheme \<Rightarrow> SFrameCodec \<Rightarrow> bytes \<Rightarrow> bytes \<Rightarrow> (bytes, SFrameError) result" where
  "sframe_encrypt E codec nonce plaintext =
     (case aes_encrypt E (sf_key codec) nonce plaintext of
        Inr c \<Rightarrow> Ok c | Inl e \<Rightarrow> Err (EncryptionFailed e))"

definition sframe_decrypt :: "'z storage_crates_scheme \<Rightarrow> SFrameCodec \<Rightarrow> bytes \<Rightarrow> bytes \<Rightarrow> (bytes, SFrameError) result" where
  "sframe_decrypt E codec nonce ciphertext =
     (case aes_decrypt E (sf_key codec) nonce ciphertext of
        Some p \<Rightarrow> Ok p | None \<Rightarrow> Err DecryptionFailed)"

definition encrypt_frame :: "'z storage_crates_scheme \<Rightarrow> SFrameCodec \<Rightarrow> bytes \<Rightarrow> u8 \<Rightarrow> bytes \<Rightarrow> (bytes, SFrameError) result" where
  "encrypt_frame E codec nonce energy_byte audio_pcm =
     and_then (sframe_encrypt E codec nonce audio_pcm) (\<lambda>ciphertext. Ok (energy_byte # ciphertext))"

definition decrypt_frame :: "'z storage_crates_scheme \<Rightarrow> SFrameCodec \<Rightarrow> bytes \<Rightarrow> bytes \<Rightarrow> (u8 \<times> bytes, SFrameError) result" where
  "decrypt_frame E codec nonce frame =
     (case frame of
        [] \<Rightarrow> Err InvalidPayloadFormat
      | energy_byte # ciphertext \<Rightarrow>
          and_then (sframe_decrypt E codec nonce ciphertext) (\<lambda>plaintext. Ok (energy_byte, plaintext)))"

section \<open>The key store\<close>

text \<open>What the operating system answers to the file operations (creating the parent directory of the path answers \<open>Ok\<close>
  where the path has no parent), and the files. What a failed write leaves behind is not modelled.\<close>

record file_system =
  fs_create_dir :: "(unit, string) result"
  fs_write_result :: "(unit, string) result"
  fs_files :: "string \<rightharpoonup> string"
  fs_missing :: string

definition map_err :: "('e \<Rightarrow> 'f) \<Rightarrow> ('a, 'e) result \<Rightarrow> ('a, 'f) result" where
  "map_err f r = (case r of Inl e \<Rightarrow> Err (f e) | Inr x \<Rightarrow> Ok x)"

definition ok_or :: "'e \<Rightarrow> 'a option \<Rightarrow> ('a, 'e) result" where
  "ok_or e x = (case x of Some y \<Rightarrow> Ok y | None \<Rightarrow> Err e)"

definition keystore_of :: "'z storage_crates_scheme \<Rightarrow> UserKeypair \<Rightarrow> bytes \<Rightarrow> bytes \<Rightarrow> bytes \<Rightarrow> EncryptedKeyStore" where
  "keystore_of E keypair salt_bytes nonce ct =
     \<lparr>version = 1, ks_user_address = addr_id (public_key_address E keypair),
      key_type = (if is_secp256k1 keypair then ''secp256k1'' else ''ed25519''),
      crypto = \<lparr>kdf = ''argon2id'',
        kdf_params = \<lparr>salt = base64_encode E salt_bytes, mem_limit_kib = 65536, ops_limit = 3, parallelism = 4\<rparr>,
        cipher = ''aes-256-gcm'', ks_nonce = base64_encode E nonce, ks_ciphertext = base64_encode E ct\<rparr>\<rparr>"

definition save_encrypted_keystore ::
    "'z storage_crates_scheme \<Rightarrow> bytes \<Rightarrow> bytes \<Rightarrow> UserKeypair \<Rightarrow> string \<Rightarrow> string \<Rightarrow> file_system \<Rightarrow>
     (unit, KeyStoreError) result \<times> file_system" where
  "save_encrypted_keystore E salt_bytes nonce keypair passphrase path fs =
     (let json =
        and_then (map_err KsIo (fs_create_dir fs)) (\<lambda>_.
        and_then (map_err KdfError (argon2_params E 65536 3 4)) (\<lambda>_.
        and_then (map_err KdfError (argon2id E 65536 3 4 (as_bytes passphrase) salt_bytes)) (\<lambda>derived_key.
        and_then (map_err EncryptionError (aes_encrypt E derived_key nonce (keypair_to_bytes keypair))) (\<lambda>ct.
        and_then (map_err KsJson (keystore_to_json E (keystore_of E keypair salt_bytes nonce ct))) (\<lambda>json.
        and_then (map_err KsIo (fs_write_result fs)) (\<lambda>_. Ok json))))))
      in case json of
           Inl e \<Rightarrow> (Err e, fs)
         | Inr content \<Rightarrow> (Ok (), fs\<lparr>fs_files := (fs_files fs)(path \<mapsto> content)\<rparr>))"

definition decode_key :: "'z storage_crates_scheme \<Rightarrow> EncryptedKeyStore \<Rightarrow> string \<Rightarrow> (bytes, KeyStoreError) result" where
  "decode_key E store passphrase =
     (let params = kdf_params (crypto store) in
        and_then (ok_or (InvalidBase64 ''salt'') (base64_decode E (salt params))) (\<lambda>salt_bytes.
        and_then (ok_or (InvalidBase64 ''nonce'') (base64_decode E (ks_nonce (crypto store)))) (\<lambda>nonce_raw.
        and_then (ok_or (InvalidBase64 ''ciphertext'') (base64_decode E (ks_ciphertext (crypto store)))) (\<lambda>ct.
        and_then (if length nonce_raw = 12 then Ok nonce_raw else Err InvalidNonceLength) (\<lambda>nonce.
        and_then (map_err KdfError (argon2_params E (mem_limit_kib params) (ops_limit params) (parallelism params))) (\<lambda>_.
        and_then (map_err KdfError (argon2id E (mem_limit_kib params) (ops_limit params) (parallelism params)
            (as_bytes passphrase) salt_bytes)) (\<lambda>derived_key.
        and_then (ok_or InvalidPassphrase (aes_decrypt E derived_key nonce ct)) (\<lambda>decrypted_bytes.
        if length decrypted_bytes = 32 then Ok decrypted_bytes else Err InvalidPayloadLength))))))))"

definition load_encrypted_keystore ::
    "'z storage_crates_scheme \<Rightarrow> string \<Rightarrow> string \<Rightarrow> file_system \<Rightarrow> (UserKeypair, KeyStoreError) result" where
  "load_encrypted_keystore E passphrase path fs =
     and_then (ok_or (KsIo (fs_missing fs)) (fs_files fs path)) (\<lambda>content.
     and_then (map_err KsJson (keystore_from_json E content)) (\<lambda>store.
     if version store \<noteq> 1 then Err (UnsupportedVersion (version store))
     else if kdf (crypto store) \<noteq> ''argon2id'' then Err (UnsupportedKdf (kdf (crypto store)))
     else if cipher (crypto store) \<noteq> ''aes-256-gcm'' then Err (UnsupportedCipher (cipher (crypto store)))
     else
       and_then (decode_key E store passphrase) (\<lambda>secret_array.
       and_then (if key_type store = ''secp256k1'' \<or> key_type store = ''nostr''
                 then map_err KeypairError (from_secp256k1_bytes E secret_array)
                 else Ok (keypair_from_bytes secret_array)) (\<lambda>keypair.
       if addr_id (public_key_address E keypair) \<noteq> ks_user_address store then Err AddressMismatch
       else Ok keypair))))"

section \<open>TURN credentials\<close>

definition MAX_TURN_TTL_SECS :: u64 where "MAX_TURN_TTL_SECS = 86400"

definition derive_opaque_user_id :: "'z storage_crates_scheme \<Rightarrow> UserAddress \<Rightarrow> bytes \<Rightarrow> string" where
  "derive_opaque_user_id E user_address server_secret =
     concat (map hex_pair (take 16 (hmac_sha256 E server_secret (as_bytes (addr_id user_address)))))"

definition generate_ephemeral_turn_credential ::
    "'z storage_crates_scheme \<Rightarrow> u64 \<Rightarrow> bytes \<Rightarrow> UserAddress \<Rightarrow> string list \<Rightarrow> u64 \<Rightarrow> TurnCredential" where
  "generate_ephemeral_turn_credential E now server_secret user_address turn_urls ttl_seconds =
     (let effective_ttl = min ttl_seconds MAX_TURN_TTL_SECS;
          exp_timestamp = now + effective_ttl;
          username = show_nat (unat exp_timestamp) @ '':'' @ derive_opaque_user_id E user_address server_secret
      in \<lparr>tc_urls = turn_urls, tc_username = username,
          tc_credential = base64_encode E (hmac_sha1 E server_secret (as_bytes username)),
          tc_expiration_timestamp = exp_timestamp\<rparr>)"

text \<open>\<^verbatim>\<open>splitn(2, ':')\<close> with two parts.\<close>

definition split_once_char :: "char \<Rightarrow> string \<Rightarrow> (string \<times> string) option" where
  "split_once_char c s =
     (if c \<in> set s then Some (takeWhile (\<lambda>x. x \<noteq> c) s, drop 1 (dropWhile (\<lambda>x. x \<noteq> c) s)) else None)"

definition verify_ephemeral_turn_credential ::
    "'z storage_crates_scheme \<Rightarrow> u64 \<Rightarrow> bytes \<Rightarrow> string \<Rightarrow> string \<Rightarrow> (UserAddress, AuthError) result" where
  "verify_ephemeral_turn_credential E now server_secret username credential =
     and_then (ok_or InvalidTurnUsernameFormat (split_once_char (CHR '':'') username)) (\<lambda>(ts, user_address_hex).
     and_then (ok_or InvalidTimestamp (parse_u64 ts)) (\<lambda>exp_timestamp.
     if exp_timestamp < now then Err (TurnCredentialExpired exp_timestamp now)
     else
       and_then (ok_or InvalidTurnBase64 (base64_decode E credential)) (\<lambda>provided_mac.
       if hmac_sha1 E server_secret (as_bytes username) \<noteq> provided_mac then Err InvalidTurnSignature
       else Ok (UserAddress_new user_address_hex))))"

section \<open>What the crates promise\<close>

locale storage_laws = crypto_laws E for E :: "'z storage_crates_scheme" +
  assumes aes_roundtrip: "aes_encrypt E k n p = Ok c \<Longrightarrow> aes_decrypt E k n c = Some p"
    and base64_roundtrip: "base64_decode E (base64_encode E bs) = Some bs"
    and json_roundtrip: "keystore_to_json E st = Ok j \<Longrightarrow> keystore_from_json E j = Ok st"
begin

lemma frame_roundtrip:
  "encrypt_frame E codec nonce energy pcm = Ok frame \<Longrightarrow> decrypt_frame E codec nonce frame = Ok (energy, pcm)"
  using aes_roundtrip
  by (auto simp: encrypt_frame_def decrypt_frame_def sframe_encrypt_def sframe_decrypt_def and_then_Ok split: sum.splits)

lemma decode_key_of:
  assumes "argon2_params E 65536 3 4 = Ok ()" and "argon2id E 65536 3 4 (as_bytes pass) salt_bytes = Ok dk"
    and "aes_encrypt E dk nonce secret = Ok ct" and "length nonce = 12" and "length secret = 32"
  shows "decode_key E (keystore_of E kp salt_bytes nonce ct) pass = Ok secret"
  using assms aes_roundtrip [OF assms(3)]
  by (simp add: decode_key_def keystore_of_def base64_roundtrip ok_or_def map_err_def)

lemma keystore_roundtrip:
  assumes "save_encrypted_keystore E salt_bytes nonce kp pass path fs = (Ok (), fs')"
    and "length nonce = 12" and "length (keypair_to_bytes kp) = 32"
    and "is_secp256k1 kp \<Longrightarrow> schnorr_secret_ok E (keypair_to_bytes kp) = Ok ()"
  shows "load_encrypted_keystore E pass path fs' = Ok kp"
proof -
  obtain dk ct json where a: "argon2_params E 65536 3 4 = Ok ()" "argon2id E 65536 3 4 (as_bytes pass) salt_bytes = Ok dk"
    "aes_encrypt E dk nonce (keypair_to_bytes kp) = Ok ct" "keystore_to_json E (keystore_of E kp salt_bytes nonce ct) = Ok json"
    and fs': "fs' = fs\<lparr>fs_files := (fs_files fs)(path \<mapsto> json)\<rparr>"
    using assms(1) by (auto simp: save_encrypted_keystore_def Let_def and_then_Ok map_err_def split: sum.splits)
  define st where "st = keystore_of E kp salt_bytes nonce ct"
  have j: "keystore_from_json E json = Ok st" using json_roundtrip [OF a(4)] by (simp add: st_def)
  have d: "decode_key E st pass = Ok (keypair_to_bytes kp)"
    unfolding st_def by (rule decode_key_of [OF a(1-3) assms(2,3)])
  have f: "version st = 1" "kdf (crypto st) = ''argon2id''" "cipher (crypto st) = ''aes-256-gcm''"
    "key_type st = (if is_secp256k1 kp then ''secp256k1'' else ''ed25519'')" "ks_user_address st = addr_id (public_key_address E kp)"
    by (simp_all add: st_def keystore_of_def)
  have k: "(if is_secp256k1 kp then map_err KeypairError (from_secp256k1_bytes E (keypair_to_bytes kp))
      else Ok (keypair_from_bytes (keypair_to_bytes kp))) = Ok kp"
    using assms(4)
    by (cases kp; cases "kind kp")
       (auto simp: keypair_to_bytes_def is_secp256k1_def from_secp256k1_bytes_def keypair_from_bytes_def map_err_def)
  show ?thesis
    using k by (cases "is_secp256k1 kp") (simp_all add: load_encrypted_keystore_def fs' ok_or_def j d f map_err_def)
qed

end

text \<open>An instance for the witnesses: encryption appends the key's first byte, Base64 reads bytes as characters, and a
  key store is written as its fields, separated by colons.\<close>

definition store_fields :: "EncryptedKeyStore \<Rightarrow> string list" where
  "store_fields st =
     (let c = crypto st; p = kdf_params c in
      [ks_user_address st, key_type st, kdf c, salt p, cipher c, ks_nonce c, ks_ciphertext c,
       show_nat (unat (version st)), show_nat (unat (mem_limit_kib p)), show_nat (unat (ops_limit p)), show_nat (unat (parallelism p))])"

definition store_to_text :: "EncryptedKeyStore \<Rightarrow> (string, string) result" where
  "store_to_text st =
     (if list_all (\<lambda>f. CHR '':'' \<notin> set f) (store_fields st)
      then Ok (concat (map (\<lambda>f. f @ '':'') (store_fields st))) else Err ''unsupported character'')"

definition text_to_store :: "string \<Rightarrow> (EncryptedKeyStore, string) result" where
  "text_to_store s =
     (case split_char (CHR '':'') s of
        [a, t, k, sl, c, n, ct, v, m, ops, p, e] \<Rightarrow>
          (case (parse_u64 v, parse_u64 m, parse_u64 ops, parse_u64 p) of
             (Some v, Some m, Some ops, Some p) \<Rightarrow>
               Ok \<lparr>version = ucast v, ks_user_address = a, key_type = t,
                   crypto = \<lparr>kdf = k, kdf_params = \<lparr>salt = sl, mem_limit_kib = ucast m, ops_limit = ucast ops, parallelism = ucast p\<rparr>,
                     cipher = c, ks_nonce = n, ks_ciphertext = ct\<rparr>\<rparr>
           | _ \<Rightarrow> Err ''number'')
      | _ \<Rightarrow> Err ''fields'')"

lemma parse_show_u32: "parse_u64 (show_nat (unat (w :: u32))) = Some (ucast w)" "ucast (ucast w :: u64) = w"
proof -
  have "unat w < 2 ^ 64" using unsigned_less [of w, where ?'a = nat] by (rule less_trans) simp
  from parse_show_u64 [OF this] show "parse_u64 (show_nat (unat w)) = Some (ucast w)" by (simp only: of_nat_unat)
  show "ucast (ucast w :: u64) = w" by (rule ucast_up_ucast_id) (simp add: is_up)
qed

lemma text_roundtrip:
  assumes "store_to_text st = Ok j"
  shows "text_to_store j = Ok st"
proof -
  have f: "list_all (\<lambda>f. CHR '':'' \<notin> set f) (store_fields st)" and j: "j = concat (map (\<lambda>f. f @ '':'') (store_fields st))"
    using assms by (auto simp: store_to_text_def split: if_splits)
  have "split_char (CHR '':'') (concat (map (\<lambda>f. f @ '':'') fs)) = fs @ ['''']" if "list_all (\<lambda>f. CHR '':'' \<notin> set f) fs" for fs
    using that by (induction fs) (simp_all add: split_char_append split_char_single)
  then have "split_char (CHR '':'') j = store_fields st @ ['''']" using f j by simp
  then show ?thesis
    by (simp add: text_to_store_def store_fields_def Let_def parse_show_u32)
qed

definition std_storage :: storage_crates where
  "std_storage = crypto_crates.extend std_crypto
     \<lparr>aes_key_ok = (\<lambda>k. length k = 32),
      aes_encrypt = (\<lambda>k n p. Ok (p @ take 1 k)),
      aes_decrypt = (\<lambda>k n c. if length (take 1 k) \<le> length c \<and> drop (length c - length (take 1 k)) c = take 1 k
                       then Some (take (length c - length (take 1 k)) c) else None),
      argon2_params = (\<lambda>_ _ _. Ok ()),
      argon2id = (\<lambda>_ _ _ pass salt_bytes. Ok (take 32 (pass @ salt_bytes))),
      base64_encode = map (\<lambda>b. char_of (unat b)),
      base64_decode = (\<lambda>s. Some (map (\<lambda>c. of_nat (of_char c)) s)),
      hmac_sha1 = (\<lambda>k m. take 20 (k @ m)),
      hmac_sha256 = (\<lambda>k m. take 32 (k @ m @ replicate 32 0)),
      keystore_to_json = store_to_text,
      keystore_from_json = text_to_store\<rparr>"

lemma std_storage_crypto: "crypto_laws std_storage"
  using stdc.crypto_laws_axioms
  unfolding crypto_laws_def crypto_laws_axioms_def crate_laws_def crate_laws_axioms_def bytes_laws_def bytes_laws_axioms_def hex_laws_def
  by (simp add: std_storage_def crypto_crates.defs)

interpretation stds: storage_laws std_storage
  using std_storage_crypto
  by (intro storage_laws.intro storage_laws_axioms.intro)
     (auto simp: std_storage_def crypto_crates.defs text_roundtrip o_def)

section \<open>Properties\<close>

text \<open>C32: what \<^verbatim>\<open>save_encrypted_keystore\<close> writes, \<^verbatim>\<open>load_encrypted_keystore\<close> reads back under the same
  passphrase, for both kinds of keys; no other file changes.\<close>

theorem keystore_save_load:
  assumes "storage_laws E" and "save_encrypted_keystore E salt_bytes nonce kp pass path fs = (Ok (), fs')"
    and "length nonce = 12" and "length (keypair_to_bytes kp) = 32"
    and "is_secp256k1 kp \<Longrightarrow> schnorr_secret_ok E (keypair_to_bytes kp) = Ok ()"
  shows "load_encrypted_keystore E pass path fs' = Ok kp \<and> fs_files fs' |` (- {path}) = fs_files fs |` (- {path})"
proof -
  have "fs_files fs' |` (- {path}) = fs_files fs |` (- {path})"
    using assms(2) by (auto simp: save_encrypted_keystore_def Let_def restrict_map_def split: sum.splits)
  then show ?thesis using storage_laws.keystore_roundtrip [OF assms] by simp
qed

definition fs_example :: file_system where
  "fs_example = \<lparr>fs_create_dir = Ok (), fs_write_result = Ok (), fs_files = Map.empty, fs_missing = ''not found''\<rparr>"

abbreviation kp_example :: UserKeypair where
  "kp_example \<equiv> keypair_from_bytes (replicate 32 7)"

definition fs_saved :: file_system where
  "fs_saved = snd (save_encrypted_keystore std_storage (replicate 16 1) (replicate 12 2) kp_example ''pass'' ''keystore.json'' fs_example)"

lemma std_storage_simps:
  "aes_encrypt std_storage k n p = Ok (p @ take 1 k)" "argon2_params std_storage m t l = Ok ()"
  "argon2id std_storage m t l pass salt_bytes = Ok (take 32 (pass @ salt_bytes))"
  "base64_encode std_storage = map (\<lambda>b. char_of (unat b))" "keystore_to_json std_storage = store_to_text"
  "public_key_address std_storage \<lparr>kind = Ed25519 sk\<rparr> = from_bytes std_storage sk"
  by (simp_all add: std_storage_def crypto_crates.defs std_crypto_def public_key_address_def)

lemma save_example:
  "save_encrypted_keystore std_storage (replicate 16 1) (replicate 12 2) kp_example ''pass'' ''keystore.json'' fs_example = (Ok (), fs_saved)"
proof -
  have not_colon: "CHR '':'' \<noteq> char_of n" if "n < 256" "n \<noteq> 58" for n :: nat
  proof
    assume "CHR '':'' = char_of n"
    then have "of_char (CHR '':'') = (of_char (char_of n :: char) :: nat)" by (rule arg_cong)
    with that show False by (simp add: of_char_of)
  qed
  let ?st = "keystore_of std_storage kp_example (replicate 16 1) (replicate 12 2) (replicate 32 7 @ [112])"
  have "list_all (\<lambda>f. CHR '':'' \<notin> set f) (store_fields ?st)"
    using not_colon [of 1] not_colon [of 2] not_colon [of 7] not_colon [of 112]
    by (simp add: store_fields_def keystore_of_def Let_def std_storage_simps from_bytes_def is_secp256k1_def keypair_from_bytes_def)
  moreover have "keypair_to_bytes kp_example = replicate 32 7"
    by (simp add: keypair_to_bytes_def keypair_from_bytes_def)
  moreover have "take 1 (take 32 (as_bytes ''pass'' @ replicate 16 1)) = [112]"
    by code_simp
  ultimately have "fst (save_encrypted_keystore std_storage (replicate 16 1) (replicate 12 2) kp_example ''pass'' ''keystore.json'' fs_example) = Ok ()"
    by (simp add: save_encrypted_keystore_def std_storage_simps map_err_def fs_example_def store_to_text_def del: One_nat_def)
  then show ?thesis by (simp add: fs_saved_def prod_eq_iff)
qed

theorem keystore_save_load_witness:
  "load_encrypted_keystore std_storage ''pass'' ''keystore.json'' fs_saved = Ok kp_example"
  using keystore_save_load [OF stds.storage_laws_axioms save_example]
  by (simp add: keypair_from_bytes_def keypair_to_bytes_def is_secp256k1_def)

text \<open>a key that is loaded was decrypted from the file with the passphrase, under version 1, Argon2id and
  AES-256-GCM, and its address is the one the file names.\<close>

theorem keystore_load_sound:
  assumes "load_encrypted_keystore E pass path fs = Ok kp"
  shows "\<exists>content store secret. fs_files fs path = Some content \<and> keystore_from_json E content = Ok store \<and>
           version store = 1 \<and> kdf (crypto store) = ''argon2id'' \<and> cipher (crypto store) = ''aes-256-gcm'' \<and>
           decode_key E store pass = Ok secret \<and> length secret = 32 \<and> keypair_to_bytes kp = secret \<and>
           addr_id (public_key_address E kp) = ks_user_address store"
proof -
  obtain content store secret where l: "fs_files fs path = Some content" "keystore_from_json E content = Ok store"
      "version store = 1" "kdf (crypto store) = ''argon2id''" "cipher (crypto store) = ''aes-256-gcm''"
      "decode_key E store pass = Ok secret" "addr_id (public_key_address E kp) = ks_user_address store"
    and k: "(if key_type store = ''secp256k1'' \<or> key_type store = ''nostr''
             then map_err KeypairError (from_secp256k1_bytes E secret) else Ok (keypair_from_bytes secret)) = Ok kp"
    using assms by (auto simp: load_encrypted_keystore_def and_then_Ok ok_or_def map_err_def split: if_splits option.splits sum.splits)
  have "length secret = 32"
    using l(6) by (auto simp: decode_key_def Let_def and_then_Ok split: if_splits)
  moreover have "keypair_to_bytes kp = secret"
    using k by (auto simp: from_secp256k1_bytes_def keypair_from_bytes_def keypair_to_bytes_def map_err_def split: if_splits sum.splits)
  ultimately show ?thesis using l by blast
qed

theorem keystore_load_sound_witness:
  "\<exists>content store secret. fs_files fs_saved ''keystore.json'' = Some content \<and> keystore_from_json std_storage content = Ok store \<and>
     version store = 1 \<and> decode_key std_storage store ''pass'' = Ok secret"
proof -
  have "load_encrypted_keystore std_storage ''pass'' ''keystore.json'' fs_saved = Ok kp_example"
    by (rule stds.keystore_roundtrip [OF save_example])
       (simp_all add: keypair_from_bytes_def keypair_to_bytes_def is_secp256k1_def)
  from keystore_load_sound [OF this] show ?thesis by blast
qed

text \<open>an encrypted frame decrypts to its audio and its energy byte; the energy byte is not
  authenticated, so with any other value in its place the frame decrypts to the same audio; an empty frame is an error.\<close>

theorem sframe_frame_roundtrip:
  assumes "storage_laws E" and "encrypt_frame E codec nonce energy pcm = Ok frame"
  shows "decrypt_frame E codec nonce frame = Ok (energy, pcm) \<and> decrypt_frame E codec nonce (frame[0 := forged]) = Ok (forged, pcm) \<and>
         decrypt_frame E codec nonce [] = Err InvalidPayloadFormat"
proof -
  obtain ct where f: "frame = energy # ct"
    using assms(2) by (auto simp: encrypt_frame_def and_then_Ok)
  have d: "decrypt_frame E codec nonce (energy # ct) = Ok (energy, pcm)"
    using storage_laws.frame_roundtrip [OF assms] by (simp add: f)
  then show ?thesis by (simp add: f decrypt_frame_def and_then_Ok)
qed

theorem sframe_frame_roundtrip_witness:
  "decrypt_frame std_storage \<lparr>sf_key = replicate 32 9\<rparr> (replicate 12 0) [200, 1, 2, 9] = Ok (200, [1, 2])"
proof -
  have e: "encrypt_frame std_storage \<lparr>sf_key = replicate 32 9\<rparr> (replicate 12 0) 40 [1, 2] = Ok [40, 1, 2, 9]"
    by code_simp
  show ?thesis using sframe_frame_roundtrip [OF stds.storage_laws_axioms e, of 200] by simp
qed

lemma split_once_char_append:
  "c \<notin> set s \<Longrightarrow> split_once_char c (s @ c # t) = Some (s, t)"
  by (induction s) (auto simp: split_once_char_def)

text \<open>a TURN credential is accepted, for the opaque identifier of the address, exactly until its
  expiry, which is at most a day after it was generated; afterwards the answer is the expiry error. The hypothesis on the
  clock excludes overflow of its 64 bits.\<close>

theorem turn_credential_lifetime:
  assumes "storage_laws E" and "unat now + 86400 < 2 ^ 64"
    and "cred = generate_ephemeral_turn_credential E now secret addr urls ttl"
  shows "unat (tc_expiration_timestamp cred) = unat now + min (unat ttl) 86400 \<and>
         verify_ephemeral_turn_credential E t secret (tc_username cred) (tc_credential cred) =
           (if t \<le> tc_expiration_timestamp cred then Ok (UserAddress_new (derive_opaque_user_id E addr secret))
            else Err (TurnCredentialExpired (tc_expiration_timestamp cred) t))"
proof -
  define e where "e = now + min ttl MAX_TURN_TTL_SECS"
  have m: "unat (min ttl MAX_TURN_TTL_SECS) = min (unat ttl) 86400"
    by (simp add: MAX_TURN_TTL_SECS_def min_def word_le_nat_alt)
  have "unat now + unat (min ttl MAX_TURN_TTL_SECS) < 2 ^ LENGTH(64)" using assms(2) m by simp
  then have e: "unat e = unat now + min (unat ttl) 86400" by (simp add: e_def unat_plus_if' m)
  have c: "cred = \<lparr>tc_urls = urls, tc_username = show_nat (unat e) @ '':'' @ derive_opaque_user_id E addr secret,
      tc_credential = base64_encode E (hmac_sha1 E secret (as_bytes (show_nat (unat e) @ '':'' @ derive_opaque_user_id E addr secret))),
      tc_expiration_timestamp = e\<rparr>"
    by (simp add: assms(3) generate_ephemeral_turn_credential_def Let_def e_def)
  have "verify_ephemeral_turn_credential E t secret (tc_username cred) (tc_credential cred) =
      (if t \<le> e then Ok (UserAddress_new (derive_opaque_user_id E addr secret)) else Err (TurnCredentialExpired e t))"
    by (simp add: c verify_ephemeral_turn_credential_def split_once_char_append ok_or_def not_less
        storage_laws.base64_roundtrip [OF assms(1)] linorder_not_le)
  then show ?thesis using e by (simp add: c)
qed

theorem turn_credential_lifetime_witness:
  "tc_expiration_timestamp (generate_ephemeral_turn_credential std_storage 1000 [1, 2] (UserAddress_new ''ab'') [] 1000000) = 87400"
  using turn_credential_lifetime [OF stds.storage_laws_axioms, of 1000, OF _ refl, of "[1, 2]" "UserAddress_new ''ab''" "[]" 1000000]
  by (simp add: word_unat_eq_iff)

end
