(* ===== verification/WP_Identity.thy ===== *)
theory WP_Identity
  imports WP_Storage WP_Client
begin

text \<open>
  Starting the client (\<^verbatim>\<open>crates/wpclient/src/main.rs\<close>, \<^verbatim>\<open>commands/call.rs\<close>, \<^verbatim>\<open>commands/room.rs\<close>): which identity
  it takes, from the command line, the environment, the key store or the random generator, and which session it runs. Parsing
  the command line and reading the configuration file are left to their crates.
\<close>

section \<open>The identity\<close>

text \<open>What one start of the program reads from its environment: variables, the path of the key store, and random bytes (for the
  passphrase, the salt, the nonce, a new key, and the key of a session of its own). A path exists when it names a readable file.\<close>

record startup =
  su_env_nostr_key :: "string option"
  su_env_passphrase :: "string option"
  su_keystore_path :: string
  su_rand_bytes :: bytes
  su_salt :: bytes
  su_nonce :: bytes
  su_seed :: bytes
  su_session_seed :: bytes

record IdentityArgs =
  id_anonymous :: bool
  id_passphrase :: "string option"
  id_nostr_key :: "string option"

definition or_else :: "'a option \<Rightarrow> 'a option \<Rightarrow> 'a option" where
  "or_else x y = (case x of Some _ \<Rightarrow> x | None \<Rightarrow> y)"

definition startup_passphrase :: "'z storage_crates_scheme \<Rightarrow> startup \<Rightarrow> string option \<Rightarrow> string" where
  "startup_passphrase E su passphrase_override =
     (case or_else passphrase_override (su_env_passphrase su) of
        Some p \<Rightarrow> p | None \<Rightarrow> hex_encode E (su_rand_bytes su))"

definition load_or_create_client_keypair ::
    "'z storage_crates_scheme \<Rightarrow> startup \<Rightarrow> bool \<Rightarrow> string option \<Rightarrow> string option \<Rightarrow> file_system \<Rightarrow> UserKeypair \<times> file_system" where
  "load_or_create_client_keypair E su anonymous passphrase_override nostr_key_override fs =
     (let passphrase = startup_passphrase E su passphrase_override;
          save = (\<lambda>keypair. snd (save_encrypted_keystore E (su_salt su) (su_nonce su) keypair passphrase (su_keystore_path su) fs));
          fallback =
            (if anonymous then (keypair_generate (su_seed su), fs)
             else if fs_files fs (su_keystore_path su) \<noteq> None
             then (case load_encrypted_keystore E passphrase (su_keystore_path su) fs of
                     Inr keypair \<Rightarrow> (keypair, fs)
                   | Inl _ \<Rightarrow> (keypair_generate (su_seed su), fs))
             else (let keypair = keypair_generate (su_seed su) in (keypair, save keypair)))
      in case or_else nostr_key_override (su_env_nostr_key su) of
           Some nostr_key \<Rightarrow>
             (case from_nostr_key E nostr_key of
                Inr keypair \<Rightarrow> (keypair, save keypair)
              | Inl _ \<Rightarrow> fallback)
         | None \<Rightarrow> fallback)"

section \<open>Commands\<close>

datatype Commands =
    CallCommand "string option" bool IdentityArgs
  | RoomCommand string IdentityArgs
  | ListAddresses
  | ListDevices

datatype client_run =
    RunTui ClConfiguration UserKeypair
  | RunCall ClConfiguration UserAddress ClientSession
  | RunRoom ClConfiguration UserAddress ClientSession
  | RunListAddresses ClConfiguration
  | RunListDevices

text \<open>\<^verbatim>\<open>start_call\<close> and \<^verbatim>\<open>start_room_call\<close> make a session of their own, \<^verbatim>\<open>ClientSession::new()\<close>.\<close>

definition execute_call :: "startup \<Rightarrow> ClConfiguration \<Rightarrow> string option \<Rightarrow> UserKeypair \<Rightarrow> client_run" where
  "execute_call su config target keypair =
     (case target of
        Some to \<Rightarrow> RunCall config (UserAddress_new to) (with_keypair (keypair_generate (su_session_seed su)))
      | None \<Rightarrow> RunTui config keypair)"

definition execute_room :: "'z storage_crates_scheme \<Rightarrow> startup \<Rightarrow> ClConfiguration \<Rightarrow> string \<Rightarrow> UserKeypair \<Rightarrow> client_run" where
  "execute_room E su config room_id keypair =
     RunRoom config (from_room_id E room_id) (with_keypair (keypair_generate (su_session_seed su)))"

definition merge_identity :: "IdentityArgs \<Rightarrow> IdentityArgs \<Rightarrow> IdentityArgs" where
  "merge_identity global local_args =
     \<lparr>id_anonymous = id_anonymous global \<or> id_anonymous local_args,
      id_passphrase = or_else (id_passphrase local_args) (id_passphrase global),
      id_nostr_key = or_else (id_nostr_key local_args) (id_nostr_key global)\<rparr>"

definition load_identity :: "'z storage_crates_scheme \<Rightarrow> startup \<Rightarrow> IdentityArgs \<Rightarrow> file_system \<Rightarrow> UserKeypair \<times> file_system" where
  "load_identity E su ids fs = load_or_create_client_keypair E su (id_anonymous ids) (id_passphrase ids) (id_nostr_key ids) fs"

fun run_command ::
    "'z storage_crates_scheme \<Rightarrow> startup \<Rightarrow> IdentityArgs \<Rightarrow> Commands option \<Rightarrow> ClConfiguration \<Rightarrow> file_system \<Rightarrow> client_run \<times> file_system" where
  "run_command E su global (Some (CallCommand to auto_accept ids)) config fs =
     (let config = (if auto_accept then config\<lparr>cl_client := \<lparr>cfg_auto_accept = True\<rparr>\<rparr> else config);
          (keypair, fs) = load_identity E su (merge_identity global ids) fs
      in (execute_call su config to keypair, fs))"
| "run_command E su global (Some (RoomCommand room_id ids)) config fs =
     (let (keypair, fs) = load_identity E su (merge_identity global ids) fs
      in (execute_room E su config room_id keypair, fs))"
| "run_command E su global (Some ListAddresses) config fs = (RunListAddresses config, fs)"
| "run_command E su global (Some ListDevices) config fs = (RunListDevices, fs)"
| "run_command E su global None config fs =
     (let (keypair, fs) = load_identity E su global fs in (RunTui config keypair, fs))"

text \<open>\<^verbatim>\<open>main\<close>: a URL of the file that cannot be normalized is reported and ignored; wrong overrides end the program.\<close>

definition client_main ::
    "'z storage_crates_scheme \<Rightarrow> (string \<Rightarrow> (url, string) result) \<Rightarrow> startup \<Rightarrow> CLIArgs \<Rightarrow> IdentityArgs \<Rightarrow> Commands option \<Rightarrow>
     ClConfiguration \<Rightarrow> file_system \<Rightarrow> (client_run, ConfigError) result \<times> file_system" where
  "client_main E url_parse su args ids command loaded_config fs =
     (case apply_cli_overrides url_parse args (snd (normalize url_parse loaded_config)) of
        Inl e \<Rightarrow> (Err e, fs)
      | Inr config \<Rightarrow> (let (run, fs) = run_command E su ids command config fs in (Ok run, fs)))"

section \<open>Properties\<close>

lemma keypair_generate_facts [simp]:
  "keypair_to_bytes (keypair_generate seed) = seed" "is_secp256k1 (keypair_generate seed) = False"
  by (simp_all add: keypair_to_bytes_def keypair_generate_def is_secp256k1_def)

lemma save_creates:
  "save_encrypted_keystore E salt_bytes nonce kp pass path fs = (Ok (), fs') \<Longrightarrow> fs_files fs' path \<noteq> None"
  by (auto simp: save_encrypted_keystore_def Let_def split: sum.splits)

text \<open>Starts without a Nostr key and outside anonymous mode.\<close>

definition plain_start :: "startup \<Rightarrow> IdentityArgs \<Rightarrow> bool" where
  "plain_start su ids \<longleftrightarrow> \<not> id_anonymous ids \<and> id_nostr_key ids = None \<and> su_env_nostr_key su = None"

lemma first_start:
  assumes "plain_start su ids" and "fs_files fs (su_keystore_path su) = None"
  shows "load_identity E su ids fs = (keypair_generate (su_seed su),
    snd (save_encrypted_keystore E (su_salt su) (su_nonce su) (keypair_generate (su_seed su)) (startup_passphrase E su (id_passphrase ids))
      (su_keystore_path su) fs))"
  using assms by (simp add: load_identity_def load_or_create_client_keypair_def plain_start_def or_else_def Let_def)

lemma later_start:
  assumes "plain_start su ids" and "fs_files fs (su_keystore_path su) \<noteq> None"
  shows "load_identity E su ids fs =
    (case load_encrypted_keystore E (startup_passphrase E su (id_passphrase ids)) (su_keystore_path su) fs of
       Inr keypair \<Rightarrow> (keypair, fs) | Inl _ \<Rightarrow> (keypair_generate (su_seed su), fs))"
  using assms by (auto simp: load_identity_def load_or_create_client_keypair_def plain_start_def or_else_def Let_def)

text \<open>C38: with a passphrase the identity persists: the key made at the first start is the key of every later
  start under the same passphrase, whether it comes from the command line or the environment, and later starts leave the key store alone.\<close>

theorem identity_persists:
  assumes "storage_laws E" and "plain_start su ids" and "plain_start su' ids'" and "fs_files fs (su_keystore_path su) = None"
    and "su_keystore_path su' = su_keystore_path su"
    and "startup_passphrase E su' (id_passphrase ids') = startup_passphrase E su (id_passphrase ids)"
    and "save_encrypted_keystore E (su_salt su) (su_nonce su) (keypair_generate (su_seed su)) (startup_passphrase E su (id_passphrase ids))
           (su_keystore_path su) fs = (Ok (), fs1)"
    and "length (su_nonce su) = 12" and "length (su_seed su) = 32"
  shows "load_identity E su ids fs = (keypair_generate (su_seed su), fs1) \<and>
         load_identity E su' ids' fs1 = (keypair_generate (su_seed su), fs1)"
proof -
  have "load_encrypted_keystore E (startup_passphrase E su (id_passphrase ids)) (su_keystore_path su) fs1 = Ok (keypair_generate (su_seed su))"
    using storage_laws.keystore_roundtrip [OF assms(1,7,8)] assms(9) by simp
  then show ?thesis
    using first_start [OF assms(2,4), where E = E] later_start [OF assms(3), of fs1 E] save_creates [OF assms(7)] assms(5,6,7) by simp
qed

definition su_example :: startup where
  "su_example = \<lparr>su_env_nostr_key = None, su_env_passphrase = None, su_keystore_path = ''keystore.json'', su_rand_bytes = replicate 16 0x11,
     su_salt = replicate 16 1, su_nonce = replicate 12 2, su_seed = replicate 32 7, su_session_seed = replicate 32 9\<rparr>"

definition ids_example :: IdentityArgs where
  "ids_example = \<lparr>id_anonymous = False, id_passphrase = Some ''pass'', id_nostr_key = None\<rparr>"

lemma generate_kp_example: "keypair_generate (replicate 32 7) = kp_example"
  by (simp add: keypair_generate_def keypair_from_bytes_def)

theorem identity_persists_witness:
  "load_identity std_storage (su_example\<lparr>su_env_passphrase := Some ''pass'', su_seed := replicate 32 8\<rparr>)
     (ids_example\<lparr>id_passphrase := None\<rparr>) fs_saved = (kp_example, fs_saved)"
proof -
  let ?su' = "su_example\<lparr>su_env_passphrase := Some ''pass'', su_seed := replicate 32 8\<rparr>"
  have s: "save_encrypted_keystore std_storage (su_salt su_example) (su_nonce su_example) (keypair_generate (su_seed su_example))
      (startup_passphrase std_storage su_example (id_passphrase ids_example)) (su_keystore_path su_example) fs_example = (Ok (), fs_saved)"
    using save_example by (simp add: su_example_def ids_example_def startup_passphrase_def or_else_def generate_kp_example)
  show ?thesis
    using identity_persists [OF stds.storage_laws_axioms _ _ _ _ _ s, of ?su' "ids_example\<lparr>id_passphrase := None\<rparr>"]
    by (simp add: plain_start_def su_example_def ids_example_def startup_passphrase_def or_else_def fs_example_def generate_kp_example)
qed

text \<open>without a passphrase the identity is lost: the first start encrypts the new key under a random
  passphrase that nobody keeps, so every later start, unless its own random passphrase opens the key store, falls back to a temporary
  key and leaves the useless file where it is.\<close>

theorem identity_lost_without_passphrase:
  assumes "list_all (\<lambda>(su, ids). plain_start su ids \<and> su_keystore_path su = path \<and> id_passphrase ids = None \<and> su_env_passphrase su = None \<and>
      (\<exists>e. load_encrypted_keystore E (hex_encode E (su_rand_bytes su)) path fs = Err e)) starts"
    and "fs_files fs path \<noteq> None"
  shows "foldl (\<lambda>(kps, fs) (su, ids). let (kp, fs) = load_identity E su ids fs in (kps @ [kp], fs)) ([], fs) starts =
    (map (\<lambda>(su, ids). keypair_generate (su_seed su)) starts, fs)"
  using assms(1)
proof (induction starts rule: rev_induct)
  case (snoc x xs)
  obtain su ids where x: "x = (su, ids)" by (cases x)
  with snoc.prems obtain e where "plain_start su ids" "su_keystore_path su = path" "startup_passphrase E su (id_passphrase ids) = hex_encode E (su_rand_bytes su)"
      "load_encrypted_keystore E (hex_encode E (su_rand_bytes su)) path fs = Err e"
    by (auto simp: startup_passphrase_def or_else_def)
  then have "load_identity E su ids fs = (keypair_generate (su_seed su), fs)" using later_start [of su ids fs E] assms(2) by simp
  then show ?case using snoc by (simp add: x)
qed simp

text \<open>Two starts without a passphrase on a machine without a key store.\<close>

definition su_again :: startup where
  "su_again = su_example\<lparr>su_rand_bytes := replicate 16 0x22, su_seed := replicate 32 8\<rparr>"

theorem identity_lost_without_passphrase_witness:
  "load_identity std_storage su_again (ids_example\<lparr>id_passphrase := None\<rparr>) fs_saved = (keypair_generate (replicate 32 8), fs_saved)"
proof -
  let ?ids = "ids_example\<lparr>id_passphrase := None\<rparr>"
  have l: "\<exists>e. load_encrypted_keystore std_storage (hex_encode std_storage (su_rand_bytes su_again)) ''keystore.json'' fs_saved = Err e"
  proof -
    let ?st = "keystore_of std_storage kp_example (replicate 16 1) (replicate 12 2) (replicate 32 7 @ [112])"
    have "take 1 (take 32 (as_bytes ''pass'' @ replicate 16 1)) = [112]" by code_simp
    then obtain content where f: "fs_saved = fs_example\<lparr>fs_files := (fs_files fs_example)(''keystore.json'' \<mapsto> content)\<rparr>"
        and t: "store_to_text ?st = Ok content"
      using save_example [symmetric]
      by (auto simp: save_encrypted_keystore_def Let_def and_then_Ok std_storage_simps keypair_to_bytes_def keypair_from_bytes_def map_err_def
          simp del: One_nat_def split: sum.splits)
    have c: "fs_files fs_saved ''keystore.json'' = Some content" by (simp add: f)
    have j: "keystore_from_json std_storage content = Ok ?st" using t stds.json_roundtrip [of ?st content] by (simp add: std_storage_simps)
    have aes: "take 1 key = [50] \<Longrightarrow> aes_decrypt std_storage key n (replicate 32 7 @ [112]) = None" for key n
      by (cases key) (simp_all add: std_storage_def crypto_crates.defs)
    have k: "take 1 (take 32 (as_bytes (hex_encode std_storage (su_rand_bytes su_again)) @ replicate 16 1)) = [50]" by code_simp
    have "decode_key std_storage ?st (hex_encode std_storage (su_rand_bytes su_again)) = Err InvalidPassphrase"
      using k aes [of "take 32 (as_bytes (hex_encode std_storage (su_rand_bytes su_again)) @ replicate 16 1)"]
      by (simp add: decode_key_def keystore_of_def stds.base64_roundtrip ok_or_def map_err_def std_storage_simps(2,3) del: One_nat_def take_append)
    then show ?thesis using c j by (simp add: load_encrypted_keystore_def ok_or_def map_err_def keystore_of_def)
  qed
  have "fs_files fs_saved ''keystore.json'' \<noteq> None" by (rule save_creates [OF save_example])
  with l identity_lost_without_passphrase [of "''keystore.json''" std_storage fs_saved "[(su_again, ?ids)]"] show ?thesis
    by (simp add: plain_start_def su_again_def su_example_def ids_example_def case_prod_beta prod_eq_iff)
qed

text \<open>With a Nostr key, even in anonymous mode, the key store is replaced by that key.\<close>

lemma nostr_key_replaces_identity:
  assumes "storage_laws E" and "id_nostr_key ids = Some key" and "from_nostr_key E key = Ok kp" and "length (su_nonce su) = 12" and "length (keypair_to_bytes kp) = 32"
    and "save_encrypted_keystore E (su_salt su) (su_nonce su) kp (startup_passphrase E su (id_passphrase ids)) (su_keystore_path su) fs = (Ok (), fs1)"
  shows "load_identity E su ids fs = (kp, fs1) \<and>
         load_encrypted_keystore E (startup_passphrase E su (id_passphrase ids)) (su_keystore_path su) fs1 = Ok kp"
proof -
  have "schnorr_secret_ok E (keypair_to_bytes kp) = Ok ()"
    using assms(3) by (auto simp: from_nostr_key_def from_secp256k1_bytes_def keypair_to_bytes_def split: sum.splits if_splits)
  then show ?thesis
    using assms storage_laws.keystore_roundtrip [OF assms(1,6,4,5)]
    by (simp add: load_identity_def load_or_create_client_keypair_def or_else_def Let_def)
qed

text \<open>A direct call and a room run under a new key, whatever identity was loaded.\<close>

lemma direct_call_ignores_identity:
  assumes "client_main E url_parse su args ids (Some (CallCommand (Some to) auto_accept ids')) config fs = (Ok run, fs')"
  shows "\<exists>c. run = RunCall c (UserAddress_new to) (with_keypair (keypair_generate (su_session_seed su)))"
  using assms by (auto simp: client_main_def execute_call_def Let_def case_prod_beta split: sum.splits)

end
