(* ===== verification/WP_Ffi.thy ===== *)
theory WP_Ffi
  imports WP_Client
begin

text \<open>
  The C interface (\<^verbatim>\<open>crates/wpapi/src/ffi.rs\<close>, \<^verbatim>\<open>ffi/session.rs\<close>): configuration and call handles on a heap of boxes, the
  last error of a thread, the control of a running call, and the callbacks of its worker. A pointer is a number, 0 is \<^verbatim>\<open>NULL\<close>; a C string is
  \<open>None\<close> for \<^verbatim>\<open>NULL\<close> or its bytes before the terminator. An operation is \<open>None\<close> when it follows a pointer that is not alive, which is
  undefined behaviour. The address the allocator returns, new channels and random bytes are arguments; the allocator and the creation of
  a thread succeed. Calls come one at a time, from one thread: two threads that use a handle at once, where the source has a \<^verbatim>\<open>&mut\<close>
  beside other references, are not represented. A C string that is not \<^verbatim>\<open>NULL\<close> is readable up to its terminator. The operations are
  those that change state; getters are left out, and so is the failure of \<^verbatim>\<open>catch_unwind\<close> after a panic, which sets no message.
\<close>

section \<open>Strings\<close>

text \<open>\<^verbatim>\<open>str::from_utf8\<close>: the length of the character at the front, or how many bytes of it are wrong (\<open>None\<close>: the input ends
  inside it); then the whole string.\<close>

definition utf8_width :: "nat \<Rightarrow> nat" where
  "utf8_width b =
     (if b < 0x80 then 1 else if b < 0xC2 then 0 else if b < 0xE0 then 2 else if b < 0xF0 then 3 else if b < 0xF5 then 4 else 0)"

definition is_continuation :: "nat \<Rightarrow> bool" where
  "is_continuation b \<longleftrightarrow> 0x80 \<le> b \<and> b < 0xC0"

definition second_ok :: "nat \<Rightarrow> nat \<Rightarrow> bool" where
  "second_ok first b \<longleftrightarrow>
     is_continuation b \<and> (first = 0xE0 \<longrightarrow> 0xA0 \<le> b) \<and> (first = 0xED \<longrightarrow> b < 0xA0) \<and> (first = 0xF0 \<longrightarrow> 0x90 \<le> b) \<and> (first = 0xF4 \<longrightarrow> b < 0x90)"

definition utf8_char :: "nat list \<Rightarrow> (nat, nat option) result" where
  "utf8_char bs =
     (let w = utf8_width (hd bs) in
      if w = 0 then Err (Some 1)
      else if w = 1 then Ok 1
      else if length bs < 2 then Err None
      else if \<not> second_ok (hd bs) (bs ! 1) then Err (Some 1)
      else if w = 2 then Ok 2
      else if length bs < 3 then Err None
      else if \<not> is_continuation (bs ! 2) then Err (Some 2)
      else if w = 3 then Ok 3
      else if length bs < 4 then Err None
      else if \<not> is_continuation (bs ! 3) then Err (Some 3)
      else Ok 4)"

record Utf8Error =
  valid_up_to :: nat
  error_len :: "nat option"

function utf8_validate :: "nat \<Rightarrow> nat list \<Rightarrow> (unit, Utf8Error) result" where
  "utf8_validate i bs =
     (if bs = [] then Ok ()
      else case utf8_char bs of
             Inl e \<Rightarrow> Err \<lparr>valid_up_to = i, error_len = e\<rparr>
           | Inr w \<Rightarrow> utf8_validate (i + w) (drop w bs))"
  by pat_completeness auto

lemma utf8_char_pos: "utf8_char bs = Inr w \<Longrightarrow> 0 < w"
  by (auto simp: utf8_char_def Let_def split: if_splits)

termination utf8_validate
  by (relation "measure (\<lambda>(i, bs). length bs)") (auto dest: utf8_char_pos)

declare utf8_validate.simps [simp del]

definition show_utf8_error :: "Utf8Error \<Rightarrow> string" where
  "show_utf8_error e =
     (case error_len e of
        Some n \<Rightarrow> ''invalid utf-8 sequence of '' @ show_nat n @ '' bytes from index '' @ show_nat (valid_up_to e)
      | None \<Rightarrow> ''incomplete utf-8 byte sequence from index '' @ show_nat (valid_up_to e))"

definition to_str :: "string \<Rightarrow> (string, string) result" where
  "to_str s = (case utf8_validate 0 (map of_char s) of Inl e \<Rightarrow> Err (show_utf8_error e) | Inr _ \<Rightarrow> Ok s)"

abbreviation NUL :: char where
  "NUL \<equiv> CHR 0x00"

abbreviation quoted :: "string \<Rightarrow> string" where
  "quoted s \<equiv> [CHR 0x27] @ s @ [CHR 0x27]"

text \<open>\<^verbatim>\<open>CString::new(s).unwrap_or_default()\<close>.\<close>

definition cstring_or_default :: "string \<Rightarrow> string" where
  "cstring_or_default s = (if NUL \<in> set s then [] else s)"

section \<open>State\<close>

datatype WPAPIEventType = EventAccepted | EventRejected | EventError | EventHangup | EventIncomingCall

record EventCallbackState =
  cb_callback :: nat
  cb_user_data :: nat

record WPAPIConfig =
  wc_config :: ClConfiguration
  wc_callback :: "EventCallbackState option"

text \<open>What the worker thread of a handle runs.\<close>

datatype worker =
    CallWorker ClConfiguration "EventCallbackState option" "UserAddress option"
  | RoomWorker ClConfiguration "EventCallbackState option" UserAddress

text \<open>\<open>wh_incoming\<close> is the content of the channel of incoming calls between the session and the worker, which holds 16.\<close>

record WPAPICallHandle =
  wh_stop_tx :: "tx_handle option"
  wh_thread :: "worker option"
  wh_session :: ClientSession
  wh_incoming :: "(UserAddress \<times> responder) list"

record ffi =
  ffi_configs :: "nat \<rightharpoonup> WPAPIConfig"
  ffi_calls :: "nat \<rightharpoonup> WPAPICallHandle"
  ffi_last_error :: "string option"

datatype ffi_effect =
    SendStop tx_handle
  | JoinThread
  | Answer responder bool
  | Callback EventCallbackState WPAPIEventType string string

definition set_last_error :: "string \<Rightarrow> ffi \<Rightarrow> ffi" where
  "set_last_error err st = st\<lparr>ffi_last_error := Some (if NUL \<in> set err then ''Unknown error'' else err)\<rparr>"

text \<open>The copy of the last error into a buffer of the caller: the return code and the buffer afterwards.\<close>

definition wpapi_get_last_error_copy :: "string option \<Rightarrow> nat \<Rightarrow> ffi \<Rightarrow> int \<times> string option" where
  "wpapi_get_last_error_copy buf buf_len st =
     (case buf of
        None \<Rightarrow> (- 1, None)
      | Some b \<Rightarrow>
          if buf_len = 0 then (- 1, Some b)
          else (case ffi_last_error st of
                  Some msg \<Rightarrow>
                    let bytes = msg @ [NUL]; copy_len = min (length bytes) buf_len;
                        b = take copy_len bytes @ drop copy_len b
                    in (0, Some (b[copy_len - 1 := NUL]))
                | None \<Rightarrow> (- 1, Some (b[0 := NUL]))))"

section \<open>Configuration handles\<close>

type_synonym c_string = "string option"
type_synonym 'r ffi_result = "('r \<times> ffi_effect list \<times> ffi) option"

definition fail :: "'r \<Rightarrow> string \<Rightarrow> ffi \<Rightarrow> 'r ffi_result" where
  "fail code err st = Some (code, [], set_last_error err st)"

definition put_config :: "nat \<Rightarrow> WPAPIConfig \<Rightarrow> ffi \<Rightarrow> ffi" where
  "put_config p c st = st\<lparr>ffi_configs := (ffi_configs st)(p \<mapsto> c)\<rparr>"

definition update_config :: "nat \<Rightarrow> (ClConfiguration \<Rightarrow> ClConfiguration) \<Rightarrow> ffi \<Rightarrow> int ffi_result" where
  "update_config p f st =
     (case ffi_configs st p of
        None \<Rightarrow> None
      | Some c \<Rightarrow> Some (0, [], put_config p (c\<lparr>wc_config := f (wc_config c)\<rparr>) st))"

definition wpapi_config_new :: "nat \<Rightarrow> ffi \<Rightarrow> nat ffi_result" where
  "wpapi_config_new p st = Some (p, [], put_config p \<lparr>wc_config = ClConfiguration_default, wc_callback = None\<rparr> st)"

definition wpapi_config_free :: "nat \<Rightarrow> ffi \<Rightarrow> unit ffi_result" where
  "wpapi_config_free p st =
     (if p = 0 then Some ((), [], st)
      else if ffi_configs st p = None then None
      else Some ((), [], st\<lparr>ffi_configs := (ffi_configs st)(p := None)\<rparr>))"

definition wpapi_config_set_server :: "nat \<Rightarrow> c_string \<Rightarrow> u16 \<Rightarrow> ffi \<Rightarrow> int ffi_result" where
  "wpapi_config_set_server p server_ip server_port st =
     (if p = 0 \<or> server_ip = None then fail (- 1) ''Null pointer argument'' st
      else case to_str (the server_ip) of
             Inl e \<Rightarrow> fail (- 1) e st
           | Inr ip_str \<Rightarrow>
               (case parse_ip ip_str of
                  None \<Rightarrow> fail (- 1) (''Invalid IP address '' @ quoted ip_str @ '': invalid IP address syntax'') st
                | Some ip_addr \<Rightarrow>
                    update_config p (map_server (\<lambda>s. s\<lparr>srv_address := show_ip ip_addr @ '':'' @ show_nat (unat server_port)\<rparr>)) st))"

text \<open>The texts of the errors of \<^verbatim>\<open>parse_and_apply_server_url\<close>.\<close>

fun show_url_error :: "ConfigError \<Rightarrow> string" where
  "show_url_error (InvalidServerUrl input e) = ''Invalid server URL format '' @ quoted input @ '': '' @ e"
| "show_url_error (UnsupportedScheme scheme) = ''Unsupported URL scheme '' @ quoted scheme @ '' (must be http, https, ws, or wss)''"
| "show_url_error (NoHostInUrl input) = ''No host specified in server URL '' @ quoted input"
| "show_url_error _ = ''Server URL cannot be empty''"

definition wpapi_config_set_server_url ::
    "(string \<Rightarrow> (url, string) result) \<Rightarrow> nat \<Rightarrow> c_string \<Rightarrow> ffi \<Rightarrow> int ffi_result" where
  "wpapi_config_set_server_url url_parse p url_ptr st =
     (if p = 0 \<or> url_ptr = None then fail (- 1) ''Null pointer argument'' st
      else case to_str (the url_ptr) of
             Inl e \<Rightarrow> fail (- 1) e st
           | Inr url_str \<Rightarrow>
               (case ffi_configs st p of
                  None \<Rightarrow> None
                | Some c \<Rightarrow>
                    let (r, cfg) = parse_and_apply_server_url url_parse url_str (wc_config c);
                        st = put_config p (c\<lparr>wc_config := cfg\<rparr>) st
                    in (case r of Inl e \<Rightarrow> fail (- 1) (show_url_error e) st | Inr _ \<Rightarrow> Some (0, [], st))))"

definition wpapi_config_set_stun_server :: "nat \<Rightarrow> c_string \<Rightarrow> ffi \<Rightarrow> int ffi_result" where
  "wpapi_config_set_stun_server p stun st =
     (if p = 0 \<or> stun = None then fail (- 1) ''Null pointer argument'' st
      else case to_str (the stun) of
             Inl e \<Rightarrow> fail (- 1) e st
           | Inr stun_str \<Rightarrow> update_config p (\<lambda>c. c\<lparr>cl_network := \<lparr>stun_server = stun_str\<rparr>\<rparr>) st)"

definition wpapi_config_set_auto_accept :: "nat \<Rightarrow> bool \<Rightarrow> ffi \<Rightarrow> int ffi_result" where
  "wpapi_config_set_auto_accept p auto_accept st =
     (if p = 0 then fail (- 1) ''Null pointer argument'' st
      else update_config p (\<lambda>c. c\<lparr>cl_client := \<lparr>cfg_auto_accept = auto_accept\<rparr>\<rparr>) st)"

definition wpapi_config_set_allow_echoback :: "nat \<Rightarrow> bool \<Rightarrow> ffi \<Rightarrow> int ffi_result" where
  "wpapi_config_set_allow_echoback p allow st =
     (if p = 0 then fail (- 1) ''Null pointer argument'' st
      else update_config p (\<lambda>c. c\<lparr>cl_audio := (cl_audio c)\<lparr>aud_allow_echoback := allow\<rparr>\<rparr>) st)"

text \<open>A device name that is not UTF-8 is left out without an error.\<close>

definition device_name :: "c_string \<Rightarrow> string option \<Rightarrow> string option" where
  "device_name ptr old =
     (case ptr of
        None \<Rightarrow> old
      | Some s \<Rightarrow> (case to_str s of Inr d \<Rightarrow> Some d | Inl _ \<Rightarrow> old))"

definition wpapi_config_set_audio_devices :: "nat \<Rightarrow> c_string \<Rightarrow> c_string \<Rightarrow> ffi \<Rightarrow> int ffi_result" where
  "wpapi_config_set_audio_devices p inp out st =
     (if p = 0 then fail (- 1) ''Null pointer argument'' st
      else update_config p (\<lambda>c. c\<lparr>cl_audio := (cl_audio c)\<lparr>input_device := device_name inp (input_device (cl_audio c)),
             output_device := device_name out (output_device (cl_audio c))\<rparr>\<rparr>) st)"

definition wpapi_config_set_event_callback :: "nat \<Rightarrow> nat option \<Rightarrow> nat \<Rightarrow> ffi \<Rightarrow> int ffi_result" where
  "wpapi_config_set_event_callback p callback user_data st =
     (if p = 0 then fail (- 1) ''Null pointer argument'' st
      else case ffi_configs st p of
             None \<Rightarrow> None
           | Some c \<Rightarrow>
               Some (0, [], put_config p (c\<lparr>wc_callback :=
                 map_option (\<lambda>cb. \<lparr>cb_callback = cb, cb_user_data = user_data\<rparr>) callback\<rparr>) st))"

section \<open>Call handles\<close>

definition put_call :: "nat \<Rightarrow> WPAPICallHandle \<Rightarrow> ffi \<Rightarrow> ffi" where
  "put_call h c st = st\<lparr>ffi_calls := (ffi_calls st)(h \<mapsto> c)\<rparr>"

text \<open>A target that is not UTF-8 or only white space starts standby mode; another is taken as it is, with its white space.\<close>

definition call_target :: "c_string \<Rightarrow> UserAddress option" where
  "call_target target_address =
     (case target_address of
        None \<Rightarrow> None
      | Some s \<Rightarrow> (case to_str s of Inr s \<Rightarrow> if str_trim s \<noteq> [] then Some (UserAddress_new s) else None | Inl _ \<Rightarrow> None))"

text \<open>\<open>h\<close>: the address of the new handle; \<open>tx\<close>: the new channels; \<open>seed\<close>: the key of the new session.\<close>

definition wpapi_call_start :: "nat \<Rightarrow> tx_handle \<Rightarrow> bytes \<Rightarrow> nat \<Rightarrow> c_string \<Rightarrow> ffi \<Rightarrow> nat ffi_result" where
  "wpapi_call_start h tx seed config target_address st =
     (if config = 0 then fail 0 ''Null pointer config argument'' st
      else case ffi_configs st config of
             None \<Rightarrow> None
           | Some c \<Rightarrow>
               Some (h, [], put_call h
                 \<lparr>wh_stop_tx = Some tx, wh_thread = Some (CallWorker (wc_config c) (wc_callback c) (call_target target_address)),
                  wh_session = set_incoming_call_handler tx (with_keypair (keypair_generate seed)), wh_incoming = []\<rparr> st))"

definition wpapi_room_call_start :: "nat \<Rightarrow> tx_handle \<Rightarrow> bytes \<Rightarrow> nat \<Rightarrow> c_string \<Rightarrow> ffi \<Rightarrow> nat ffi_result" where
  "wpapi_room_call_start h tx seed config room_address st =
     (if config = 0 \<or> room_address = None then fail 0 ''Null pointer argument'' st
      else case ffi_configs st config of
             None \<Rightarrow> None
           | Some c \<Rightarrow>
               (case to_str (the room_address) of
                  Inl e \<Rightarrow> fail 0 e st
                | Inr r_str \<Rightarrow>
                    Some (h, [], put_call h
                      \<lparr>wh_stop_tx = Some tx, wh_thread = Some (RoomWorker (wc_config c) (wc_callback c) (UserAddress_new r_str)),
                       wh_session = with_keypair (keypair_generate seed), wh_incoming = []\<rparr> st)))"

definition stop_effects :: "WPAPICallHandle \<Rightarrow> ffi_effect list" where
  "stop_effects c = (case wh_stop_tx c of Some tx \<Rightarrow> [SendStop tx] | None \<Rightarrow> [])"

text \<open>An operation on a call handle: what a null handle returns, then the body.\<close>

definition with_call :: "nat \<Rightarrow> 'r \<Rightarrow> (WPAPICallHandle \<Rightarrow> 'r ffi_result) \<Rightarrow> ffi \<Rightarrow> 'r ffi_result" where
  "with_call h code body st =
     (if h = 0 then fail code ''Null handle argument'' st
      else case ffi_calls st h of None \<Rightarrow> None | Some c \<Rightarrow> body c)"

definition wpapi_call_request_stop :: "nat \<Rightarrow> ffi \<Rightarrow> int ffi_result" where
  "wpapi_call_request_stop h st =
     with_call h (- 1) (\<lambda>c. Some (0, stop_effects c, put_call h (c\<lparr>wh_stop_tx := None\<rparr>) st)) st"

definition wpapi_call_free :: "nat \<Rightarrow> ffi \<Rightarrow> int ffi_result" where
  "wpapi_call_free h st =
     (if h = 0 then Some (0, [], st)
      else case ffi_calls st h of
             None \<Rightarrow> None
           | Some c \<Rightarrow>
               Some (0, stop_effects c @ (if wh_thread c \<noteq> None then [JoinThread] else []), st\<lparr>ffi_calls := (ffi_calls st)(h := None)\<rparr>))"

definition wpapi_call_stop :: "nat \<Rightarrow> ffi \<Rightarrow> int ffi_result" where
  "wpapi_call_stop h st = (if h = 0 then fail (- 1) ''Null handle argument'' st else wpapi_call_free h st)"

definition respond_effects :: "client_effect list \<Rightarrow> ffi_effect list" where
  "respond_effects effs = List.map_filter (\<lambda>e. case e of Respond r yes \<Rightarrow> Some (Answer r yes) | _ \<Rightarrow> None) effs"

definition answer_call :: "bool \<Rightarrow> string \<Rightarrow> nat \<Rightarrow> ffi \<Rightarrow> int ffi_result" where
  "answer_call accept err h st =
     with_call h (- 1) (\<lambda>c.
       let (found, effs, s) = respond_pending_call accept (wh_session c) in
       if found then Some (0, respond_effects effs, put_call h (c\<lparr>wh_session := s\<rparr>) st)
       else fail (- 1) err st) st"

definition wpapi_call_accept :: "nat \<Rightarrow> ffi \<Rightarrow> int ffi_result" where
  "wpapi_call_accept = answer_call True ''No pending incoming call request to accept''"

definition wpapi_call_reject :: "nat \<Rightarrow> ffi \<Rightarrow> int ffi_result" where
  "wpapi_call_reject = answer_call False ''No pending incoming call request to reject''"

definition wpapi_call_set_muted :: "nat \<Rightarrow> bool \<Rightarrow> ffi \<Rightarrow> int ffi_result" where
  "wpapi_call_set_muted h muted st =
     with_call h (- 1) (\<lambda>c. Some (0, [], put_call h (c\<lparr>wh_session := set_muted muted (wh_session c)\<rparr>) st)) st"

definition wpapi_call_is_muted :: "nat \<Rightarrow> ffi \<Rightarrow> bool ffi_result" where
  "wpapi_call_is_muted h st = with_call h False (\<lambda>c. Some (cs_is_muted (wh_session c), [], st)) st"

definition wpapi_call_get_input_level :: "nat \<Rightarrow> ffi \<Rightarrow> u32 ffi_result" where
  "wpapi_call_get_input_level h st = with_call h 0 (\<lambda>c. Some (cs_input_level (wh_session c), [], st)) st"

definition wpapi_call_get_output_level :: "nat \<Rightarrow> ffi \<Rightarrow> u32 ffi_result" where
  "wpapi_call_get_output_level h st = with_call h 0 (\<lambda>c. Some (cs_output_level (wh_session c), [], st)) st"

section \<open>The worker\<close>

definition worker_callback :: "worker \<Rightarrow> EventCallbackState option" where
  "worker_callback w = (case w of CallWorker _ cb _ \<Rightarrow> cb | RoomWorker _ cb _ \<Rightarrow> cb)"

text \<open>\<open>send\<close> into the channel of incoming calls, which takes 16 entries; \<open>None\<close>: the sender waits.\<close>

definition INCOMING_CAPACITY :: nat where "INCOMING_CAPACITY = 16"

definition enqueue_incoming :: "UserAddress \<Rightarrow> responder \<Rightarrow> WPAPICallHandle \<Rightarrow> WPAPICallHandle option" where
  "enqueue_incoming caller resp c =
     (if length (wh_incoming c) < INCOMING_CAPACITY then Some (c\<lparr>wh_incoming := wh_incoming c @ [(caller, resp)]\<rparr>) else None)"

text \<open>One turn of the two callback tasks, which exist only where a callback is registered.\<close>

definition incoming_task :: "EventCallbackState \<Rightarrow> WPAPICallHandle \<Rightarrow> ffi_effect list \<times> WPAPICallHandle" where
  "incoming_task cb c =
     (case wh_incoming c of
        [] \<Rightarrow> ([], c)
      | (caller_addr, resp) # rest \<Rightarrow>
          ([Callback cb EventIncomingCall (cstring_or_default (addr_id caller_addr)) ''Incoming call request''],
           c\<lparr>wh_session := set_pending_call_response resp (wh_session c), wh_incoming := rest\<rparr>))"

fun notification_callback :: "EventCallbackState \<Rightarrow> CallNotification \<Rightarrow> ffi_effect" where
  "notification_callback cb (Accepted addr) = Callback cb EventAccepted (cstring_or_default (addr_id addr)) []"
| "notification_callback cb (Rejected addr) = Callback cb EventRejected (cstring_or_default (addr_id addr)) []"
| "notification_callback cb (CallError addr err_msg) = Callback cb EventError (cstring_or_default (addr_id addr)) (cstring_or_default err_msg)"
| "notification_callback cb (Hangup addr) = Callback cb EventHangup (cstring_or_default (addr_id addr)) []"

text \<open>A packet that arrives for the call of a handle: the session is changed, and the prompts go to the channel of incoming calls.\<close>

fun queue_prompts :: "client_effect list \<Rightarrow> WPAPICallHandle \<Rightarrow> WPAPICallHandle option" where
  "queue_prompts [] c = Some c"
| "queue_prompts (CallPrompt _ caller resp # effs) c = do { c \<leftarrow> enqueue_incoming caller resp c; queue_prompts effs c }"
| "queue_prompts (_ # effs) c = queue_prompts effs c"

section \<open>The contract of the interface\<close>

text \<open>The operations that change state, with their arguments, and what they return.\<close>

datatype ffi_op =
    ConfigNew nat
  | ConfigFree nat
  | SetServer nat c_string u16
  | SetServerUrl nat c_string
  | SetStunServer nat c_string
  | SetAutoAccept nat bool
  | SetAllowEchoback nat bool
  | SetAudioDevices nat c_string c_string
  | SetEventCallback nat "nat option" nat
  | CallStart nat tx_handle bytes nat c_string
  | RoomCallStart nat tx_handle bytes nat c_string
  | RequestStop nat
  | CallFree nat
  | CallStop nat
  | CallAccept nat
  | CallReject nat
  | SetMuted nat bool

datatype ffi_ret = Code int | Pointer nat | Void

definition returning :: "('r \<Rightarrow> ffi_ret) \<Rightarrow> 'r ffi_result \<Rightarrow> ffi_ret ffi_result" where
  "returning f r = map_option (\<lambda>(x, effs, st). (f x, effs, st)) r"

fun ffi_exec :: "(string \<Rightarrow> (url, string) result) \<Rightarrow> ffi_op \<Rightarrow> ffi \<Rightarrow> ffi_ret ffi_result" where
  "ffi_exec up (ConfigNew p) st = returning Pointer (wpapi_config_new p st)"
| "ffi_exec up (ConfigFree p) st = returning (\<lambda>_. Void) (wpapi_config_free p st)"
| "ffi_exec up (SetServer p ip port) st = returning Code (wpapi_config_set_server p ip port st)"
| "ffi_exec up (SetServerUrl p u) st = returning Code (wpapi_config_set_server_url up p u st)"
| "ffi_exec up (SetStunServer p stun) st = returning Code (wpapi_config_set_stun_server p stun st)"
| "ffi_exec up (SetAutoAccept p b) st = returning Code (wpapi_config_set_auto_accept p b st)"
| "ffi_exec up (SetAllowEchoback p b) st = returning Code (wpapi_config_set_allow_echoback p b st)"
| "ffi_exec up (SetAudioDevices p i out) st = returning Code (wpapi_config_set_audio_devices p i out st)"
| "ffi_exec up (SetEventCallback p cb ud) st = returning Code (wpapi_config_set_event_callback p cb ud st)"
| "ffi_exec up (CallStart h tx seed p target) st = returning Pointer (wpapi_call_start h tx seed p target st)"
| "ffi_exec up (RoomCallStart h tx seed p room) st = returning Pointer (wpapi_room_call_start h tx seed p room st)"
| "ffi_exec up (RequestStop h) st = returning Code (wpapi_call_request_stop h st)"
| "ffi_exec up (CallFree h) st = returning Code (wpapi_call_free h st)"
| "ffi_exec up (CallStop h) st = returning Code (wpapi_call_stop h st)"
| "ffi_exec up (CallAccept h) st = returning Code (wpapi_call_accept h st)"
| "ffi_exec up (CallReject h) st = returning Code (wpapi_call_reject h st)"
| "ffi_exec up (SetMuted h b) st = returning Code (wpapi_call_set_muted h b st)"

text \<open>The handles an operation is about.\<close>

fun op_config :: "ffi_op \<Rightarrow> nat" where
  "op_config (ConfigNew p) = p" | "op_config (ConfigFree p) = p" | "op_config (SetServer p _ _) = p" | "op_config (SetServerUrl p _) = p"
| "op_config (SetStunServer p _) = p" | "op_config (SetAutoAccept p _) = p" | "op_config (SetAllowEchoback p _) = p"
| "op_config (SetAudioDevices p _ _) = p" | "op_config (SetEventCallback p _ _) = p" | "op_config (CallStart _ _ _ p _) = p"
| "op_config (RoomCallStart _ _ _ p _) = p" | "op_config _ = 0"

fun op_call :: "ffi_op \<Rightarrow> nat" where
  "op_call (CallStart h _ _ _ _) = h" | "op_call (RoomCallStart h _ _ _ _) = h" | "op_call (RequestStop h) = h" | "op_call (CallFree h) = h"
| "op_call (CallStop h) = h" | "op_call (CallAccept h) = h" | "op_call (CallReject h) = h" | "op_call (SetMuted h _) = h" | "op_call _ = 0"

definition is_allocation :: "ffi_op \<Rightarrow> bool" where
  "is_allocation op \<longleftrightarrow> (case op of CallStart _ _ _ _ _ \<Rightarrow> True | RoomCallStart _ _ _ _ _ \<Rightarrow> True | _ \<Rightarrow> False)"

definition is_config_new :: "ffi_op \<Rightarrow> bool" where
  "is_config_new op \<longleftrightarrow> (case op of ConfigNew _ \<Rightarrow> True | _ \<Rightarrow> False)"

text \<open>The safety sections of the interface: a handle that is passed is null or alive. The allocator returns a new address.\<close>

definition honours :: "ffi_op \<Rightarrow> ffi \<Rightarrow> bool" where
  "honours op st \<longleftrightarrow>
     (if is_config_new op then op_config op \<noteq> 0 \<and> ffi_configs st (op_config op) = None
      else op_config op = 0 \<or> ffi_configs st (op_config op) \<noteq> None) \<and>
     (if is_allocation op then op_call op \<noteq> 0 \<and> ffi_calls st (op_call op) = None
      else op_call op = 0 \<or> ffi_calls st (op_call op) \<noteq> None)"

definition failure :: "ffi_ret \<Rightarrow> bool" where
  "failure r \<longleftrightarrow> r = Code (- 1) \<or> r = Pointer 0"

text \<open>What an operation promises: it reports a failure by its return value and leaves a message; otherwise the last message stays. Other
  handles are not touched.\<close>

definition kept_promise :: "ffi_op \<Rightarrow> ffi \<Rightarrow> ffi_ret \<Rightarrow> ffi_effect list \<Rightarrow> ffi \<Rightarrow> bool" where
  "kept_promise op st ret effs st' \<longleftrightarrow>
     (if failure ret
      then (\<exists>m. ffi_last_error st' = Some m \<and> NUL \<notin> set m) \<and> effs = [] \<and> ffi_calls st' = ffi_calls st \<and>
        dom (ffi_configs st') = dom (ffi_configs st)
      else ffi_last_error st' = ffi_last_error st) \<and>
     (\<forall>p. p \<noteq> op_config op \<longrightarrow> ffi_configs st' p = ffi_configs st p) \<and> (\<forall>h. h \<noteq> op_call op \<longrightarrow> ffi_calls st' h = ffi_calls st h)"

lemma set_last_error_simps [simp]:
  "ffi_configs (set_last_error m st) = ffi_configs st" "ffi_calls (set_last_error m st) = ffi_calls st"
  "\<exists>m'. ffi_last_error (set_last_error m st) = Some m' \<and> NUL \<notin> set m'"
  by (simp_all add: set_last_error_def)

lemma put_simps [simp]:
  "ffi_configs (put_config p c st) = (ffi_configs st)(p \<mapsto> c)" "ffi_calls (put_config p c st) = ffi_calls st"
  "ffi_last_error (put_config p c st) = ffi_last_error st"
  "ffi_configs (put_call h w st) = ffi_configs st" "ffi_calls (put_call h w st) = (ffi_calls st)(h \<mapsto> w)"
  "ffi_last_error (put_call h w st) = ffi_last_error st"
  by (simp_all add: put_config_def put_call_def)

text \<open>The same for a result that may be undefined.\<close>

definition keeps :: "ffi_op \<Rightarrow> ffi \<Rightarrow> ffi_ret ffi_result \<Rightarrow> bool" where
  "keeps op st r \<longleftrightarrow> (case r of None \<Rightarrow> False | Some (ret, effs, st') \<Rightarrow> kept_promise op st ret effs st')"

lemma keeps_fail [simp]: "failure (f code) \<Longrightarrow> keeps op st (returning f (fail code m st))"
  by (simp add: keeps_def returning_def fail_def kept_promise_def)

lemma keeps_Some [simp]: "keeps op st (returning f (Some (x, effs, st'))) \<longleftrightarrow> kept_promise op st (f x) effs st'"
  by (simp add: keeps_def returning_def)

lemma failure_simps [simp]:
  "failure (Code c) \<longleftrightarrow> c = - 1" "failure (Pointer p) \<longleftrightarrow> p = 0" "\<not> failure Void"
  by (simp_all add: failure_def)

lemma keeps_update:
  "ffi_configs st (op_config op) \<noteq> None \<Longrightarrow> keeps op st (returning Code (update_config (op_config op) g st))"
  by (auto simp: update_config_def kept_promise_def)

lemma keeps_with_call:
  assumes "op_call op = 0 \<or> ffi_calls st (op_call op) \<noteq> None"
    and "\<And>c. ffi_calls st (op_call op) = Some c \<Longrightarrow> keeps op st (returning Code (body c))"
  shows "keeps op st (returning Code (with_call (op_call op) (- 1) body st))"
  using assms by (cases "op_call op = 0") (auto simp: with_call_def)

lemma keeps_answer:
  assumes "op_call op = 0 \<or> ffi_calls st (op_call op) \<noteq> None"
  shows "keeps op st (returning Code (answer_call accept m (op_call op) st))"
  unfolding answer_call_def
  using assms by (rule keeps_with_call) (auto simp: respond_pending_call_def kept_promise_def split: option.splits)

lemma keeps_set_server_url:
  assumes "op_config op = 0 \<or> ffi_configs st (op_config op) \<noteq> None"
  shows "keeps op st (returning Code (wpapi_config_set_server_url up (op_config op) u st))"
  using assms
  by (auto simp: wpapi_config_set_server_url_def fail_def kept_promise_def insert_absorb domIff Let_def
      split: sum.splits option.splits prod.splits)

lemmas config_ops =
  wpapi_config_new_def wpapi_config_free_def wpapi_config_set_server_def wpapi_config_set_stun_server_def wpapi_config_set_auto_accept_def
  wpapi_config_set_allow_echoback_def wpapi_config_set_audio_devices_def wpapi_config_set_event_callback_def

lemmas call_ops =
  wpapi_call_start_def wpapi_room_call_start_def wpapi_call_request_stop_def wpapi_call_free_def wpapi_call_stop_def wpapi_call_set_muted_def
  with_call_def

lemma keeps_exec:
  assumes "honours op st"
  shows "keeps op st (ffi_exec up op st)"
proof -
  have c: "is_config_new op \<or> op_config op = 0 \<or> ffi_configs st (op_config op) \<noteq> None"
    and h: "is_allocation op \<or> op_call op = 0 \<or> ffi_calls st (op_call op) \<noteq> None"
    using assms by (auto simp: honours_def split: if_splits)
  note update = keeps_update [of st op]
  show ?thesis
  proof (cases op)
    case (SetServerUrl p u)
    then show ?thesis using c keeps_set_server_url [of op st up u] by (simp add: is_config_new_def)
  next
    case (CallAccept k)
    then show ?thesis using h keeps_answer [of op st] by (simp add: is_allocation_def wpapi_call_accept_def)
  next
    case (CallReject k)
    then show ?thesis using h keeps_answer [of op st] by (simp add: is_allocation_def wpapi_call_reject_def)
  next
    case (RequestStop k)
    then show ?thesis using h by (auto simp: is_allocation_def call_ops kept_promise_def)
  next
    case (SetMuted k b)
    then show ?thesis using h by (auto simp: is_allocation_def call_ops kept_promise_def)
  next
    case (CallFree k)
    then show ?thesis using h by (auto simp: is_allocation_def call_ops kept_promise_def)
  next
    case (CallStop k)
    then show ?thesis using h by (auto simp: is_allocation_def call_ops kept_promise_def)
  next
    case (CallStart k tx seed p target)
    then show ?thesis using c assms by (auto simp: honours_def is_allocation_def is_config_new_def call_ops kept_promise_def)
  next
    case (RoomCallStart k tx seed p room)
    then show ?thesis
      using c assms by (auto simp: honours_def is_allocation_def is_config_new_def call_ops kept_promise_def split: sum.splits)
  next
    case (SetEventCallback p cb ud)
    then show ?thesis using c by (auto simp: is_config_new_def config_ops kept_promise_def)
  next
    case (ConfigNew p)
    then show ?thesis using assms by (auto simp: honours_def is_config_new_def config_ops kept_promise_def)
  next
    case (ConfigFree p)
    then show ?thesis using c by (auto simp: is_config_new_def config_ops kept_promise_def)
  qed (use c update in \<open>auto simp: is_config_new_def config_ops split: sum.splits option.splits\<close>)
qed

section \<open>Properties\<close>

text \<open>C18: a C program that passes only null or living handles never triggers undefined behaviour. Every operation
  returns; a failure is reported by the return value, leaves a message without a terminator inside, and has no other effect on calls and on
  which configurations exist; a success leaves the last message alone; and no operation touches another handle than its own.\<close>

theorem ffi_contract:
  assumes "honours op st"
  shows "\<exists>ret effs st'. ffi_exec up op st = Some (ret, effs, st') \<and>
     (if ret = Code (- 1) \<or> ret = Pointer 0
      then (\<exists>m. ffi_last_error st' = Some m \<and> NUL \<notin> set m) \<and> effs = [] \<and> ffi_calls st' = ffi_calls st \<and>
        dom (ffi_configs st') = dom (ffi_configs st)
      else ffi_last_error st' = ffi_last_error st) \<and>
     (\<forall>p. p \<noteq> op_config op \<longrightarrow> ffi_configs st' p = ffi_configs st p) \<and> (\<forall>h. h \<noteq> op_call op \<longrightarrow> ffi_calls st' h = ffi_calls st h)"
proof -
  obtain ret effs st' where "ffi_exec up op st = Some (ret, effs, st')" "kept_promise op st ret effs st'"
    using keeps_exec [OF assms, of up] by (auto simp: keeps_def split: option.splits)
  then show ?thesis
    unfolding kept_promise_def failure_def by (intro exI [of _ ret] exI [of _ effs] exI [of _ st']) (rule conjI)
qed

text \<open>An empty heap, and one with a configuration.\<close>

definition ffi_empty :: ffi where
  "ffi_empty = \<lparr>ffi_configs = Map.empty, ffi_calls = Map.empty, ffi_last_error = None\<rparr>"

definition ffi_example :: ffi where
  "ffi_example = put_config 4096 \<lparr>wc_config = ClConfiguration_default, wc_callback = Some \<lparr>cb_callback = 7, cb_user_data = 0\<rparr>\<rparr> ffi_empty"

theorem ffi_contract_witness:
  "\<exists>ret effs st'. ffi_exec no_url (SetServer 4096 (Some ''localhost'') 80) ffi_example = Some (ret, effs, st') \<and> ffi_configs st' 8192 = None"
proof -
  have "honours (SetServer 4096 (Some ''localhost'') 80) ffi_example"
    by (simp add: honours_def is_config_new_def is_allocation_def ffi_example_def)
  from ffi_contract [OF this, of no_url] obtain ret effs st' where
    "ffi_exec no_url (SetServer 4096 (Some ''localhost'') 80) ffi_example = Some (ret, effs, st')" "ffi_configs st' 8192 = ffi_configs ffi_example 8192"
    by (auto simp del: ffi_exec.simps)
  then show ?thesis by (simp add: ffi_example_def ffi_empty_def del: ffi_exec.simps)
qed

text \<open>the copy of the last error never leaves the buffer: a buffer of any positive size then holds a
  terminated string, the message cut to what fits, and beyond the message's terminator the buffer is as before.\<close>

theorem last_error_copied:
  assumes "ffi_last_error st = Some msg" and "NUL \<notin> set msg" and "length b = buf_len" and "0 < buf_len"
  shows "\<exists>b'. wpapi_get_last_error_copy (Some b) buf_len st = (0, Some b') \<and> length b' = buf_len \<and> NUL \<in> set b' \<and>
     takeWhile (\<lambda>c. c \<noteq> NUL) b' = take (buf_len - 1) msg \<and> drop (Suc (length msg)) b' = drop (Suc (length msg)) b"
proof -
  define n where "n = min (length msg) (buf_len - 1)"
  define b' where "b' = take n msg @ NUL # drop (Suc n) b"
  have n: "Suc n \<le> buf_len" "n \<le> length msg" "min (Suc (length msg)) buf_len = Suc n" using assms(4) by (auto simp: n_def)
  have "take (Suc n) (msg @ [NUL]) = take n msg @ [(msg @ [NUL]) ! n]"
    using n(2) take_Suc_conv_app_nth [of n "msg @ [NUL]"] by (cases "n = length msg") auto
  then have "(take (Suc n) (msg @ [NUL]) @ drop (Suc n) b)[n := NUL] = b'"
    using n(2) by (simp add: b'_def list_update_append del: take_append)
  then have "wpapi_get_last_error_copy (Some b) buf_len st = (0, Some b')"
    using assms(1,4) n(3) by (simp add: wpapi_get_last_error_copy_def Let_def del: take_append)
  moreover have "length b' = buf_len" using n(1,2) assms(3) by (simp add: b'_def)
  moreover have "takeWhile (\<lambda>c. c \<noteq> NUL) b' = take (buf_len - 1) msg"
  proof -
    have "\<forall>c \<in> set (take n msg). c \<noteq> NUL" using assms(2) by (auto dest: in_set_takeD)
    then have "takeWhile (\<lambda>c. c \<noteq> NUL) b' = take n msg" by (simp add: b'_def takeWhile_append2)
    then show ?thesis by (simp add: n_def min_def)
  qed
  moreover have "drop (Suc (length msg)) b' = drop (Suc (length msg)) b"
    using n(2) by (simp add: b'_def drop_Cons' Suc_diff_le)
  ultimately show ?thesis by (auto simp: b'_def)
qed

theorem last_error_copied_witness:
  "\<exists>b'. wpapi_get_last_error_copy (Some ''....'') 4 (set_last_error ''Null handle argument'' ffi_empty) = (0, Some b') \<and>
     takeWhile (\<lambda>c. c \<noteq> NUL) b' = ''Nul''"
  using last_error_copied [of "set_last_error ''Null handle argument'' ffi_empty" "''Null handle argument''" "''....''" 4]
  by (auto simp: set_last_error_def)

text \<open>C19: a call that is rejected through the interface is still spoken to. The incoming call is handed to the
  callback and the answer goes to its caller, exactly once; but the session keeps the caller as its target after a rejection, so the
  microphone's audio is sent to the caller that was turned away.\<close>

theorem rejected_caller_is_sent_audio:
  assumes "cs_incoming_call_tx (wh_session c) = Some tx" and "cs_active_room (wh_session c) = None" and "wh_incoming c = []"
    and "is_party (cs_user_address (wh_session c)) caller = Some False" and "is_party (cs_active_target (wh_session c)) caller = Some False"
    and "ffi_calls st h = Some c" and "h \<noteq> 0"
  shows "\<exists>effs s c1 c2 c3 st2 st3.
     dispatch_client_packet E (CallRequest i caller) False dc resp (wh_session c) = Some (effs, s) \<and>
     queue_prompts effs (c\<lparr>wh_session := s\<rparr>) = Some c1 \<and>
     incoming_task cb c1 = ([Callback cb EventIncomingCall (cstring_or_default (addr_id caller)) ''Incoming call request''], c2) \<and>
     wpapi_call_reject h (put_call h c2 st) = Some (0, [Answer resp False], st2) \<and> ffi_calls st2 h = Some c3 \<and>
     sender_packet (wh_session c3) chunk = Some (ClientTargetedAudio caller CODEC_OPUS chunk) \<and>
     wpapi_call_accept h st2 = Some (- 1, [], st3) \<and> ffi_calls st3 = ffi_calls st2"
proof -
  define s where "s = set_target_address (Some caller) (wh_session c)"
  define c1 where "c1 = c\<lparr>wh_session := s, wh_incoming := [(caller, resp)]\<rparr>"
  define c2 where "c2 = c\<lparr>wh_session := set_pending_call_response resp s, wh_incoming := []\<rparr>"
  define c3 where "c3 = c2\<lparr>wh_session := s\<lparr>cs_pending_call_response := None\<rparr>\<rparr>"
  define effs where "effs = [SpawnReply resp dc caller, CallPrompt tx caller resp]"
  have d: "dispatch_client_packet E (CallRequest i caller) False dc resp (wh_session c) = Some (effs, s)"
    unfolding effs_def s_def using assms(1,4,5) by (simp add: handle_call_request_def)
  have q: "queue_prompts effs (c\<lparr>wh_session := s\<rparr>) = Some c1"
    using assms(3) by (simp add: effs_def enqueue_incoming_def INCOMING_CAPACITY_def c1_def)
  have t: "incoming_task cb c1 = ([Callback cb EventIncomingCall (cstring_or_default (addr_id caller)) ''Incoming call request''], c2)"
    by (simp add: incoming_task_def c1_def c2_def)
  have r: "wpapi_call_reject h (put_call h c2 st) = Some (0, [Answer resp False], put_call h c3 (put_call h c2 st))"
    using assms(7)
    by (simp add: wpapi_call_reject_def answer_call_def with_call_def respond_pending_call_def c2_def c3_def session_defs respond_effects_def
        List.map_filter_simps)
  have p: "sender_packet (wh_session c3) chunk = Some (ClientTargetedAudio caller CODEC_OPUS chunk)"
    using assms(2) by (simp add: sender_packet_def c3_def s_def set_target_address_def)
  define st2 where "st2 = put_call h c3 (put_call h c2 st)"
  have f: "ffi_calls st2 h = Some c3" by (simp add: st2_def)
  have acc: "\<exists>st3. wpapi_call_accept h st2 = Some (- 1, [], st3) \<and> ffi_calls st3 = ffi_calls st2"
    using assms(7) f
    by (simp add: wpapi_call_accept_def answer_call_def with_call_def respond_pending_call_def fail_def) (simp add: c3_def fail_def)
  show ?thesis using d q t r [folded st2_def] p f acc by blast
qed

definition handle_example :: WPAPICallHandle where
  "handle_example = \<lparr>wh_stop_tx = Some 3, wh_thread = None,
     wh_session = set_incoming_call_handler 3 (with_keypair (keypair_generate (replicate 32 5))), wh_incoming = []\<rparr>"

theorem rejected_caller_is_sent_audio_witness:
  "\<exists>c2 c3 st2. wpapi_call_reject 8192 (put_call 8192 c2 (put_call 8192 handle_example ffi_empty)) = Some (0, [Answer 1 False], st2) \<and>
     ffi_calls st2 8192 = Some c3 \<and> sender_packet (wh_session c3) [1, 2] = Some (ClientTargetedAudio addr_a CODEC_OPUS [1, 2])"
  using rejected_caller_is_sent_audio [of handle_example 3 addr_a "put_call 8192 handle_example ffi_empty" 8192 std_crates 7 9 1
      "\<lparr>cb_callback = 7, cb_user_data = 0\<rparr>" "[1, 2]"]
  by (simp add: handle_example_def with_keypair_def session_defs is_party_def del: dispatch_client_packet.simps) blast

text \<open>Without a callback nobody takes incoming calls out of their channel: each waits there without an answer, and the seventeenth
  blocks the task of the data channel.\<close>

lemma calls_stall_without_callback:
  assumes "INCOMING_CAPACITY < length (wh_incoming c) + length calls" and "length (wh_incoming c) \<le> INCOMING_CAPACITY"
  shows "queue_prompts (map (\<lambda>(caller, resp). CallPrompt tx caller resp) calls) c = None"
  using assms by (induction calls arbitrary: c) (auto simp: enqueue_incoming_def)

text \<open>\<^verbatim>\<open>wpapi_config_set_server\<close> stores the address but leaves the host of an earlier URL, which is the one that requests go to.\<close>

lemma set_server_keeps_host:
  assumes "wpapi_config_set_server p (Some ip) port st = Some (0, [], st')" and "ffi_configs st p = Some c"
    and "srv_host (cl_server (wc_config c)) = Some host"
  shows "\<exists>c'. ffi_configs st' p = Some c' \<and> host_str (wc_config c') = host"
  using assms
  by (auto simp: wpapi_config_set_server_def fail_def update_config_def map_server_def host_str_def split: if_splits sum.splits option.splits)

text \<open>A freed handle is dead: freeing or using it again is undefined.\<close>

lemma no_use_after_free:
  assumes "wpapi_call_free h st = Some (r, effs, st')" and "h \<noteq> 0"
  shows "wpapi_call_free h st' = None" "wpapi_call_set_muted h b st' = None" "wpapi_call_accept h st' = None"
  using assms
  by (auto simp: wpapi_call_free_def wpapi_call_set_muted_def wpapi_call_accept_def answer_call_def with_call_def split: option.splits)

end
