(* ===== verification/WP_Entry.thy ===== *)
theory WP_Entry
  imports WP_Mesh WP_System WP_Tui
begin

text \<open>
  The daemon's entry point (\<^verbatim>\<open>crates/wpdaemon/src/main.rs\<close>): the command line's changes to the configuration, and the routes with
  the rate-limit layer around the handlers. The address list as the client asks for it (\<^verbatim>\<open>crates/wpapi/src/client.rs\<close>, the task of
  \<^verbatim>\<open>tui/app.rs\<close>, \<^verbatim>\<open>commands/list.rs\<close>). What requests without a modelled route get (404, 405) is decided by axum and not modelled.
\<close>

section \<open>Configuration\<close>

record DaemonArgs =
  da_port :: "u16 option"
  da_node_id :: "u64 option"
  da_max_connections :: "nat option"
  da_peer :: "string list"

definition daemon_configuration :: "u64 \<Rightarrow> DaemonArgs \<Rightarrow> Configuration \<Rightarrow> Configuration" where
  "daemon_configuration generated args cfg =
     (let cfg = (case da_port args of
                   Some port \<Rightarrow> cfg\<lparr>server := (server cfg)\<lparr>bind_address := (fst (bind_address (server cfg)), port)\<rparr>\<rparr>
                 | None \<Rightarrow> cfg);
          cfg = (case da_node_id args of
                   Some n \<Rightarrow> cfg\<lparr>mesh := (mesh cfg)\<lparr>node_id := n\<rparr>\<rparr>
                 | None \<Rightarrow> if node_id (mesh cfg) = 0 then cfg\<lparr>mesh := (mesh cfg)\<lparr>node_id := generated\<rparr>\<rparr> else cfg);
          cfg = (case da_max_connections args of
                   Some n \<Rightarrow> cfg\<lparr>server := (server cfg)\<lparr>max_connections := n\<rparr>\<rparr>
                 | None \<Rightarrow> cfg)
      in if da_peer args \<noteq> [] then cfg\<lparr>mesh := (mesh cfg)\<lparr>peers := peers (mesh cfg) @ da_peer args\<rparr>\<rparr> else cfg)"

section \<open>Routes\<close>

datatype http_method = GET | POST | OtherMethod

text \<open>A request; \<open>rq_offer\<close> is what the JSON extractor makes of the body, on the left the status of its rejection.\<close>

record http_request =
  rq_method :: http_method
  rq_path :: string
  rq_headers :: HeaderMap
  rq_socket_ip :: "IpAddr option"
  rq_offer :: "(RTCSessionDescription, nat) result"

datatype reply_body = SdpAnswer SdpAnswerResponse | PeerAnswer RTCSessionDescription | AddressList "UserAddress list" | NoBody

type_synonym reply = "nat \<times> reply_body"

record daemon_process =
  dp_node :: mesh_node
  dp_limiter :: RateLimiter

definition respond :: "('a \<Rightarrow> reply_body) \<Rightarrow> ('a, SignalingError) result \<times> mesh_node \<Rightarrow> reply \<times> mesh_node" where
  "respond body r = (case fst r of Inr x \<Rightarrow> (200, body x) | Inl e \<Rightarrow> (status_code e, NoBody), snd r)"

definition extract_offer :: "http_request \<Rightarrow> (RTCSessionDescription \<Rightarrow> reply \<times> mesh_node) \<Rightarrow> mesh_node \<Rightarrow> reply \<times> mesh_node" where
  "extract_offer req handler n = (case rq_offer req of Inl status \<Rightarrow> ((status, NoBody), n) | Inr offer \<Rightarrow> handler offer)"

text \<open>The layer sees the headers as text, like \<^verbatim>\<open>extract_ip\<close>.\<close>

definition header_text :: "HeaderMap \<Rightarrow> string \<Rightarrow> string option" where
  "header_text headers name = (case headers name of Some v \<Rightarrow> v | None \<Rightarrow> None)"

definition with_rate_limit ::
    "readings \<Rightarrow> http_request \<Rightarrow> (mesh_node \<Rightarrow> reply \<times> mesh_node) \<Rightarrow> daemon_process \<Rightarrow> reply \<times> daemon_process" where
  "with_rate_limit rd req handler p =
     (let ((r, n), rl) = rate_limit_middleware (instant_now rd) (header_text (rq_headers req)) (rq_socket_ip req)
            ((429, NoBody), dp_node p) (\<lambda>_. handler (dp_node p)) (dp_limiter p)
      in (r, \<lparr>dp_node = n, dp_limiter = rl\<rparr>))"

text \<open>The router: the layer is around the routes that were added before it.\<close>

definition route_request ::
    "'z crypto_crates_scheme \<Rightarrow> Configuration \<Rightarrow> readings \<Rightarrow> rtc_session \<Rightarrow> http_request \<Rightarrow> daemon_process \<Rightarrow> (reply \<times> daemon_process) option" where
  "route_request E cfg rd rtc req p =
     (if rq_method req = POST \<and> rq_path req = ''/sdp''
      then Some (with_rate_limit rd req (\<lambda>n. extract_offer req
             (\<lambda>offer. respond SdpAnswer (handle_sdp_offer E cfg rd rtc (rq_headers req) offer n)) n) p)
      else if rq_method req = POST \<and> rq_path req = ''/peer/sdp''
      then Some (with_rate_limit rd req (\<lambda>n. extract_offer req
             (\<lambda>offer. respond PeerAnswer (handle_peer_sdp E cfg rd rtc (rq_headers req) offer n)) n) p)
      else if rq_method req = GET \<and> rq_path req = ''/addresses''
      then (let (r, n) = respond AddressList (list_registered_addresses E cfg rd (rq_headers req) (dp_node p))
            in Some (r, p\<lparr>dp_node := n\<rparr>))
      else None)"

section \<open>The address list of the client\<close>

text \<open>\<^verbatim>\<open>DaemonApiClient::fetch_registered_addresses\<close>: the request under a key made for it, and what comes of the response,
  which is its status, how that prints, and its body as JSON.\<close>

definition addresses_request :: "'z crypto_crates_scheme \<Rightarrow> u64 \<Rightarrow> ClConfiguration \<Rightarrow> bytes \<Rightarrow> string \<times> (string \<times> string) list" where
  "addresses_request E now config seed =
     (server_url config @ ''/addresses'', [(''authorization'', snd (build_authorization_header E now (keypair_generate seed) ''''))])"

record list_response =
  lr_status :: nat
  lr_status_text :: string
  lr_json :: "(UserAddress list, string) result"

datatype FetchError = FetchSend string | FetchStatus string | FetchJson string

definition is_success :: "nat \<Rightarrow> bool" where
  "is_success status \<longleftrightarrow> 200 \<le> status \<and> status < 300"

definition fetch_addresses :: "(list_response, string) result \<Rightarrow> (UserAddress list, FetchError) result" where
  "fetch_addresses resp =
     (case resp of
        Inl e \<Rightarrow> Err (FetchSend e)
      | Inr r \<Rightarrow>
          if \<not> is_success (lr_status r) then Err (FetchStatus (lr_status_text r))
          else (case lr_json r of Inl e \<Rightarrow> Err (FetchJson e) | Inr addrs \<Rightarrow> Ok addrs))"

text \<open>The task behind the key \<^verbatim>\<open>l\<close> of the terminal client, and what \<^verbatim>\<open>wpclient list-addresses\<close> prints; \<open>None\<close> is the panic of
  \<^verbatim>\<open>short_id\<close>.\<close>

definition fetch_event :: "(list_response, string) result \<Rightarrow> AppEvent" where
  "fetch_event resp =
     (case fetch_addresses resp of
        Inr addrs \<Rightarrow> RegisteredAddresses addrs
      | Inl (FetchJson e) \<Rightarrow> LogEvent (''Failed to parse response: '' @ e)
      | Inl (FetchStatus s) \<Rightarrow> LogEvent (''Server returned HTTP status '' @ s)
      | Inl (FetchSend e) \<Rightarrow> LogEvent (''Failed to connect to daemon: '' @ e))"

fun print_addresses :: "UserAddress list \<Rightarrow> string list option" where
  "print_addresses [] = Some []"
| "print_addresses (a # as) =
     do { s \<leftarrow> short_id a; ls \<leftarrow> print_addresses as;
          Some ((''  '' @ [CHR 0xE2, CHR 0x80, CHR 0xA2] @ '' Short ID: '' @ s @ '' | Full: '' @ addr_id a) # ls) }"

definition print_list :: "ClConfiguration \<Rightarrow> (list_response, string) result \<Rightarrow> (string list \<times> (unit, string) result) option" where
  "print_list config resp =
     (let first = ''Fetching registered addresses from daemon at '' @ server_url config @ ''/addresses...'' in
      case fetch_addresses resp of
        Inl (FetchSend e) \<Rightarrow> Some ([first], Err e)
      | Inl (FetchJson e) \<Rightarrow> Some ([first], Err e)
      | Inl (FetchStatus s) \<Rightarrow> Some ([first, ''Server returned status code: '' @ s], Ok ())
      | Inr addrs \<Rightarrow>
          map_option (\<lambda>ls. (first # (''Registered User Addresses (Total: '' @ show_nat (length addrs) @ ''):'') # ls, Ok ()))
            (print_addresses addrs))"

section \<open>Properties\<close>

lemma addresses_request_header:
  "auth_header (header_map (snd (addresses_request E now config seed))) ''x-webphone-sign''
     = Some (snd (build_authorization_header E now (keypair_generate seed) []))"
  by (simp add: addresses_request_def header_map_def auth_header_def)

lemma keypair_generate_ok: "length seed = 32 \<Longrightarrow> keypair_ok E (keypair_generate seed)"
  by (simp add: keypair_ok_def keypair_generate_def)

text \<open>The verdict on such a request, and the cache it leaves.\<close>

lemma addresses_authorized:
  assumes "crypto_laws E" and "length seed = 32" and "cache_ok cache" and "abs_diff (unix_secs rd) now \<le> MAX_TIMESTAMP_DRIFT_SECS"
    and "hm_get (signatures cache) (sign E (keypair_generate seed) (auth_payload now [])) = None"
  shows "\<exists>cache'. check_address_request_authorization E cfg rd (header_map (snd (addresses_request E now config seed))) cache = (Ok (), cache')"
proof -
  let ?hdr = "snd (build_authorization_header E now (keypair_generate seed) [])"
  have "fst (verify_any_authorization_header E (unix_secs rd) ?hdr [] cache) = Ok (public_key_address E (keypair_generate seed))"
    unfolding verify_any_authorization_header_def
    by (rule built_header_accepted [OF assms(1) keypair_generate_ok [OF assms(2)] assms(3-5)])
  then show ?thesis
    by (cases "verify_any_authorization_header E (unix_secs rd) ?hdr [] cache")
       (simp add: check_address_request_authorization_def addresses_request_header)
qed

text \<open>anybody can list the connected users, as often as they like: the request a client makes under a key invented for it is
  answered, by a daemon whose clock is within five minutes, with the addresses of all registered clients, and the client shows exactly these;
  the daemon's registry stays as it is, and the rate limiter is neither asked nor charged, whatever its state.\<close>

theorem address_list_for_anyone:
  assumes "crypto_laws E" and "length seed = 32" and "cache_ok (sg_cache (dp_node p))"
    and "abs_diff (unix_secs rd) now \<le> MAX_TIMESTAMP_DRIFT_SECS"
    and "hm_get (signatures (sg_cache (dp_node p))) (sign E (keypair_generate seed) (auth_payload now [])) = None"
    and "rq_method req = GET" and "rq_path req = ''/addresses''" and "rq_headers req = header_map (snd (addresses_request E now config seed))"
  shows "\<exists>addrs p'. route_request E cfg rd rtc req p = Some ((200, AddressList addrs), p') \<and>
     set addrs = snd ` set (addresses (client_registry (sg_daemon (dp_node p)))) \<and>
     sg_daemon (dp_node p') = sg_daemon (dp_node p) \<and> dp_limiter p' = dp_limiter p \<and>
     fetch_event (Ok \<lparr>lr_status = 200, lr_status_text = txt, lr_json = Ok addrs\<rparr>) = RegisteredAddresses addrs"
proof -
  obtain cache where "check_address_request_authorization E cfg rd (rq_headers req) (sg_cache (dp_node p)) = (Ok (), cache)"
    using addresses_authorized [OF assms(1-5), of cfg config] assms(8) by auto
  then have "route_request E cfg rd rtc req p =
      Some ((200, AddressList (conn_get_registered_addresses (sg_daemon (dp_node p)))), p\<lparr>dp_node := (dp_node p)\<lparr>sg_cache := cache\<rparr>\<rparr>)"
    using assms(6,7) by (simp add: route_request_def respond_def list_registered_addresses_def)
  moreover have "set (conn_get_registered_addresses (sg_daemon (dp_node p))) = snd ` set (addresses (client_registry (sg_daemon (dp_node p))))"
    by (simp add: conn_get_registered_addresses_def get_registered_addresses_def hm_values_def)
  ultimately show ?thesis by (simp add: fetch_event_def fetch_addresses_def is_success_def)
qed

section \<open>Flooding the anti-replay cache\<close>

text \<open>Fresh signatures, all within the drift, fill the cache in order.\<close>

lemma hm_insert_fresh: "k \<notin> fst ` set m \<Longrightarrow> hm_insert k v m = m @ [(k, v)]"
  by (induction m) auto

lemma retain_all: "hm_all P m \<Longrightarrow> hm_retain P m = m"
  by (simp add: hm_all_def hm_retain_def list_all_iff)

lemma cache_fills:
  assumes "hm_wf (signatures cache @ cs)" and "hm_all (\<lambda>_ t. abs_diff now t \<le> MAX_TIMESTAMP_DRIFT_SECS) (signatures cache @ cs)"
    and "length (signatures cache @ cs) \<le> MAX_ANTI_REPLAY_CACHE_SIZE"
  shows "signatures (cache_run (map (\<lambda>(s, t). (s, t, now)) cs) cache) = signatures cache @ cs"
  using assms
proof (induction cs arbitrary: cache)
  case (Cons c cs)
  obtain s t where c: "c = (s, t)" by (cases c)
  let ?m = "signatures cache"
  have w: "hm_wf ?m" and l: "hm_all (\<lambda>_ t. abs_diff now t \<le> MAX_TIMESTAMP_DRIFT_SECS) ?m"
    using Cons.prems(1,2) by (auto simp: hm_wf_def hm_all_def)
  have s: "s \<notin> fst ` set ?m" using Cons.prems(1) by (auto simp: hm_wf_def c)
  have "evicted ?m = ?m" using Cons.prems(3) by (simp add: evicted_def hm_len_def)
  moreover have "hm_get ?m s = None" using s by (simp add: hm_get_def map_of_eq_None_iff)
  ultimately have "check_and_insert s t now cache = (Ok (), cache\<lparr>signatures := ?m @ [(s, t)]\<rparr>)"
    using s by (simp add: check_and_insert_eq [OF w refl] retain_all [OF l] hm_insert_fresh)
  then show ?case using Cons.IH [of "cache\<lparr>signatures := ?m @ [(s, t)]\<rparr>"] Cons.prems by (simp add: c)
qed simp

text \<open>Eviction removes an entry when half of the cache is newer.\<close>

lemma evicts_older:
  assumes "hm_wf m" and "length m = MAX_ANTI_REPLAY_CACHE_SIZE" and "hm_get m s = Some t"
    and "MAX_ANTI_REPLAY_CACHE_SIZE div 2 \<le> length (filter (\<lambda>(_, t'). t < t') m)"
  shows "hm_get (evicted m) s = None"
proof (rule ccontr)
  define h where "h = MAX_ANTI_REPLAY_CACHE_SIZE div 2"
  define xs where "xs = sort_key snd m"
  have len: "length xs = h + h" "length xs = length m" using assms(2) by (simp_all add: xs_def h_def MAX_ANTI_REPLAY_CACHE_SIZE_def)
  assume "hm_get (evicted m) s \<noteq> None"
  then obtain v where v: "(s, v) \<in> set (drop h xs)"
    using assms(2) by (auto simp: evicted_def hm_len_def h_def xs_def dest: hm_get_Some_in)
  then have "(s, v) \<in> set m" using in_set_dropD [OF v] by (simp add: xs_def)
  then have "v = t" using assms(1,3) hm_in_get [of m s v] by simp
  with v obtain i where i: "h \<le> i" "i < length xs" "xs ! i = (s, t)"
    by (auto simp: in_set_conv_nth) (metis add.commute le_add2 less_diff_conv)
  have srt: "sorted (map snd xs)" by (simp add: xs_def)
  have "\<not> t < snd x" if "x \<in> set (take (Suc i) xs)" for x
  proof -
    obtain j where "j < Suc i" "j < length xs" "xs ! j = x" using \<open>x \<in> _\<close> by (auto simp: in_set_conv_nth)
    then show ?thesis using sorted_nth_mono [OF srt, of j i] i by (auto simp: not_less)
  qed
  then have "filter (\<lambda>(_, t'). t < t') (take (Suc i) xs) = []" by (auto simp: filter_empty_conv)
  then have "filter (\<lambda>(_, t'). t < t') xs = filter (\<lambda>(_, t'). t < t') (drop (Suc i) xs)"
    by (metis append.left_neutral append_take_drop_id filter_append)
  then have "length (filter (\<lambda>(_, t'). t < t') xs) \<le> length xs - Suc i" by (metis length_drop length_filter_le)
  moreover have "length (filter (\<lambda>(_, t'). t < t') xs) = length (filter (\<lambda>(_, t'). t < t') m)"
    unfolding xs_def by (metis mset_filter mset_sort size_mset)
  ultimately show False using assms(4) i(1,2) len(1) by (simp add: h_def)
qed

lemma header_sig_built:
  assumes "crypto_laws E"
  shows "header_sig (snd (build_authorization_header E ts (keypair_generate seed) sdp)) = Some (sign E (keypair_generate seed) (auth_payload ts sdp), ts)"
proof -
  define pk where "pk = addr_id (public_key_address E (keypair_generate seed))"
  define sig where "sig = sign E (keypair_generate seed) (auth_payload ts sdp)"
  have "hex_laws E" using assms by (simp add: crypto_laws_def crate_laws_def bytes_laws_def)
  then have nc: "CHR '':'' \<notin> set pk" "CHR '':'' \<notin> set sig"
    using hex_laws.colon_notin_hex
    by (simp_all add: pk_def sig_def public_key_address_def sign_def keypair_generate_def from_bytes_def)
  have "snd (build_authorization_header E ts (keypair_generate seed) sdp) = ''WP-Ed25519 '' @ pk @ '':'' @ show_nat (unat ts) @ '':'' @ sig"
    by (simp add: build_authorization_header_def Let_def is_secp256k1_def keypair_generate_def pk_def sig_def)
  moreover have "\<not> starts_with (''WP-Ed25519 '' @ r) ''WP-Secp256k1 ''" for r by (simp add: starts_with_def)
  moreover have "drop (length ''WP-Ed25519 '') (''WP-Ed25519 '' @ r) = r" for r by simp
  ultimately show ?thesis
    using split_header [OF nc] by (simp add: header_sig_def sig_def del: append.simps drop_append list.size length_Cons)
qed

lemma accepted_again:
  assumes "verify_any_authorization_header_with_cache E now hdr sdp cache = (Ok a, cache1)" and "header_sig hdr = Some (sig, ts)"
    and "fst (check_and_insert sig ts now cache2) = Ok ()"
  shows "fst (verify_any_authorization_header_with_cache E now hdr sdp cache2) = Ok a"
  using assms
  by (auto simp: verify_any_authorization_header_with_cache_def verify_authorization_header_with_cache_def
      verify_secp256k1_authorization_header_with_cache_def header_sig_def strip_prefix_def Let_def
      split: if_splits option.splits list.splits sum.splits prod.splits)

text \<open>A sequence of requests, and the request for the address list under the key of \<open>seed\<close>, signed at \<open>ts\<close>.\<close>

fun serve :: "'z crypto_crates_scheme \<Rightarrow> Configuration \<Rightarrow> readings \<Rightarrow> rtc_session \<Rightarrow> http_request list \<Rightarrow> daemon_process \<Rightarrow> daemon_process option" where
  "serve E cfg rd rtc [] p = Some p"
| "serve E cfg rd rtc (req # reqs) p = (case route_request E cfg rd rtc req p of None \<Rightarrow> None | Some (_, p) \<Rightarrow> serve E cfg rd rtc reqs p)"

definition list_request :: "'z crypto_crates_scheme \<Rightarrow> ClConfiguration \<Rightarrow> IpAddr \<Rightarrow> bytes \<times> u64 \<Rightarrow> http_request" where
  "list_request E config ip k =
     \<lparr>rq_method = GET, rq_path = ''/addresses'', rq_headers = header_map (snd (addresses_request E (snd k) config (fst k))),
      rq_socket_ip = Some ip, rq_offer = Err 415\<rparr>"

definition list_sig :: "'z crypto_crates_scheme \<Rightarrow> bytes \<times> u64 \<Rightarrow> string \<times> u64" where
  "list_sig E k = (sign E (keypair_generate (fst k)) (auth_payload (snd k) []), snd k)"

lemma list_request_effect:
  assumes "crypto_laws E" and "cache_ok (sg_cache (dp_node p))" and "length (fst k) = 32"
    and "abs_diff (unix_secs rd) (snd k) \<le> MAX_TIMESTAMP_DRIFT_SECS" and "hm_get (signatures (sg_cache (dp_node p))) (fst (list_sig E k)) = None"
  shows "\<exists>r. route_request E cfg rd rtc (list_request E config ip k) p = Some (r,
    p\<lparr>dp_node := (dp_node p)\<lparr>sg_cache := snd (check_and_insert (fst (list_sig E k)) (snd k) (unix_secs rd) (sg_cache (dp_node p)))\<rparr>\<rparr>)"
proof -
  let ?hdr = "snd (build_authorization_header E (snd k) (keypair_generate (fst k)) [])"
  have acc: "fst (verify_any_authorization_header_with_cache E (unix_secs rd) ?hdr [] (sg_cache (dp_node p)))
      = Ok (public_key_address E (keypair_generate (fst k)))"
    using built_header_accepted [OF assms(1) keypair_generate_ok [OF assms(3)] assms(2,4)] assms(5) by (simp add: list_sig_def)
  obtain cache where v: "verify_any_authorization_header_with_cache E (unix_secs rd) ?hdr [] (sg_cache (dp_node p))
      = (Ok (public_key_address E (keypair_generate (fst k))), cache)"
    using acc by (metis prod.collapse)
  have "check_and_insert (fst (list_sig E k)) (snd k) (unix_secs rd) (sg_cache (dp_node p)) = (Ok (), cache)"
    using verify_any_Ok [OF v] header_sig_built [OF assms(1)] by (auto simp: list_sig_def)
  then show ?thesis
    using v by (simp add: route_request_def list_request_def list_registered_addresses_def check_address_request_authorization_def
        addresses_request_header verify_any_authorization_header_def respond_def)
qed

lemma absent_stays:
  assumes "hm_wf (signatures cache)" and "hm_get (signatures cache) s = None" and "s \<noteq> sig"
  shows "hm_get (signatures (snd (check_and_insert sig ts now cache))) s = None"
proof -
  define live where "live = hm_retain (\<lambda>_ ts. abs_diff now ts \<le> MAX_TIMESTAMP_DRIFT_SECS) (signatures cache)"
  have l: "hm_get live s = None" using assms(2) by (simp add: live_def hm_get_retain_None)
  have "set (evicted live) \<subseteq> set live" using set_drop_subset [of _ "sort_key snd live"] by (simp add: evicted_def)
  with l have "hm_get (evicted live) s = None" by (auto simp: hm_get_def map_of_eq_None_iff)
  with l assms(3) show ?thesis by (simp add: check_and_insert_eq [OF assms(1) live_def] hm_simps)
qed

text \<open>A list of such requests changes the cache as their signatures do, and nothing else.\<close>

lemma list_requests_effect:
  assumes "crypto_laws E" and "cache_ok (sg_cache (dp_node p))" and "distinct (map (fst \<circ> list_sig E) ks)"
    and "\<And>k. k \<in> set ks \<Longrightarrow> length (fst k) = 32 \<and> abs_diff (unix_secs rd) (snd k) \<le> MAX_TIMESTAMP_DRIFT_SECS \<and>
      hm_get (signatures (sg_cache (dp_node p))) (fst (list_sig E k)) = None"
  shows "serve E cfg rd rtc (map (list_request E config ip) ks) p = Some (p\<lparr>dp_node := (dp_node p)\<lparr>sg_cache :=
    cache_run (map (\<lambda>k. (fst (list_sig E k), snd k, unix_secs rd)) ks) (sg_cache (dp_node p))\<rparr>\<rparr>)"
  using assms(2-)
proof (induction ks arbitrary: p)
  case (Cons k ks)
  let ?c = "snd (check_and_insert (fst (list_sig E k)) (snd k) (unix_secs rd) (sg_cache (dp_node p)))"
  obtain r where r: "route_request E cfg rd rtc (list_request E config ip k) p = Some (r, p\<lparr>dp_node := (dp_node p)\<lparr>sg_cache := ?c\<rparr>\<rparr>)"
    using list_request_effect [OF assms(1) Cons.prems(1), of k rd cfg rtc config ip] Cons.prems(3) [of k] by (simp only: list.set_intros) blast
  have w: "hm_wf (signatures (sg_cache (dp_node p)))" using Cons.prems(1) by (simp add: cache_ok_def)
  have "hm_get (signatures ?c) (fst (list_sig E k')) = None" if "k' \<in> set ks" for k'
  proof (rule absent_stays [OF w])
    show "hm_get (signatures (sg_cache (dp_node p))) (fst (list_sig E k')) = None" using Cons.prems(3) [of k'] that by simp
    show "fst (list_sig E k') \<noteq> fst (list_sig E k)" using Cons.prems(2) that by (auto simp: image_iff)
  qed
  then have "serve E cfg rd rtc (map (list_request E config ip) ks) (p\<lparr>dp_node := (dp_node p)\<lparr>sg_cache := ?c\<rparr>\<rparr>) =
      Some (p\<lparr>dp_node := (dp_node p)\<lparr>sg_cache := cache_run (map (\<lambda>k. (fst (list_sig E k), snd k, unix_secs rd)) ks) ?c\<rparr>\<rparr>)"
    using Cons.IH [of "p\<lparr>dp_node := (dp_node p)\<lparr>sg_cache := ?c\<rparr>\<rparr>"] Cons.prems(2,3) check_and_insert_ok [OF Cons.prems(1)] by simp
  then show ?case by (simp add: r)
qed simp

lemma cache_run_append: "cache_run (xs @ ys) cache = cache_run ys (cache_run xs cache)"
  by (induction xs arbitrary: cache) simp_all

lemma cache_run_ok: "cache_ok cache \<Longrightarrow> cache_ok (cache_run cs cache)"
  by (induction cs arbitrary: cache) (simp_all add: check_and_insert_ok)

text \<open>After a successful check every entry of the cache is within the drift.\<close>

lemma check_and_insert_live:
  assumes "cache_ok cache" and "check_and_insert sig ts now cache = (Ok (), cache1)" and "abs_diff now ts \<le> MAX_TIMESTAMP_DRIFT_SECS"
  shows "hm_all (\<lambda>_ t. abs_diff now t \<le> MAX_TIMESTAMP_DRIFT_SECS) (signatures cache1)"
proof -
  define live where "live = hm_retain (\<lambda>_ ts. abs_diff now ts \<le> MAX_TIMESTAMP_DRIFT_SECS) (signatures cache)"
  have w: "hm_wf (signatures cache)" using assms(1) by (simp add: cache_ok_def)
  have "hm_all (\<lambda>_ t. abs_diff now t \<le> MAX_TIMESTAMP_DRIFT_SECS) live" by (auto simp: live_def hm_all_def hm_retain_def list_all_iff)
  moreover have "set (evicted live) \<subseteq> set live" using set_drop_subset [of _ "sort_key snd live"] by (simp add: evicted_def)
  ultimately have "hm_all (\<lambda>_ t. abs_diff now t \<le> MAX_TIMESTAMP_DRIFT_SECS) (evicted live)" by (auto simp: hm_all_def list_all_iff)
  moreover have "signatures cache1 = hm_insert sig ts (evicted live)"
    using assms(2) by (auto simp: check_and_insert_eq [OF w live_def] split: if_splits)
  ultimately show ?thesis using assms(3) by auto
qed

text \<open>A full cache whose older half holds a signature forgets it at the next check.\<close>

lemma flooded_cache_forgets:
  assumes "cache_ok cache" and "hm_all (\<lambda>_ t. abs_diff now t \<le> MAX_TIMESTAMP_DRIFT_SECS) (signatures cache @ cs)"
    and "hm_wf (signatures cache @ cs)" and "hm_get (signatures cache) sig = Some ts" and "\<And>c. c \<in> set cs \<Longrightarrow> ts < snd c"
    and "length (signatures cache) \<le> MAX_ANTI_REPLAY_CACHE_SIZE div 2" and "length (signatures cache @ cs) = MAX_ANTI_REPLAY_CACHE_SIZE"
    and "sig' \<noteq> sig" and "hm_get (signatures cache @ cs) sig' = None"
  shows "hm_get (signatures (snd (check_and_insert sig' ts' now (cache_run (map (\<lambda>(s, t). (s, t, now)) cs) cache)))) sig = None"
proof -
  let ?m = "signatures cache @ cs"
  have m: "signatures (cache_run (map (\<lambda>(s, t). (s, t, now)) cs) cache) = ?m" using cache_fills assms(2,3,7) by simp
  have "filter (\<lambda>(_, t'). ts < t') cs = cs" using assms(5) by (auto intro!: filter_True)
  then have "MAX_ANTI_REPLAY_CACHE_SIZE div 2 \<le> length (filter (\<lambda>(_, t'). ts < t') ?m)"
    using assms(6,7) by (simp add: MAX_ANTI_REPLAY_CACHE_SIZE_def)
  moreover have "hm_get ?m sig = Some ts" using assms(4) by (simp add: hm_get_def)
  ultimately have "hm_get (evicted ?m) sig = None" using evicts_older assms(3,7) by blast
  then show ?thesis
    using assms(3,8,9) check_and_insert_eq [of "cache_run (map (\<lambda>(s, t). (s, t, now)) cs) cache" _ now sig' ts'] retain_all [OF assms(2)]
    by (simp add: m hm_simps)
qed

text \<open>C14: the rejection of replays can be switched off from outside: right after a header has been
  accepted, anybody who sends as many requests for the address list as the anti-replay cache has room for, and one more, each under an invented
  key and dated after the header, makes the daemon forget the header, which is then accepted again; none of these requests is
  rate limited.\<close>

theorem flood_allows_replay:
  assumes "crypto_laws E" and "cache_ok cache0"
    and "verify_any_authorization_header_with_cache E (unix_secs rd) hdr sdp cache0 = (Ok a, sg_cache (dp_node p))"
    and "header_sig hdr = Some (sig, ts)" and "hm_len (signatures (sg_cache (dp_node p))) \<le> MAX_ANTI_REPLAY_CACHE_SIZE div 2"
    and "hm_len (signatures (sg_cache (dp_node p))) + length ks = MAX_ANTI_REPLAY_CACHE_SIZE" and "distinct (map (fst \<circ> list_sig E) (ks @ [k]))"
    and "\<And>k'. k' \<in> set (ks @ [k]) \<Longrightarrow> length (fst k') = 32 \<and> abs_diff (unix_secs rd) (snd k') \<le> MAX_TIMESTAMP_DRIFT_SECS \<and>
      ts < snd k' \<and> hm_get (signatures (sg_cache (dp_node p))) (fst (list_sig E k')) = None"
  shows "\<exists>p'. serve E cfg rd rtc (map (list_request E config ip) (ks @ [k])) p = Some p' \<and> dp_limiter p' = dp_limiter p \<and>
    fst (verify_any_authorization_header_with_cache E (unix_secs rd) hdr sdp (sg_cache (dp_node p'))) = Ok a"
proof -
  let ?c = "sg_cache (dp_node p)" and ?now = "unix_secs rd"
  define cs where "cs = map (list_sig E) ks"
  define run where "run = cache_run (map (\<lambda>k. (fst (list_sig E k), snd k, ?now)) (ks @ [k])) ?c"
  have chk: "check_and_insert sig ts ?now cache0 = (Ok (), ?c)" and drift: "abs_diff ?now ts \<le> MAX_TIMESTAMP_DRIFT_SECS"
    using verify_any_Ok [OF assms(3)] assms(4) by auto
  have c: "cache_ok ?c" using check_and_insert_ok [OF assms(2), of sig ts ?now] by (simp add: chk)
  note stored = check_and_insert_stores [OF assms(2) chk] and live = check_and_insert_live [OF assms(2) chk drift]
  have fresh: "hm_get (signatures ?c) (fst (list_sig E k')) = None" if "k' \<in> set (ks @ [k])" for k' using assms(8) [OF that] by simp
  have flood: "abs_diff ?now (snd x) \<le> MAX_TIMESTAMP_DRIFT_SECS \<and> ts < snd x" if x: "x \<in> set cs" for x
  proof -
    obtain k' where "k' \<in> set ks" "snd x = snd k'" using x by (auto simp: cs_def list_sig_def)
    then show ?thesis using assms(8) [of k'] by simp
  qed
  have eq: "map (\<lambda>k. (fst (list_sig E k), snd k, ?now)) ks = map (\<lambda>(s, t). (s, t, ?now)) cs" by (simp add: cs_def list_sig_def)
  have new: "fst (list_sig E k') \<notin> fst ` set (signatures ?c)" if "k' \<in> set (ks @ [k])" for k'
    using fresh [OF that] by (simp add: hm_get_def map_of_eq_None_iff)
  have disj: "fst ` set (signatures ?c) \<inter> fst ` set cs = {}"
  proof -
    have "fst ` set cs = (\<lambda>k. fst (list_sig E k)) ` set ks" by (simp add: cs_def image_image)
    moreover have "x \<notin> fst ` set (signatures ?c)" if x: "x \<in> (\<lambda>k. fst (list_sig E k)) ` set ks" for x
    proof -
      obtain k' where "k' \<in> set ks" "x = fst (list_sig E k')" using x by blast
      then show ?thesis using new [of k'] by simp
    qed
    ultimately show ?thesis by blast
  qed
  have "distinct (map fst cs)" using assms(7) by (simp add: cs_def o_def)
  with c disj have wf: "hm_wf (signatures ?c @ cs)" by (simp add: cache_ok_def hm_wf_def)
  have "hm_get (signatures (snd (check_and_insert (fst (list_sig E k)) (snd k) ?now (cache_run (map (\<lambda>(s, t). (s, t, ?now)) cs) ?c)))) sig = None"
  proof (rule flooded_cache_forgets [OF c _ wf stored])
    show "hm_all (\<lambda>_ t. abs_diff ?now t \<le> MAX_TIMESTAMP_DRIFT_SECS) (signatures ?c @ cs)"
      using live flood by (auto simp: hm_all_def list_all_iff)
    show "ts < snd x" if "x \<in> set cs" for x using flood [OF that] by simp
    show "fst (list_sig E k) \<noteq> sig" using stored fresh [of k] by auto
    show "hm_get (signatures ?c @ cs) (fst (list_sig E k)) = None"
      using assms(7) new [of k] by (auto simp: hm_get_def map_of_eq_None_iff cs_def image_iff)
  qed (use assms(5,6) in \<open>simp_all add: hm_len_def cs_def\<close>)
  then have "hm_get (signatures run) sig = None" unfolding run_def map_append cache_run_append eq by simp
  then have "fst (check_and_insert sig ts ?now run) = Ok ()"
    using check_fresh_signature [of run] cache_run_ok [OF c] by (simp add: run_def)
  then have "fst (verify_any_authorization_header_with_cache E ?now hdr sdp run) = Ok a" by (rule accepted_again [OF assms(3,4)])
  then show ?thesis
    using list_requests_effect [OF assms(1) c assms(7), of rd cfg rtc config ip] assms(8) by (simp add: run_def del: map_append)
qed

definition process_example :: daemon_process where
  "process_example = \<lparr>dp_node = mesh_example, dp_limiter = GLOBAL_RATE_LIMITER\<rparr>"

lemma unix_secs_1005: "unix_secs rd_1005 = 1005"
  by (simp add: unix_secs_def rd_1005_def)

theorem address_list_for_anyone_witness:
  "\<exists>addrs p'. route_request std_crypto cfg_example rd_1005 rtc_example
       (list_request std_crypto ClConfiguration_default (V4 10 0 0 1) (replicate 32 7, 1000)) process_example
     = Some ((200, AddressList addrs), p') \<and> dp_limiter p' = GLOBAL_RATE_LIMITER"
proof -
  let ?req = "list_request std_crypto ClConfiguration_default (V4 10 0 0 1) (replicate 32 7, 1000)"
  have c: "sg_cache (dp_node process_example) = AntiReplayCache_new" by (simp add: process_example_def mesh_example_def)
  have "abs_diff (unix_secs rd_1005) 1000 \<le> MAX_TIMESTAMP_DRIFT_SECS"
    by (simp add: unix_secs_1005 abs_diff_def MAX_TIMESTAMP_DRIFT_SECS_def)
  moreover have "hm_get (signatures AntiReplayCache_new) s = None" for s by (simp add: AntiReplayCache_new_def hm_new_def hm_get_def)
  moreover have "rq_method ?req = GET" "rq_path ?req = ''/addresses''"
      "rq_headers ?req = header_map (snd (addresses_request std_crypto 1000 ClConfiguration_default (replicate 32 7)))"
    by (simp_all add: list_request_def)
  moreover have "dp_limiter process_example = GLOBAL_RATE_LIMITER" by (simp add: process_example_def)
  ultimately show ?thesis
    using address_list_for_anyone [OF stdc.crypto_laws_axioms, of "replicate 32 7" process_example rd_1005 1000 ?req
        ClConfiguration_default cfg_example rtc_example]
    by (metis c cache_ok_new length_replicate)
qed

text \<open>Ten thousand invented keys, each with its own signature and none with that of the example.\<close>

definition seed_example :: "nat \<Rightarrow> bytes" where
  "seed_example i = le_bytes 8 i @ replicate 24 0"

lemma list_sig_std: "fst (list_sig std_crypto (seed, ts)) = hex_encode std_crypto (seed @ replicate 32 0)"
  by (simp add: list_sig_def sign_def keypair_generate_def) (simp add: std_crypto_def)

lemma seed_example_inj: "i < 10000 \<Longrightarrow> j < 10000 \<Longrightarrow> seed_example i = seed_example j \<longleftrightarrow> i = j"
proof (rule iffI)
  assume "i < 10000" "j < 10000" "seed_example i = seed_example j"
  then have "le_bytes 8 i = le_bytes 8 j" by (simp only: seed_example_def append_same_eq)
  moreover have "le_nat (le_bytes 8 i) = i" "le_nat (le_bytes 8 j) = j"
    using \<open>i < 10000\<close> \<open>j < 10000\<close> by (intro le_nat_le_bytes; simp)+
  ultimately show "i = j" by metis
qed simp

lemma seed_example_other: "fst (list_sig std_crypto (seed_example i, ts)) \<noteq> sig_example"
proof
  assume "fst (list_sig std_crypto (seed_example i, ts)) = sig_example"
  then have "seed_example i @ replicate 32 0 = replicate 32 0xAB @ replicate 32 0"
    by (simp only: list_sig_std examples_eq(2) [symmetric] stdc.hex_encode_inj)
  then have "drop 8 (seed_example i @ replicate 32 0) = drop 8 (replicate 32 0xAB @ replicate 32 0)" by (rule arg_cong)
  then show False by (simp add: seed_example_def)
qed

lemma header_sig_example: "header_sig (hdr_example sig_example) = Some (sig_example, 1000)"
proof -
  have "\<not> starts_with (''WP-Ed25519 '' @ r) ''WP-Secp256k1 ''" for r by (simp add: starts_with_def)
  moreover have "drop (length ''WP-Ed25519 '') (''WP-Ed25519 '' @ r) = r" for r by simp
  ultimately show ?thesis
    using split_header [OF examples_eq(4,5), of "unat (1000 :: u64)"] parse_show_u64 [of 1000]
    by (simp add: header_sig_def hdr_example_def del: append.simps drop_append list.size length_Cons)
qed

theorem flood_allows_replay_witness:
  "\<exists>p'. serve std_crypto cfg_example rd_1005 rtc_example
       (map (list_request std_crypto ClConfiguration_default (V4 10 0 0 1)) (map (\<lambda>i. (seed_example i, 1001)) [0..<9999] @ [(seed_example 9999, 1001)]))
       (process_example\<lparr>dp_node := mesh_example\<lparr>sg_cache := cache_example\<rparr>\<rparr>) = Some p' \<and> dp_limiter p' = GLOBAL_RATE_LIMITER \<and>
     fst (verify_any_authorization_header_with_cache std_crypto (unix_secs rd_1005) (hdr_example sig_example) ''v=0'' (sg_cache (dp_node p')))
       = Ok (UserAddress_new pk_example)"
proof -
  let ?p = "process_example\<lparr>dp_node := mesh_example\<lparr>sg_cache := cache_example\<rparr>\<rparr>"
  let ?ks = "map (\<lambda>i. (seed_example i, 1001 :: u64)) [0..<9999]" and ?k = "(seed_example 9999, 1001 :: u64)"
  have all: "?ks @ [?k] = map (\<lambda>i. (seed_example i, 1001)) [0..<10000]" 
    by (subst upt_add_eq_append [of 0 9999 1, simplified]) simp_all
  have "inj_on (fst \<circ> list_sig std_crypto \<circ> (\<lambda>i. (seed_example i, 1001))) (set [0..<10000])"
    by (rule inj_onI) (simp add: list_sig_std stdc.hex_encode_inj seed_example_inj)
  then have d: "distinct (map (fst \<circ> list_sig std_crypto) (?ks @ [?k]))"
    unfolding all map_map distinct_map by (simp add: comp_assoc)
  have v: "verify_any_authorization_header_with_cache std_crypto (unix_secs rd_1005) (hdr_example sig_example) ''v=0'' AntiReplayCache_new
      = (Ok (UserAddress_new pk_example), sg_cache (dp_node ?p))"
    by (simp add: unix_secs_1005 first_verification_any process_example_def)
  have l: "hm_len (signatures (sg_cache (dp_node ?p))) = 1" by (simp add: cache_example_def hm_len_def process_example_def)
  have f: "length (fst k') = 32 \<and> abs_diff (unix_secs rd_1005) (snd k') \<le> MAX_TIMESTAMP_DRIFT_SECS \<and>
      1000 < snd k' \<and> hm_get (signatures (sg_cache (dp_node ?p))) (fst (list_sig std_crypto k')) = None" if "k' \<in> set (?ks @ [?k])" for k'
  proof -
    obtain i where "k' = (seed_example i, 1001)" using \<open>k' \<in> _\<close> unfolding all by auto
    then show ?thesis
      using seed_example_other [of i 1001]
      by (simp add: seed_example_def unix_secs_1005 abs_diff_def MAX_TIMESTAMP_DRIFT_SECS_def hm_get_def cache_example_def)
  qed
  have "\<exists>p'. serve std_crypto cfg_example rd_1005 rtc_example (map (list_request std_crypto ClConfiguration_default (V4 10 0 0 1)) (?ks @ [?k])) ?p
      = Some p' \<and> dp_limiter p' = dp_limiter ?p \<and>
    fst (verify_any_authorization_header_with_cache std_crypto (unix_secs rd_1005) (hdr_example sig_example) ''v=0'' (sg_cache (dp_node p')))
      = Ok (UserAddress_new pk_example)"
    by (rule flood_allows_replay [OF stdc.crypto_laws_axioms cache_ok_new v header_sig_example _ _ d f])
       (simp_all only: l MAX_ANTI_REPLAY_CACHE_SIZE_def length_map length_upt)
  then show ?thesis by (simp add: process_example_def)
qed

end
