(* ===== verification/WP_FfiLists.thy ===== *)
theory WP_FfiLists
  imports WP_Speaker WP_Ffi WP_Entry
begin

text \<open>
  The rest of the C interface (\<^verbatim>\<open>crates/wpapi/src/ffi/audio.rs\<close>, \<^verbatim>\<open>ffi/keystore.rs\<close>, \<^verbatim>\<open>ffi/logging.rs\<close>): the two calls that hand out
  a list as a JSON string, which the caller has to free, and the log callback. The heap of \<open>WP_Ffi\<close> is extended by the strings that are
  handed out; \<open>None\<close> is again undefined behaviour. Serialization to JSON and the HTTP request are arguments.
\<close>

section \<open>Strings that are handed out\<close>

record LogCallbackState =
  lc_callback :: nat
  lc_user_data :: nat

record ffi_lib =
  lib_ffi :: ffi
  lib_strings :: "nat \<rightharpoonup> string"
  lib_log :: "LogCallbackState option"

definition lib_error :: "string \<Rightarrow> ffi_lib \<Rightarrow> (int \<times> nat option \<times> ffi_lib) option" where
  "lib_error err st = Some (- 1, None, st\<lparr>lib_ffi := set_last_error err (lib_ffi st)\<rparr>)"

definition wpapi_string_free :: "nat \<Rightarrow> ffi_lib \<Rightarrow> ffi_lib option" where
  "wpapi_string_free ptr st =
     (if ptr = 0 then Some st
      else if lib_strings st ptr = None then None
      else Some (st\<lparr>lib_strings := (lib_strings st)(ptr := None)\<rparr>))"

text \<open>\<^verbatim>\<open>CString::new\<close> and \<^verbatim>\<open>into_raw\<close> at a new address \<open>q\<close>: the return code, what \<^verbatim>\<open>*out_json\<close> is set to, and the state.\<close>

definition hand_out :: "nat \<Rightarrow> string \<Rightarrow> ffi_lib \<Rightarrow> (int \<times> nat option \<times> ffi_lib) option" where
  "hand_out q json_str st =
     (if NUL \<in> set json_str
      then lib_error (''nul byte found in provided data at position: '' @ show_nat (length (takeWhile (\<lambda>c. c \<noteq> NUL) json_str))) st
      else Some (0, Some q, st\<lparr>lib_strings := (lib_strings st)(q \<mapsto> json_str)\<rparr>))"

definition wpapi_list_audio_devices ::
    "(string list \<times> string list \<Rightarrow> (string, string) result) \<Rightarrow> audio_host \<Rightarrow> nat \<Rightarrow> bool \<Rightarrow> ffi_lib \<Rightarrow> (int \<times> nat option \<times> ffi_lib) option" where
  "wpapi_list_audio_devices to_json host q out_json_null st =
     (if out_json_null then lib_error ''Null pointer argument'' st
      else hand_out q (case to_json (get_device_names host) of Inr j \<Rightarrow> j | Inl _ \<Rightarrow> []) st)"

definition fetch_error_text :: "FetchError \<Rightarrow> string" where
  "fetch_error_text e =
     (case e of FetchSend m \<Rightarrow> m | FetchStatus s \<Rightarrow> ''Server returned HTTP status '' @ s | FetchJson m \<Rightarrow> m)"

text \<open>\<open>rt\<close>: whether the runtime starts; \<open>exchange\<close>: the answer to a request.\<close>

definition wpapi_list_addresses ::
    "'z crypto_crates_scheme \<Rightarrow> (UserAddress list \<Rightarrow> (string, string) result) \<Rightarrow> (unit, string) result \<Rightarrow>
     (string \<times> (string \<times> string) list \<Rightarrow> (list_response, string) result) \<Rightarrow> u64 \<Rightarrow> bytes \<Rightarrow> nat \<Rightarrow> nat \<Rightarrow> bool \<Rightarrow> ffi_lib \<Rightarrow>
     (int \<times> nat option \<times> ffi_lib) option" where
  "wpapi_list_addresses E to_json rt exchange now seed q config out_json_null st =
     (if config = 0 \<or> out_json_null then lib_error ''Null pointer argument'' st
      else case ffi_configs (lib_ffi st) config of
             None \<Rightarrow> None
           | Some c \<Rightarrow>
               (case rt of
                  Inl e \<Rightarrow> lib_error e st
                | Inr _ \<Rightarrow>
                    (case fetch_addresses (exchange (addresses_request E now (wc_config c) seed)) of
                       Inl e \<Rightarrow> lib_error (fetch_error_text e) st
                     | Inr addrs \<Rightarrow> (case to_json addrs of Inl e \<Rightarrow> lib_error e st | Inr json_str \<Rightarrow> hand_out q json_str st))))"

section \<open>Logging\<close>

datatype WPAPILogLevel = LogDebug | LogInfo | LogWarn | LogError
datatype tracing_level = TRACE | DEBUG | INFO | WARN | ERROR

fun log_level :: "tracing_level \<Rightarrow> WPAPILogLevel" where
  "log_level TRACE = LogDebug" | "log_level DEBUG = LogDebug" | "log_level INFO = LogInfo" | "log_level WARN = LogWarn" | "log_level ERROR = LogError"

text \<open>One field of an event, its value as text.\<close>

definition record_field :: "string \<times> string \<Rightarrow> string \<Rightarrow> string" where
  "record_field field msg =
     (if fst field = ''message'' then snd field
      else (if msg \<noteq> [] then msg @ '', '' else msg) @ fst field @ ''='' @ snd field)"

text \<open>The call of the callback for an event, with the text of a C string.\<close>

definition log_event ::
    "tracing_level \<Rightarrow> (string \<times> string) list \<Rightarrow> ffi_lib \<Rightarrow> (LogCallbackState \<times> WPAPILogLevel \<times> string) option" where
  "log_event level fs st =
     map_option (\<lambda>state.
       let message = fold record_field fs []
       in (state, log_level level, if NUL \<in> set message then ''Log message contained null bytes'' else message)) (lib_log st)"

definition wpapi_set_log_callback :: "nat option \<Rightarrow> nat \<Rightarrow> ffi_lib \<Rightarrow> ffi_lib" where
  "wpapi_set_log_callback callback user_data st =
     st\<lparr>lib_log := map_option (\<lambda>cb. \<lparr>lc_callback = cb, lc_user_data = user_data\<rparr>) callback\<rparr>"

section \<open>Properties\<close>

text \<open>What a list call promises: a new string that is a C string, to be freed once, or a message and nothing else.\<close>

definition list_promise :: "nat \<Rightarrow> ffi_lib \<Rightarrow> (int \<times> nat option \<times> ffi_lib) option \<Rightarrow> bool" where
  "list_promise q st r \<longleftrightarrow>
     (case r of
        None \<Rightarrow> False
      | Some (code, ptr, st') \<Rightarrow>
          lib_log st' = lib_log st \<and> ffi_configs (lib_ffi st') = ffi_configs (lib_ffi st) \<and> ffi_calls (lib_ffi st') = ffi_calls (lib_ffi st) \<and>
          (if code = 0
           then ptr = Some q \<and> (\<exists>s. lib_strings st' q = Some s \<and> NUL \<notin> set s) \<and>
             (\<exists>st''. wpapi_string_free q st' = Some st'' \<and> lib_strings st'' = lib_strings st \<and> wpapi_string_free q st'' = None)
           else code = - 1 \<and> ptr = None \<and> lib_strings st' = lib_strings st \<and> (\<exists>m. ffi_last_error (lib_ffi st') = Some m \<and> NUL \<notin> set m)))"

lemma lib_error_promise: "list_promise q st (lib_error err st)"
  by (simp add: list_promise_def lib_error_def)

lemma hand_out_promise: "q \<noteq> 0 \<Longrightarrow> lib_strings st q = None \<Longrightarrow> list_promise q st (hand_out q json st)"
  using lib_error_promise by (auto simp: list_promise_def hand_out_def wpapi_string_free_def lib_error_def fun_upd_idem)

text \<open>lists are handed out safely: a list call with a null pointer or a live configuration returns either 0 and a string at a new address that is
  free of null bytes, whose release restores the heap and whose second release would be an error of the caller, or -1 with a message
  and no change to the heap; the audio devices and the addresses alike.\<close>

theorem lists_handed_out:
  assumes "q \<noteq> 0" and "lib_strings st q = None" and "config = 0 \<or> ffi_configs (lib_ffi st) config \<noteq> None"
  shows "list_promise q st (wpapi_list_audio_devices devices_json host q out_null st) \<and>
    list_promise q st (wpapi_list_addresses E addresses_json rt exchange now seed q config out_null st)"
  using assms hand_out_promise [OF assms(1,2)] lib_error_promise [of q st]
  by (auto simp: wpapi_list_audio_devices_def wpapi_list_addresses_def split: option.splits sum.splits)

definition lib_example :: ffi_lib where
  "lib_example = \<lparr>lib_ffi = \<lparr>ffi_configs = Map.empty, ffi_calls = Map.empty, ffi_last_error = None\<rparr>, lib_strings = Map.empty, lib_log = None\<rparr>"

definition host_example :: audio_host where
  "host_example = \<lparr>ah_input_devices = Ok [1], ah_output_devices = Err ''none'', ah_default_input = None, ah_default_output = None,
     ah_description = (\<lambda>_. Ok ''Mic'')\<rparr>"

theorem lists_handed_out_witness:
  "list_promise 4096 lib_example (wpapi_list_audio_devices (\<lambda>(i, _). Ok (concat i)) host_example 4096 False lib_example) \<and>
   wpapi_list_audio_devices (\<lambda>(i, _). Ok (concat i)) host_example 4096 False lib_example
     = Some (0, Some 4096, lib_example\<lparr>lib_strings := [4096 \<mapsto> ''Mic'']\<rparr>)"
proof
  show "list_promise 4096 lib_example (wpapi_list_audio_devices (\<lambda>(i, _). Ok (concat i)) host_example 4096 False lib_example)"
    by (rule lists_handed_out [of 4096 lib_example 0 _ _ _ std_crypto, THEN conjunct1]) (simp_all add: lib_example_def)
  show "wpapi_list_audio_devices (\<lambda>(i, _). Ok (concat i)) host_example 4096 False lib_example
     = Some (0, Some 4096, lib_example\<lparr>lib_strings := [4096 \<mapsto> ''Mic'']\<rparr>)"
    by (simp add: wpapi_list_audio_devices_def get_device_names_def device_names_def host_example_def hand_out_def lib_example_def)
qed

text \<open>Fields that are recorded before the message are lost: the message replaces what has been collected.\<close>

lemma fields_before_message_lost:
  "fold record_field (before @ [(''message'', m)] @ after) [] = fold record_field ((''message'', m) # after) []"
  by (simp add: record_field_def)

end
