(* ===== verification/Spec2Isabelle.thy ===== *)
theory Spec2Isabelle
  imports WP_Tasks WP_Mesh WP_System WP_Audio WP_Render WP_Identity WP_FfiLists
begin

text \<open>
  \<^bold>\<open>Web Phone: a verification development.\<close>

  Web Phone is a voice-over-WebRTC system in three Rust crates under \<^verbatim>\<open>src/crates/\<close>: the library \<^verbatim>\<open>wpapi\<close>
  (addresses, wire protocol, authentication, audio buffer, key store, client session), the server
  \<^verbatim>\<open>wpdaemon\<close> and the terminal client \<^verbatim>\<open>wpclient\<close>. A client signs an SDP offer and posts it to a daemon; the
  daemon authenticates the offer, answers it, assigns the client an id and an address, and then exchanges binary packets with the client
  over one WebRTC data channel. Clients call each other by (a prefix of) their address or join rooms; audio goes through a
  broadcast channel inside the daemon, and daemons form a mesh that relays audio between nodes.

  \<^bold>\<open>How the sources are modelled.\<close> A struct is a \<open>record\<close>, an enum a \<open>datatype\<close>, a fixed-width
  integer a word, a \<^verbatim>\<open>Result\<close> a sum with the error on the left (\<open>Err\<close>, \<open>Ok\<close>), a panic \<open>None\<close>. Stateful code takes
  and returns its state; what it does to the world is a list of effects in order. Readings of clocks, random numbers, environment and the
  answers of the operating system are arguments. Strings are lists of bytes (\<open>string\<close>), as UTF-8. Doubles are reals with explicit rounding
  (\<open>WP_Float\<close>). A \<^verbatim>\<open>HashMap\<close> is its list of entries in iteration order, and no theorem constrains the order it starts from.
  A handler is the function it computes when no other task interrupts it; for the daemon, \<open>WP_Tasks\<close> has the handlers once more at the
  grain of their locks. Poisoned locks are not represented. Third-party crates (hashes,
  signatures, ciphers, encodings, JSON, URLs, WebRTC, HTTP) are fields of a record \<open>E\<close> of functions or arguments; what
  the code relies on is stated in the locales \<open>hex_laws\<close>, \<open>bytes_laws\<close>, \<open>crate_laws\<close>, \<open>crypto_laws\<close> and
  \<open>storage_laws\<close>, each extending the previous one, and the witnesses use a concrete \<open>E\<close> that satisfies them.

  \<^bold>\<open>The theories.\<close>

  \<^item> \<open>WP_Prelude\<close>: types, results, little-endian integers, decimal printing and parsing, string functions of \<^verbatim>\<open>std\<close>.
  \<^item> \<open>WP_HashMap\<close>: \<^verbatim>\<open>std::collections::HashMap\<close> and its interface \<open>hash_map\<close>.
  \<^item> \<open>WP_Crates\<close>: the \<^verbatim>\<open>hex\<close>, \<^verbatim>\<open>bytes\<close> and \<^verbatim>\<open>sha2\<close> crates as parameters with laws.
  \<^item> \<open>WP_Float\<close>: rounding of IEEE doubles, its monotonicity and error bounds.
  \<^item> \<open>WP_Address\<close> (\<^verbatim>\<open>wpapi/src/address/user.rs\<close>): user addresses, wire form, short IDs. Round trip of canonical
    addresses; when exactly a short ID survives the wire.
  \<^item> \<open>WP_Protocol\<close> (\<^verbatim>\<open>wpapi/src/protocol/\<close>): packets, encoder, decoder. The decoder is total and yields well-formed
    packets; it inverts the encoder; lengths; the one packet type it confuses.
  \<^item> \<open>WP_Auth\<close> (\<^verbatim>\<open>wpapi/src/address/auth.rs\<close>, \<^verbatim>\<open>keypair.rs\<close>, \<^verbatim>\<open>nostr.rs\<close>): key pairs, authorization headers, anti-replay
    cache. Soundness and completeness of verification, rejection of replays, the bound of the cache, and the replay that gets through.
  \<^item> \<open>WP_RateLimit\<close> (\<^verbatim>\<open>wpdaemon/src/rate_limit.rs\<close>): token buckets; interface \<open>token_buckets\<close>, interpreted for both
    limiters. Independence of keys in spite of clean-up, bounds over time windows; the IP address parser of \<^verbatim>\<open>std\<close>.
  \<^item> \<open>WP_Registry\<close> (\<^verbatim>\<open>wpdaemon/src/registry/\<close>): clients, calls, rooms. Invariant of every operation, what
    unregistering removes and what it leaves behind, search by address, selection of the three loudest speakers.
  \<^item> \<open>WP_Daemon\<close> (\<^verbatim>\<open>wpdaemon/src/connection.rs\<close>, \<^verbatim>\<open>connection/datachannel.rs\<close>, \<^verbatim>\<open>keepalive.rs\<close>, \<^verbatim>\<open>broadcast.rs\<close>): every packet
    handler. Whatever arrives, the handlers do not panic and keep the invariant; audio needs consent; spoofed packets have no effect;
    stale clients are evicted.
  \<^item> \<open>WP_Signaling\<close> (\<^verbatim>\<open>wpdaemon/src/connection/handshake.rs\<close>, \<^verbatim>\<open>handlers/address.rs\<close>, \<^verbatim>\<open>config.rs\<close>, \<^verbatim>\<open>error.rs\<close>): the SDP
    endpoint and the life of a connection. Error codes, authentication, the connection limit of requests handled one by one.
  \<^item> \<open>WP_Node\<close>: a running daemon as a labelled transition system whose steps are whole handlers of its tasks, in
    any order. Agreement before audio as a property of the trace; who is registered was admitted; the race on the connection limit.
  \<^item> \<open>WP_Tasks\<close>: the handlers of \<open>WP_Daemon\<close> and \<open>WP_Signaling\<close> as programs of critical sections, and pools of
    such tasks that interleave section by section, with clock readings in any order. Each task alone computes its handler; in every
    reachable state of every pool the invariants hold, no task has panicked and every task can finish. A pong that is recorded for a
    client already gone shows what a check before another section is worth.
  \<^item> \<open>WP_Mesh\<close> (\<^verbatim>\<open>wpdaemon/src/peer.rs\<close>): relaying between nodes and peer handshakes. Which nodes a message reaches, and the
    copies, collisions and relabelled codecs on the way.
  \<^item> \<open>WP_RingBuffer\<close> (\<^verbatim>\<open>wpapi/src/audio/buffer.rs\<close>): the lock-free sample buffer; interface \<open>bounded_queue\<close>. It refines a
    bounded FIFO queue as long as one thread uses it at a time; the race of \<^verbatim>\<open>cap_latency\<close> beside a consumer.
  \<^item> \<open>WP_Storage\<close> (\<^verbatim>\<open>wpapi/src/keystore.rs\<close>, \<^verbatim>\<open>sframe.rs\<close>, \<^verbatim>\<open>turn_auth.rs\<close>): round trips of the encrypted key store and
    of encrypted frames, lifetime of TURN credentials.
  \<^item> \<open>WP_ClientConfig\<close> (\<^verbatim>\<open>wpapi/src/config.rs\<close>, overrides of \<^verbatim>\<open>wpclient/src/main.rs\<close>): the client's configuration,
    with the socket-address parser of \<^verbatim>\<open>std\<close>. Ports and URLs are read back as they were set.
  \<^item> \<open>WP_Client\<close> (\<^verbatim>\<open>wpapi/src/session.rs\<close>, \<^verbatim>\<open>webrtc_session.rs\<close>, \<^verbatim>\<open>call.rs\<close>): the client session, its data channels, every
    packet it receives, starting and ending a call. The message handler does not panic and keeps the session in order, and it waits only
    on a full channel of the application; a call is accepted only on request, but a repeated request answers itself.
  \<^item> \<open>WP_System\<close>: clients against the daemon. Signing in; a call from the first packet to the first samples in the other client's
    player; the call that is heard before it is answered.
  \<^item> \<open>WP_Tui\<close> (\<^verbatim>\<open>wpclient/src/tui/app.rs\<close>, \<^verbatim>\<open>tui/event.rs\<close>, \<^verbatim>\<open>tui.rs\<close>): the terminal client as a transition system of keys,
    background events and packets. Its invariant; when the mute switch on screen is that of the microphone.
  \<^item> \<open>WP_Audio\<close> (\<^verbatim>\<open>wpapi/src/resample.rs\<close>, the input callback of \<^verbatim>\<open>audio.rs\<close>): from the microphone to the wire, in single
    precision with NaNs. The resampler returns, except for a source rate of 0; the samples sent are the samples the receiver decodes.
  \<^item> \<open>WP_Speaker\<close> (the rest of \<^verbatim>\<open>audio.rs\<close>): devices, streams and the output callback. For every rate it returns and
    writes the resampled samples to every channel; at equal rates it plays the received samples once and in order, so that what is said into a microphone comes out of the speaker.
  \<^item> \<open>WP_Render\<close> (\<^verbatim>\<open>wpclient/src/tui/ui.rs\<close>, \<^verbatim>\<open>views/\<close>, the tick of \<^verbatim>\<open>tui.rs\<close>): the texts and gauges of every frame. When a
    frame cannot be drawn, and how one received sample brings this about.
  \<^item> \<open>WP_Identity\<close> (\<^verbatim>\<open>wpclient/src/main.rs\<close>, \<^verbatim>\<open>commands/\<close>): the identity a client starts under. With a passphrase it
    persists, without one it is lost.
  \<^item> \<open>WP_Ffi\<close> (\<^verbatim>\<open>wpapi/src/ffi.rs\<close>, \<^verbatim>\<open>ffi/session.rs\<close>): the C interface on a heap of handles, with the UTF-8 check of \<^verbatim>\<open>std\<close>. A program with one thread
    that passes live handles and valid strings meets no undefined behaviour and finds a message after each failure; a rejected caller is still sent audio.
  \<^item> \<open>WP_FfiLists\<close> (\<^verbatim>\<open>ffi/audio.rs\<close>, \<^verbatim>\<open>ffi/keystore.rs\<close>, \<^verbatim>\<open>ffi/logging.rs\<close>): the lists handed out as strings, which are to be freed
    once, and the log callback.
  \<^item> \<open>WP_Entry\<close> (\<^verbatim>\<open>wpdaemon/src/main.rs\<close>, \<^verbatim>\<open>wpapi/src/client.rs\<close>, \<^verbatim>\<open>wpclient/src/commands/list.rs\<close>): the daemon's configuration
    and routes, and the address list from request to display. Anybody gets the list, and requests for it switch off the rejection of replays.

  \<^bold>\<open>Bounds.\<close> No definition uses fuel: every loop is structural recursion or has a termination proof (decimal printing,
  trimming, powers of two), except the loop of the resampler, a partial function whose result is shown to exist for positive rates. Memory is
  unbounded: the capacity the resampler reserves, and what an allocation failure does, are not represented. Clocks are natural numbers of nanoseconds except where the source computes in \<^verbatim>\<open>u64\<close>, where wrap-around
  is kept and excluded by a hypothesis.

  \<^bold>\<open>Not modelled.\<close> Pure input and output and code whose content is third-party: the streams of cpal themselves, a
  \<^verbatim>\<open>push_slice\<close> that falls into a running output callback, infinities and the sign of zero among audio samples; colours, borders and layout of the terminal client and its set-up; argument parsing,
  reading configuration files, logging and the short IDs in log messages; the construction of WebRTC connections; the listening socket of
  \<^verbatim>\<open>wpdaemon/src/main.rs\<close> and axum's answers to requests without a route; the display texts of \<^verbatim>\<open>error.rs\<close> of both crates.
\<close>

end
